(* ===== verification/Prelude.thy ===== *)
theory Prelude
  imports Complex_Main "HOL-Library.AList" "HOL-Library.Char_ord" "HOL-Library.List_Lexorder"
    "HOL-Library.Sublist" "HOL-Library.Multiset"
begin

text \<open>
  Shared vocabulary of the development: Go strings as byte lists, fallible results as sums,
  Go maps as association lists with distinct keys, the functions of package \<open>strings\<close> the
  sources call, and the generic lemmas the component theories use.

  A Go \<open>string\<close> is a sequence of bytes and a HOL \<open>char\<close> is a byte, so \<open>len(s)\<close> is
  \<open>length s\<close> and Go's byte-wise string order is the lexicographic order of
  \<open>List_Lexorder\<close> over \<open>Char_ord\<close>.
\<close>

named_theorems gomap_simps \<open>lookup and update of Go maps\<close>
named_theorems go_defs \<open>small definitions that proofs always unfold\<close>

section \<open>Results\<close>

text \<open>A Go pair \<open>(value, error)\<close>: \<open>Inl\<close> is a non-nil error, \<open>Inr\<close> a value.\<close>

type_synonym ('e, 'a) result = "'e + 'a"

fun bind_res :: "('e, 'a) result \<Rightarrow> ('a \<Rightarrow> ('e, 'b) result) \<Rightarrow> ('e, 'b) result" where
  "bind_res (Inl e) f = Inl e"
| "bind_res (Inr a) f = f a"

definition map_res :: "('a \<Rightarrow> 'b) \<Rightarrow> ('e, 'a) result \<Rightarrow> ('e, 'b) result" where
  "map_res f r = bind_res r (\<lambda>a. Inr (f a))"

definition is_ok :: "('e, 'a) result \<Rightarrow> bool" where
  "is_ok r = (case r of Inl _ \<Rightarrow> False | Inr _ \<Rightarrow> True)"

lemma map_res_simps [simp]: "map_res f (Inl e) = Inl e" "map_res f (Inr a) = Inr (f a)"
  by (simp_all add: map_res_def)

lemma is_ok_simps [simp]: "\<not> is_ok (Inl e)" "is_ok (Inr a)"
  by (simp_all add: is_ok_def)

lemma bind_res_assoc: "bind_res (bind_res r f) g = bind_res r (\<lambda>a. bind_res (f a) g)"
  by (cases r) auto

lemma bind_res_cong [fundef_cong]:
  "r = r' \<Longrightarrow> (\<And>a. r' = Inr a \<Longrightarrow> f a = g a) \<Longrightarrow> bind_res r f = bind_res r' g"
  by (cases r') auto

lemma bind_res_Inr_iff: "bind_res r f = Inr b \<longleftrightarrow> (\<exists>a. r = Inr a \<and> f a = Inr b)"
  by (cases r) auto

lemma bind_res_Inl_iff:
  "bind_res r f = Inl e \<longleftrightarrow> r = Inl e \<or> (\<exists>a. r = Inr a \<and> f a = Inl e)"
  by (cases r) auto

lemma map_res_Inr_iff: "map_res f r = Inr b \<longleftrightarrow> (\<exists>a. r = Inr a \<and> b = f a)"
  by (cases r) auto

lemma map_res_Inl_iff [simp]: "map_res f r = Inl e \<longleftrightarrow> r = Inl e"
  by (cases r) auto

section \<open>Go maps\<close>

text \<open>
  A Go map is an association list with distinct keys; the list order stands for nothing.
  Go visits the keys of a map in an unspecified order: where the sources range over a map,
  the model takes the visiting order as a parameter \<open>rng\<close>, a function that permutes the
  list of keys.
\<close>

type_synonym ('k, 'v) gomap = "('k \<times> 'v) list"

type_synonym range_order = "string list \<Rightarrow> string list"

definition go_range_order :: "range_order \<Rightarrow> bool" where
  "go_range_order rng \<longleftrightarrow> (\<forall>ks. mset (rng ks) = mset ks)"

definition gkeys :: "('k, 'v) gomap \<Rightarrow> 'k list" where
  "gkeys m = map fst m"

definition wf_gomap :: "('k, 'v) gomap \<Rightarrow> bool" where
  "wf_gomap m \<longleftrightarrow> distinct (gkeys m)"

definition glookup :: "('k, 'v) gomap \<Rightarrow> 'k \<Rightarrow> 'v option" where
  "glookup m k = map_of m k"

definition gput :: "'k \<Rightarrow> 'v \<Rightarrow> ('k, 'v) gomap \<Rightarrow> ('k, 'v) gomap" where
  "gput k v m = AList.update k v m"

definition gdelete :: "'k \<Rightarrow> ('k, 'v) gomap \<Rightarrow> ('k, 'v) gomap" where
  "gdelete k m = AList.delete k m"

text \<open>The values of a map in a given visiting order of its keys.\<close>

definition gvalues :: "('k list \<Rightarrow> 'k list) \<Rightarrow> ('k, 'v) gomap \<Rightarrow> 'v list" where
  "gvalues rng m = List.map_filter (glookup m) (rng (gkeys m))"

text \<open>Reading a map: the zero value \<open>z\<close> of the element type stands in for a missing key.\<close>

definition gget :: "'v \<Rightarrow> ('k, 'v) gomap \<Rightarrow> 'k \<Rightarrow> 'v" where
  "gget z m k = (case glookup m k of None \<Rightarrow> z | Some v \<Rightarrow> v)"

lemma glookup_empty [simp, gomap_simps]: "glookup [] k = None"
  by (simp add: glookup_def)

lemma glookup_gput [simp, gomap_simps]: "glookup (gput k v m) k' = (if k' = k then Some v else glookup m k')"
  by (simp add: glookup_def gput_def update_conv')

lemma glookup_gdelete [simp, gomap_simps]: "glookup (gdelete k m) k' = (if k' = k then None else glookup m k')"
  by (simp add: glookup_def gdelete_def delete_conv')

lemma gget_simps [simp, gomap_simps]:
  "gget z [] k = z"
  "gget z (gput k v m) k' = (if k' = k then v else gget z m k')"
  "gget z (gdelete k m) k' = (if k' = k then z else gget z m k')"
  by (simp_all add: gget_def)

lemma wf_gomap_empty [simp]: "wf_gomap []"
  by (simp add: wf_gomap_def gkeys_def)

lemma wf_gomap_gput [simp, intro]: "wf_gomap m \<Longrightarrow> wf_gomap (gput k v m)"
  by (simp add: wf_gomap_def gkeys_def gput_def distinct_update)

lemma wf_gomap_gdelete [simp, intro]: "wf_gomap m \<Longrightarrow> wf_gomap (gdelete k m)"
  by (simp add: wf_gomap_def gkeys_def gdelete_def distinct_delete)

lemma set_gkeys: "set (gkeys m) = {k. glookup m k \<noteq> None}"
  by (simp add: gkeys_def glookup_def map_of_eq_None_iff)

lemma in_gkeys_iff: "k \<in> set (gkeys m) \<longleftrightarrow> (\<exists>v. glookup m k = Some v)"
  by (auto simp: set_gkeys)

lemma gkeys_gput: "gkeys (gput k v m) = (if k \<in> set (gkeys m) then gkeys m else gkeys m @ [k])"
  by (simp add: gkeys_def gput_def update_keys)

lemma gput_new: "k \<notin> set (gkeys m) \<Longrightarrow> gput k v m = m @ [(k, v)]"
  by (induction m) (auto simp: gkeys_def gput_def)

lemma gkeys_empty [simp]: "gkeys [] = []"
  by (simp add: gkeys_def)

lemma glookup_in_set: "glookup m k = Some v \<Longrightarrow> (k, v) \<in> set m"
  by (simp add: glookup_def map_of_SomeD)

lemma range_order_set: "go_range_order rng \<Longrightarrow> set (rng ks) = set ks"
  by (metis go_range_order_def set_mset_mset)

lemma range_order_distinct: "go_range_order rng \<Longrightarrow> distinct ks \<Longrightarrow> distinct (rng ks)"
  by (metis go_range_order_def mset_eq_imp_distinct_iff)

lemma go_range_order_id [simp]: "go_range_order id" "go_range_order (\<lambda>ks. ks)"
  by (simp_all add: go_range_order_def)

lemma go_range_order_rev [simp]: "go_range_order rev"
  by (simp add: go_range_order_def)

lemma set_gvalues:
  "go_range_order rng \<Longrightarrow> set (gvalues rng m) = {v. \<exists>k. glookup m k = Some v}"
  by (auto simp: gvalues_def List.map_filter_def range_order_set in_gkeys_iff image_iff)
    (metis in_gkeys_iff option.sel)

lemma map_filter_glookup: "wf_gomap m \<Longrightarrow> List.map_filter (glookup m) (gkeys m) = map snd m"
proof (induction m)
  case (Cons p m)
  obtain k v where p: "p = (k, v)" by force
  have "\<And>x. x \<in> set (gkeys m) \<Longrightarrow> glookup ((k, v) # m) x = glookup m x"
    using Cons.prems p by (auto simp: wf_gomap_def gkeys_def glookup_def)
  then have "List.map_filter (glookup ((k, v) # m)) (gkeys m) = List.map_filter (glookup m) (gkeys m)"
    by (simp add: List.map_filter_def cong: filter_cong map_cong)
  moreover have "glookup ((k, v) # m) k = Some v" by (simp add: glookup_def)
  moreover have "gkeys (p # m) = k # gkeys m" by (simp add: gkeys_def p)
  moreover have "wf_gomap m" using Cons.prems by (simp add: wf_gomap_def gkeys_def)
  ultimately show ?case using Cons.IH p by (simp add: map_filter_simps)
qed (simp add: List.map_filter_def)

lemma mset_map_filter_perm: "mset xs = mset ys \<Longrightarrow> mset (List.map_filter f xs) = mset (List.map_filter f ys)"
  by (simp add: List.map_filter_def)

lemma mset_gvalues:
  assumes "go_range_order rng" and "wf_gomap m"
  shows "mset (gvalues rng m) = mset (map snd m)"
proof -
  from assms(1) have "mset (rng (gkeys m)) = mset (gkeys m)"
    by (simp add: go_range_order_def)
  then have "mset (gvalues rng m) = mset (List.map_filter (glookup m) (gkeys m))"
    unfolding gvalues_def by (rule mset_map_filter_perm)
  with map_filter_glookup [OF assms(2)] show ?thesis by simp
qed

lemma find_witness: "x \<in> set xs \<Longrightarrow> P x \<Longrightarrow> \<exists>y. find P xs = Some y \<and> y \<in> set xs \<and> P y"
  by (induction xs) auto

section \<open>Package strings\<close>

definition HasPrefix :: "string \<Rightarrow> string \<Rightarrow> bool" where
  "HasPrefix s p = prefix p s"

definition HasSuffix :: "string \<Rightarrow> string \<Rightarrow> bool" where
  "HasSuffix s p = suffix p s"

definition Contains :: "string \<Rightarrow> string \<Rightarrow> bool" where
  "Contains s p = sublist p s"

text \<open>\<open>strings.Join(parts, sep)\<close>.\<close>

fun Join :: "string list \<Rightarrow> string \<Rightarrow> string" where
  "Join [] sep = ''''"
| "Join [x] sep = x"
| "Join (x # y # xs) sep = x @ sep @ Join (y # xs) sep"

definition ascii_lower :: "char \<Rightarrow> char" where
  "ascii_lower c = (let n = of_char c :: nat in if 65 \<le> n \<and> n \<le> 90 then char_of (n + 32) else c)"

definition is_ascii :: "char \<Rightarrow> bool" where
  "is_ascii c \<longleftrightarrow> (of_char c :: nat) < 128"

text \<open>
  \<open>strings.ToLower\<close>: bytes below 128 are lowered directly; a string with any other byte goes
  through the Unicode tables of package \<open>unicode\<close>, the parameter \<open>ulower\<close>.
\<close>

definition ToLower :: "(string \<Rightarrow> string) \<Rightarrow> string \<Rightarrow> string" where
  "ToLower ulower s = (if list_all is_ascii s then map ascii_lower s else ulower s)"

text \<open>
  \<open>strings.TrimSpace\<close> removes leading and trailing Unicode white space. The UTF-8 encodings
  of the white space code points are listed as byte strings; removing a code point at an end
  is removing one of these.
\<close>

definition utf8_spaces :: "string list" where
  "utf8_spaces =
     map (\<lambda>n. [char_of n]) [9, 10, 11, 12, 13, 32 :: nat]
     @ map (map char_of) ([[0xC2, 0x85], [0xC2, 0xA0], [0xE1, 0x9A, 0x80], [0xE2, 0x80, 0xA8],
         [0xE2, 0x80, 0xA9], [0xE2, 0x80, 0xAF], [0xE2, 0x81, 0x9F], [0xE3, 0x80, 0x80],
         [0xE2, 0x80, 0x80], [0xE2, 0x80, 0x81], [0xE2, 0x80, 0x82], [0xE2, 0x80, 0x83],
         [0xE2, 0x80, 0x84], [0xE2, 0x80, 0x85], [0xE2, 0x80, 0x86], [0xE2, 0x80, 0x87],
         [0xE2, 0x80, 0x88], [0xE2, 0x80, 0x89], [0xE2, 0x80, 0x8A]] :: nat list list)"

function trim_left :: "string list \<Rightarrow> string \<Rightarrow> string" where
  "trim_left sps s =
     (case find (\<lambda>p. p \<noteq> [] \<and> prefix p s) sps of
        None \<Rightarrow> s
      | Some p \<Rightarrow> trim_left sps (drop (length p) s))"
  by pat_completeness auto
termination
proof (relation "measure (\<lambda>(sps, s). length s)", goal_cases)
  case (2 sps s p)
  then have "p \<noteq> [] \<and> prefix p s" by (auto simp: find_Some_iff)
  then show ?case by (cases p; cases s) auto
qed simp

declare trim_left.simps [simp del]

definition TrimSpace :: "string \<Rightarrow> string" where
  "TrimSpace s = rev (trim_left (map rev utf8_spaces) (rev (trim_left utf8_spaces s)))"

text \<open>\<open>strings.EqualFold(s, t)\<close> for a \<open>t\<close> of ASCII letters other than \<open>k\<close> and \<open>s\<close> (the two
  that have a non-ASCII case variant).\<close>

definition EqualFold_ascii :: "string \<Rightarrow> string \<Rightarrow> bool" where
  "EqualFold_ascii s t \<longleftrightarrow> map ascii_lower s = map ascii_lower t"

lemma Join_filter_append: "xs \<noteq> [] \<Longrightarrow> Join (xs @ [y]) sep = Join xs sep @ sep @ y"
  by (induction xs sep rule: Join.induct) auto

lemma trim_left_suffix: "suffix (trim_left sps s) s"
proof (induction sps s rule: trim_left.induct)
  case (1 sps s)
  show ?case
  proof (cases "find (\<lambda>p. p \<noteq> [] \<and> prefix p s) sps")
    case None
    then show ?thesis by (simp add: trim_left.simps [of sps s])
  next
    case (Some p)
    with 1 show ?thesis
      by (simp add: trim_left.simps [of sps s]) (meson suffix_drop suffix_order.trans)
  qed
qed

lemma TrimSpace_sublist: "sublist (TrimSpace s) s"
proof -
  let ?a = "trim_left utf8_spaces s"
  have "suffix (trim_left (map rev utf8_spaces) (rev ?a)) (rev ?a)"
    by (rule trim_left_suffix)
  then have "prefix (TrimSpace s) ?a"
    by (simp add: TrimSpace_def suffix_to_prefix)
  then have "sublist (TrimSpace s) ?a" by (rule prefix_imp_sublist)
  with trim_left_suffix [of utf8_spaces s] show ?thesis
    by (meson sublist_order.order.trans suffix_imp_sublist)
qed

lemma TrimSpace_letter: "TrimSpace ''A'' = ''A''"
  by code_simp

lemma TrimSpace_leading: "TrimSpace '' B'' = ''B''"
  by code_simp

lemma TrimSpace_blank: "TrimSpace '' '' = ''''"
  by code_simp

lemmas TrimSpace_examples = TrimSpace_letter TrimSpace_leading TrimSpace_blank

end
