(* ===== verification/Values.thy ===== *)
theory Values
  imports Prelude
begin

text \<open>
  Go's dynamic values (\<open>any\<close>) and \<open>float64\<close>, as \<open>internal/flow/expr.go\<close> uses them: the
  helpers \<open>field\<close>, \<open>lengthOf\<close>, \<open>truthy\<close>, \<open>compare\<close>, \<open>toFloat\<close> and \<open>deepEqual\<close>.

  The dynamic types that reach an expression are those of a decoded JSON document (nil, bool,
  float64, string, \<open>[]any\<close>, \<open>map[string]any\<close>) and \<open>int\<close>, the type of \<open>.length\<close>; \<open>int64\<close> is kept
  because \<open>toFloat\<close> names it. A float64 is its exact rational value, with negative zero,
  the infinities and NaN apart.
\<close>

section \<open>float64\<close>

datatype float64 = NaN | Inf bool | NegZero | Fin rat

definition pow2 :: "int \<Rightarrow> rat" where
  "pow2 k = (if 0 \<le> k then 2 ^ nat k else 1 / 2 ^ nat (- k))"

text \<open>Largest \<open>k\<close> with \<open>2^k \<le> n\<close>, for a positive \<open>n\<close>.\<close>

function ilog2 :: "int \<Rightarrow> nat" where
  "ilog2 n = (if n \<le> 1 then 0 else Suc (ilog2 (n div 2)))"
  by pat_completeness auto
termination
  by (relation "measure nat") auto

declare ilog2.simps [simp del]

text \<open>Round to the nearest integer, halves to even.\<close>

definition rne :: "rat \<Rightarrow> int" where
  "rne x = (let f = \<lfloor>x\<rfloor>; r = x - of_int f in
     if r < 1 / 2 then f else if 1 / 2 < r then f + 1 else if even f then f else f + 1)"

text \<open>The exponent of the last mantissa bit of the float64 nearest to \<open>n / d\<close> (both positive):
  53 significant bits, and never below the subnormal exponent \<open>-1074\<close>.\<close>

definition expo64 :: "int \<Rightarrow> int \<Rightarrow> int" where
  "expo64 n d = (let k = int (ilog2 n) - int (ilog2 d);
                     l = (if pow2 k * of_int d \<le> of_int n then k else k - 1)
                 in max (l - 52) (- 1074))"

text \<open>IEEE 754 rounding of \<open>\<plusminus> n / d\<close> (\<open>0 \<le> n\<close>, \<open>0 < d\<close>) to float64.\<close>

definition round64 :: "bool \<Rightarrow> int \<Rightarrow> int \<Rightarrow> float64" where
  "round64 neg n d =
     (if n = 0 then (if neg then NegZero else Fin 0)
      else let e = expo64 n d; m = rne (of_int n / of_int d / pow2 e); v = of_int m * pow2 e in
        if 2 ^ 1024 \<le> v then Inf neg
        else if m = 0 then (if neg then NegZero else Fin 0)
        else Fin (if neg then - v else v))"

definition float64_of_int :: "int \<Rightarrow> float64" where
  "float64_of_int i = (if i = 0 then Fin 0 else round64 (i < 0) \<bar>i\<bar> 1)"

text \<open>The place of a value on the extended number line; NaN has none.\<close>

fun f64_pos :: "float64 \<Rightarrow> (int \<times> rat) option" where
  "f64_pos NaN = None"
| "f64_pos (Inf neg) = Some (if neg then -1 else 1, 0)"
| "f64_pos NegZero = Some (0, 0)"
| "f64_pos (Fin q) = Some (0, q)"

definition f64_lt :: "float64 \<Rightarrow> float64 \<Rightarrow> bool" where
  "f64_lt a b = (case (f64_pos a, f64_pos b) of
      (Some (s, x), Some (t, y)) \<Rightarrow> s < t \<or> s = t \<and> x < y
    | _ \<Rightarrow> False)"

definition f64_eq :: "float64 \<Rightarrow> float64 \<Rightarrow> bool" where
  "f64_eq a b = (case (f64_pos a, f64_pos b) of (Some p, Some q) \<Rightarrow> p = q | _ \<Rightarrow> False)"

definition f64_le :: "float64 \<Rightarrow> float64 \<Rightarrow> bool" where
  "f64_le a b \<longleftrightarrow> f64_lt a b \<or> f64_eq a b"

section \<open>Dynamic values\<close>

datatype any = VNil | VBool bool | VInt int | VInt64 int | VFloat float64 | VString string
  | VList "any list" | VMap "(string \<times> any) list"

text \<open>\<open>tokenKind\<close> of expr.go; the operators of a comparison are among them.\<close>

datatype tokenKind = tokEOF | tokIdent | tokString | tokNumber | tokBool | tokNull
  | tokAnd | tokOr | tokNot | tokEq | tokNeq | tokGt | tokLt | tokGe | tokLe
  | tokDot | tokLParen | tokRParen

definition lengthOf :: "any \<Rightarrow> int" where
  "lengthOf v = (case v of
      VNil \<Rightarrow> 0
    | VString s \<Rightarrow> int (length s)
    | VList xs \<Rightarrow> int (length xs)
    | VMap m \<Rightarrow> int (length m)
    | _ \<Rightarrow> 0)"

definition field :: "any \<Rightarrow> string \<Rightarrow> any" where
  "field v name =
     (if name = ''length'' then VInt (lengthOf v)
      else case v of
        VMap m \<Rightarrow> (case glookup m name of Some x \<Rightarrow> x | None \<Rightarrow> VNil)
      | _ \<Rightarrow> VNil)"

definition truthy :: "any \<Rightarrow> bool" where
  "truthy v = (case v of
      VNil \<Rightarrow> False
    | VBool b \<Rightarrow> b
    | VString s \<Rightarrow> s \<noteq> ''''
    | VFloat f \<Rightarrow> \<not> f64_eq f (Fin 0)
    | _ \<Rightarrow> True)"

definition toFloat :: "any \<Rightarrow> float64 option" where
  "toFloat v = (case v of
      VFloat f \<Rightarrow> Some f
    | VInt i \<Rightarrow> Some (float64_of_int i)
    | VInt64 i \<Rightarrow> Some (float64_of_int i)
    | VBool b \<Rightarrow> Some (if b then Fin 1 else Fin 0)
    | _ \<Rightarrow> None)"

text \<open>\<open>reflect.DeepEqual\<close> on these types: same dynamic type, then element by element; two maps are
  equal when they have the same number of keys and every key of the first has an equal
  value in the second.\<close>

fun reflect_DeepEqual :: "any \<Rightarrow> any \<Rightarrow> bool"
  and deep_list :: "any list \<Rightarrow> any list \<Rightarrow> bool"
  and deep_map :: "(string \<times> any) list \<Rightarrow> (string \<times> any) list \<Rightarrow> bool" where
  "reflect_DeepEqual VNil w = (w = VNil)"
| "reflect_DeepEqual (VBool a) w = (w = VBool a)"
| "reflect_DeepEqual (VInt a) w = (w = VInt a)"
| "reflect_DeepEqual (VInt64 a) w = (w = VInt64 a)"
| "reflect_DeepEqual (VFloat a) w = (case w of VFloat b \<Rightarrow> f64_eq a b | _ \<Rightarrow> False)"
| "reflect_DeepEqual (VString a) w = (w = VString a)"
| "reflect_DeepEqual (VList xs) w = (case w of VList ys \<Rightarrow> deep_list xs ys | _ \<Rightarrow> False)"
| "reflect_DeepEqual (VMap m) w =
     (case w of VMap n \<Rightarrow> length m = length n \<and> deep_map m n | _ \<Rightarrow> False)"
| "deep_list [] ys = (ys = [])"
| "deep_list (x # xs) ys =
     (case ys of [] \<Rightarrow> False | y # ys' \<Rightarrow> reflect_DeepEqual x y \<and> deep_list xs ys')"
| "deep_map [] n = True"
| "deep_map ((k, v) # m) n =
     ((case glookup n k of None \<Rightarrow> False | Some w \<Rightarrow> reflect_DeepEqual v w) \<and> deep_map m n)"

definition deepEqual :: "any \<Rightarrow> any \<Rightarrow> bool" where
  "deepEqual a b =
     (if a = VNil \<or> b = VNil then a = VNil \<and> b = VNil
      else case (toFloat a, toFloat b) of
        (Some x, Some y) \<Rightarrow> f64_eq x y
      | _ \<Rightarrow> reflect_DeepEqual a b)"

definition orderFloat :: "tokenKind \<Rightarrow> float64 \<Rightarrow> float64 \<Rightarrow> bool" where
  "orderFloat op a b = (case op of
      tokGt \<Rightarrow> f64_lt b a
    | tokLt \<Rightarrow> f64_lt a b
    | tokGe \<Rightarrow> f64_le b a
    | tokLe \<Rightarrow> f64_le a b
    | _ \<Rightarrow> False)"

definition orderString :: "tokenKind \<Rightarrow> string \<Rightarrow> string \<Rightarrow> bool" where
  "orderString op a b = (case op of
      tokGt \<Rightarrow> b < a
    | tokLt \<Rightarrow> a < b
    | tokGe \<Rightarrow> b \<le> a
    | tokLe \<Rightarrow> a \<le> b
    | _ \<Rightarrow> False)"

text \<open>The errors of the expression language, one constructor per \<open>fmt.Errorf\<close> of expr.go, with
  its arguments.\<close>

datatype expr_error =
    UnexpectedChar char nat
  | UnterminatedString nat
  | InvalidNumber string
  | UnexpectedToken string
  | MissingParen
  | UnknownVariable string
  | ExpectedField
  | Incomparable

definition compare :: "tokenKind \<Rightarrow> any \<Rightarrow> any \<Rightarrow> (expr_error, any) result" where
  "compare op a b =
     (if op = tokEq then Inr (VBool (deepEqual a b))
      else if op = tokNeq then Inr (VBool (\<not> deepEqual a b))
      else case (toFloat a, toFloat b) of
        (Some x, Some y) \<Rightarrow> Inr (VBool (orderFloat op x y))
      | _ \<Rightarrow> (case (a, b) of
          (VString s, VString t) \<Rightarrow> Inr (VBool (orderString op s t))
        | _ \<Rightarrow> Inl Incomparable))"

section \<open>Lemmas\<close>

lemma f64_eq_sym: "f64_eq a b \<longleftrightarrow> f64_eq b a"
  by (auto simp: f64_eq_def split: option.splits)

lemma f64_total: "a \<noteq> NaN \<Longrightarrow> b \<noteq> NaN \<Longrightarrow> f64_lt a b \<or> f64_eq a b \<or> f64_lt b a"
  by (cases a; cases b) (auto simp: f64_lt_def f64_eq_def)

lemma f64_lt_le_False: "f64_lt a b \<Longrightarrow> \<not> f64_le b a"
  by (cases a; cases b) (auto simp: f64_lt_def f64_le_def f64_eq_def split: if_splits)

lemma f64_Fin [simp]:
  "f64_lt (Fin x) (Fin y) \<longleftrightarrow> x < y"
  "f64_eq (Fin x) (Fin y) \<longleftrightarrow> x = y"
  "f64_le (Fin x) (Fin y) \<longleftrightarrow> x \<le> y"
  by (auto simp: f64_lt_def f64_eq_def f64_le_def)

lemma pow2_pos [simp]: "0 < pow2 k"
  by (simp add: pow2_def)

lemma pow2_add: "pow2 (a + b) = pow2 a * pow2 b"
proof -
  have eq: "pow2 k = 2 powi k" for k
    by (auto simp: pow2_def power_int_def field_simps inverse_eq_divide)
  show ?thesis by (simp add: eq power_int_add)
qed

lemma pow2_nat [simp]: "pow2 (int k) = 2 ^ k"
  by (simp add: pow2_def)

lemma ilog2_bounds: "0 < n \<Longrightarrow> 2 ^ ilog2 n \<le> n \<and> n < 2 ^ Suc (ilog2 n)"
proof (induction n rule: ilog2.induct)
  case (1 n)
  show ?case
  proof (cases "n \<le> 1")
    case True
    with 1 show ?thesis by (simp add: ilog2.simps [of n])
  next
    case False
    with "1.IH" have "2 ^ ilog2 (n div 2) \<le> n div 2 \<and> n div 2 < 2 ^ Suc (ilog2 (n div 2))"
      by simp
    with False show ?thesis by (auto simp: ilog2.simps [of n])
  qed
qed

lemma rne_of_int [simp]: "rne (of_int i) = i"
  by (simp add: rne_def)

text \<open>An integer of at most 53 bits is a float64, so the conversion is exact.\<close>

lemma float64_of_int_exact:
  assumes "\<bar>i\<bar> \<le> 2 ^ 53"
  shows "float64_of_int i = Fin (of_int i)"
proof (cases "i = 0")
  case True
  then show ?thesis by (simp add: float64_of_int_def)
next
  case False
  let ?n = "\<bar>i\<bar>"
  from False have n: "0 < ?n" by simp
  let ?k = "ilog2 ?n"
  have b: "2 ^ ?k \<le> ?n" using ilog2_bounds [OF n] by simp
  with assms have "(2::int) ^ ?k \<le> 2 ^ 53" by linarith
  then have k53: "?k \<le> 53" by (rule power_le_imp_le_exp [rotated]) simp
  have "(2::rat) ^ ?k \<le> of_int ?n" using b by (metis of_int_le_iff of_int_numeral of_int_power)
  then have e: "expo64 ?n 1 = int ?k - 52" by (simp add: expo64_def ilog2.simps [of 1] Let_def)
  show ?thesis
  proof (cases "?k \<le> 52")
    case True
    define j where "j = 52 - ?k"
    with True have k: "int ?k - 52 = - int j" by simp
    have "of_int ?n / pow2 (- int j) = (of_int (?n * 2 ^ j) :: rat)"
      by (simp add: pow2_def)
    then have m: "rne (of_int ?n / pow2 (- int j)) = ?n * 2 ^ j"
      by (metis rne_of_int)
    have v: "of_int (?n * 2 ^ j) * pow2 (- int j) = (of_int ?n :: rat)"
      by (simp add: pow2_def)
    have "(of_int ?n :: rat) \<le> 2 ^ 53"
      using assms by (metis of_int_le_iff of_int_numeral of_int_power)
    moreover have "(2::rat) ^ 53 < 2 ^ 1024" by (rule power_strict_increasing) simp_all
    ultimately have big: "\<not> (2::rat) ^ 1024 \<le> of_int ?n" by linarith
    have "round64 (i < 0) ?n 1 = Fin (if i < 0 then - of_int ?n else of_int ?n)"
      unfolding round64_def Let_def e k of_int_1 div_by_1 m v using n big by (simp del: power_numeral)
    with False show ?thesis by (auto simp: float64_of_int_def)
  next
    case F: False
    with k53 have k: "?k = 53" by simp
    with b assms have "?n = 2 ^ 53" by simp
    then have n53: "i = 2 ^ 53 \<or> i = - (2 ^ 53)" by linarith
    have m: "rne (9007199254740992 / 2) = 4503599627370496"
      using rne_of_int [of 4503599627370496] by simp
    from n53 e k m show ?thesis
      by (auto simp: float64_of_int_def round64_def Let_def pow2_def)
  qed
qed

lemma deep_list_refl: "(\<And>x. x \<in> set xs \<Longrightarrow> reflect_DeepEqual x x) \<Longrightarrow> deep_list xs xs"
  by (induction xs) auto

lemma deep_map_iff:
  "deep_map m n \<longleftrightarrow> (\<forall>(k, v) \<in> set m. \<exists>w. glookup n k = Some w \<and> reflect_DeepEqual v w)"
  by (induction m) (auto split: option.splits)

lemma deep_list_iff: "deep_list xs ys \<longleftrightarrow> list_all2 reflect_DeepEqual xs ys"
proof (induction xs arbitrary: ys)
  case Nil
  then show ?case by (cases ys) auto
next
  case (Cons x xs)
  then show ?case by (cases ys) auto
qed

end
