(* ===== verification/Expr_Lexer.thy ===== *)
theory Expr_Lexer
  imports Values
begin

text \<open>
  The scanner of the condition language (\<open>lex\<close>, \<open>isIdentStart\<close>, \<open>isIdentPart\<close> of
  \<open>internal/flow/expr.go\<close>) and its round trip: scanning the printed form of a token sequence
  gives the sequence back.

  \<open>lexStep\<close> is one pass through the \<open>switch\<close> in the loop of \<open>lex\<close>: from the current byte and the
  bytes after it, it gives the token appended (none for white space) and the bytes left.
  \<open>lexFrom\<close> is the loop, with the offset \<open>i\<close> that the error messages report.
\<close>

section \<open>Definitions\<close>

record token =
  tkind :: tokenKind
  ttext :: string
  tnum :: float64

definition mkTok :: "tokenKind \<Rightarrow> string \<Rightarrow> token" where
  "mkTok k s = \<lparr>tkind = k, ttext = s, tnum = Fin 0\<rparr>"

definition numTok :: "tokenKind \<Rightarrow> string \<Rightarrow> float64 \<Rightarrow> token" where
  "numTok k s x = \<lparr>tkind = k, ttext = s, tnum = x\<rparr>"

definition eofTok :: token where
  "eofTok = mkTok tokEOF ''''"

definition isDigit :: "char \<Rightarrow> bool" where
  "isDigit c \<longleftrightarrow> 48 \<le> (of_char c :: nat) \<and> (of_char c :: nat) \<le> 57"

definition isIdentStart :: "char \<Rightarrow> bool" where
  "isIdentStart c \<longleftrightarrow> c = CHR ''_''
     \<or> 97 \<le> (of_char c :: nat) \<and> (of_char c :: nat) \<le> 122
     \<or> 65 \<le> (of_char c :: nat) \<and> (of_char c :: nat) \<le> 90"

definition isIdentPart :: "char \<Rightarrow> bool" where
  "isIdentPart c \<longleftrightarrow> isIdentStart c \<or> isDigit c"

text \<open>\<open>strconv.ParseFloat(s, 64)\<close> on what the scanner passes to it: an optional minus sign, then digits
  and dots. A second dot is a syntax error and a value that rounds to an infinity is a
  range error; both are \<open>None\<close>.\<close>

definition digit_val :: "char \<Rightarrow> int" where
  "digit_val c = of_char c - 48"

definition digits_val :: "string \<Rightarrow> int" where
  "digits_val s = foldl (\<lambda>n c. 10 * n + digit_val c) 0 s"

definition ParseFloat :: "string \<Rightarrow> float64 option" where
  "ParseFloat s =
     (let neg = (take 1 s = ''-''); body = (if neg then drop 1 s else s);
          ip = takeWhile isDigit body; rest = dropWhile isDigit body; fp = drop 1 rest
      in if (rest = [] \<or> hd rest = CHR ''.'') \<and> list_all isDigit fp \<and> ip @ fp \<noteq> [] then
           (case round64 neg (digits_val (ip @ fp)) (10 ^ length fp) of
              Inf _ \<Rightarrow> None
            | x \<Rightarrow> Some x)
         else None)"

text \<open>The body of a string literal after its opening quote: the text and what follows the closing
  quote; \<open>None\<close> when the input ends first.\<close>

fun scanString :: "char \<Rightarrow> string \<Rightarrow> (string \<times> string) option" where
  "scanString q [] = None"
| "scanString q (c # cs) =
     (if c = q then Some ([], cs)
      else if c = CHR 0x5C then
        (case cs of
           [] \<Rightarrow> None
         | d # ds \<Rightarrow> map_option (apfst (Cons d)) (scanString q ds))
      else map_option (apfst (Cons c)) (scanString q cs))"

definition wordTok :: "string \<Rightarrow> token" where
  "wordTok w =
     (if w = ''true'' then numTok tokBool w (Fin 1)
      else if w = ''false'' then numTok tokBool w (Fin 0)
      else if w = ''null'' then mkTok tokNull w
      else mkTok tokIdent w)"

text \<open>The operator cases of the \<open>switch\<close>; \<open>None\<close> when the byte starts no operator.\<close>

definition lexOperator :: "nat \<Rightarrow> char \<Rightarrow> string \<Rightarrow> (expr_error, token option \<times> string) result option" where
  "lexOperator i c cs =
     (if c = CHR ''&'' then
        Some (if take 1 cs = ''&'' then Inr (Some (mkTok tokAnd ''&&''), drop 1 cs)
              else Inl (UnexpectedChar c i))
      else if c = CHR ''|'' then
        Some (if take 1 cs = ''|'' then Inr (Some (mkTok tokOr ''||''), drop 1 cs)
              else Inl (UnexpectedChar c i))
      else if c = CHR ''='' then
        Some (if take 1 cs = ''='' then Inr (Some (mkTok tokEq ''==''), drop 1 cs)
              else Inl (UnexpectedChar c i))
      else if c = CHR ''!'' then
        Some (if take 1 cs = ''='' then Inr (Some (mkTok tokNeq ''!=''), drop 1 cs)
              else Inr (Some (mkTok tokNot ''!''), cs))
      else if c = CHR ''>'' then
        Some (if take 1 cs = ''='' then Inr (Some (mkTok tokGe ''>=''), drop 1 cs)
              else Inr (Some (mkTok tokGt ''>''), cs))
      else if c = CHR ''<'' then
        Some (if take 1 cs = ''='' then Inr (Some (mkTok tokLe ''<=''), drop 1 cs)
              else Inr (Some (mkTok tokLt ''<''), cs))
      else if c = CHR ''.'' then Some (Inr (Some (mkTok tokDot ''.''), cs))
      else if c = CHR ''('' then Some (Inr (Some (mkTok tokLParen ''(''), cs))
      else if c = CHR '')'' then Some (Inr (Some (mkTok tokRParen '')''), cs))
      else None)"

text \<open>The remaining cases: string literals, numbers, words, and the default error.\<close>

definition numeralPart :: "char \<Rightarrow> bool" where
  "numeralPart d \<longleftrightarrow> isDigit d \<or> d = CHR ''.''"

definition lexLiteral :: "nat \<Rightarrow> char \<Rightarrow> string \<Rightarrow> (expr_error, token option \<times> string) result" where
  "lexLiteral i c cs =
     (if c = CHR 0x22 \<or> c = CHR 0x27 then
        (case scanString c cs of
           None \<Rightarrow> Inl (UnterminatedString i)
         | Some (s, rest) \<Rightarrow> Inr (Some (mkTok tokString s), rest))
      else if isDigit c \<or> c = CHR ''-'' \<and> cs \<noteq> [] \<and> isDigit (hd cs) then
        (case ParseFloat (c # takeWhile numeralPart cs) of
           None \<Rightarrow> Inl (InvalidNumber (c # takeWhile numeralPart cs))
         | Some x \<Rightarrow> Inr (Some (numTok tokNumber (c # takeWhile numeralPart cs) x),
                        dropWhile numeralPart cs))
      else if isIdentStart c then
        Inr (Some (wordTok (c # takeWhile isIdentPart cs)), dropWhile isIdentPart cs)
      else Inl (UnexpectedChar c i))"

definition isSpace :: "char \<Rightarrow> bool" where
  "isSpace c \<longleftrightarrow> c = CHR '' '' \<or> c = CHR 0x09 \<or> c = CHR 0x0A \<or> c = CHR 0x0D"

definition lexStep :: "nat \<Rightarrow> char \<Rightarrow> string \<Rightarrow> (expr_error, token option \<times> string) result" where
  "lexStep i c cs =
     (if isSpace c then Inr (None, cs)
      else case lexOperator i c cs of
        Some r \<Rightarrow> r
      | None \<Rightarrow> lexLiteral i c cs)"

lemma scanString_shorter: "scanString q cs = Some (s, rest) \<Longrightarrow> length rest < length cs"
  by (induction q cs arbitrary: s rest rule: scanString.induct)
    (fastforce split: if_splits list.splits)+

lemma lexOperator_shorter: "lexOperator i c cs = Some (Inr (t, rest)) \<Longrightarrow> length rest \<le> length cs"
  by (simp add: lexOperator_def split: if_split_asm) auto

lemma lexLiteral_shorter: "lexLiteral i c cs = Inr (t, rest) \<Longrightarrow> length rest \<le> length cs"
  by (auto simp: lexLiteral_def length_dropWhile_le split: if_split_asm option.split_asm
      dest!: scanString_shorter)

lemma lexStep_shorter: "lexStep i c cs = Inr (t, rest) \<Longrightarrow> length rest \<le> length cs"
  by (auto simp: lexStep_def split: if_split_asm option.split_asm
      dest: lexOperator_shorter lexLiteral_shorter)

function lexFrom :: "nat \<Rightarrow> string \<Rightarrow> (expr_error, token list) result" where
  "lexFrom i [] = Inr [eofTok]"
| "lexFrom i (c # cs) =
     bind_res (lexStep i c cs) (\<lambda>(t, rest).
       map_res (\<lambda>ts. (case t of None \<Rightarrow> ts | Some x \<Rightarrow> x # ts))
         (lexFrom (i + (Suc (length cs) - length rest)) rest))"
  by pat_completeness auto
termination
  by (relation "measure (\<lambda>(i, s). length s)") (auto dest: lexStep_shorter)

definition lex :: "string \<Rightarrow> (expr_error, token list) result" where
  "lex src = lexFrom 0 src"

section \<open>Printing tokens\<close>

definition escape_char :: "char \<Rightarrow> string" where
  "escape_char c = (if c = CHR 0x22 \<or> c = CHR 0x5C then [CHR 0x5C, c] else [c])"

definition quoteText :: "string \<Rightarrow> string" where
  "quoteText s = CHR 0x22 # concat (map escape_char s) @ [CHR 0x22]"

definition showTok :: "token \<Rightarrow> string" where
  "showTok t = (if tkind t = tokString then quoteText (ttext t) else ttext t)"

definition showToks :: "token list \<Rightarrow> string" where
  "showToks ts = concat (map (\<lambda>t. showTok t @ '' '') ts)"

text \<open>The tokens the scanner can produce: fixed spellings, identifiers that are not reserved,
  numerals that parse, and any string.\<close>

definition validIdent :: "string \<Rightarrow> bool" where
  "validIdent w \<longleftrightarrow> w \<noteq> [] \<and> isIdentStart (hd w) \<and> list_all isIdentPart w
     \<and> w \<notin> {''true'', ''false'', ''null''}"

definition validNumeral :: "string \<Rightarrow> bool" where
  "validNumeral w \<longleftrightarrow>
     (let b = (if take 1 w = ''-'' then drop 1 w else w) in
        b \<noteq> [] \<and> isDigit (hd b) \<and> list_all numeralPart b)
     \<and> ParseFloat w \<noteq> None"

fun tokSpelling :: "tokenKind \<Rightarrow> string option" where
  "tokSpelling tokAnd = Some ''&&''"
| "tokSpelling tokOr = Some ''||''"
| "tokSpelling tokNot = Some ''!''"
| "tokSpelling tokEq = Some ''==''"
| "tokSpelling tokNeq = Some ''!=''"
| "tokSpelling tokGt = Some ''>''"
| "tokSpelling tokLt = Some ''<''"
| "tokSpelling tokGe = Some ''>=''"
| "tokSpelling tokLe = Some ''<=''"
| "tokSpelling tokDot = Some ''.''"
| "tokSpelling tokLParen = Some ''(''"
| "tokSpelling tokRParen = Some '')''"
| "tokSpelling _ = None"

definition printable :: "token \<Rightarrow> bool" where
  "printable t = (case tkind t of
      tokEOF \<Rightarrow> False
    | tokIdent \<Rightarrow> validIdent (ttext t) \<and> tnum t = Fin 0
    | tokString \<Rightarrow> tnum t = Fin 0
    | tokNumber \<Rightarrow> validNumeral (ttext t) \<and> ParseFloat (ttext t) = Some (tnum t)
    | tokBool \<Rightarrow> (ttext t = ''true'' \<and> tnum t = Fin 1 \<or> ttext t = ''false'' \<and> tnum t = Fin 0)
    | tokNull \<Rightarrow> ttext t = ''null'' \<and> tnum t = Fin 0
    | k \<Rightarrow> tokSpelling k = Some (ttext t) \<and> tnum t = Fin 0)"

section \<open>Round trip\<close>

lemma scanString_quote: "scanString (CHR 0x22) (concat (map escape_char s) @ CHR 0x22 # rest) = Some (s, rest)"
  by (induction s) (auto simp: escape_char_def)

lemma isIdentStart_plain:
  assumes "isIdentStart c"
  shows "\<not> isSpace c" "lexOperator i c cs = None" "c \<noteq> CHR 0x22" "c \<noteq> CHR 0x27"
    "c \<noteq> CHR ''-''" "\<not> isDigit c"
proof -
  have n: "c \<noteq> d" if "\<not> isIdentStart d" for d using that assms by auto
  show "lexOperator i c cs = None"
    by (simp add: lexOperator_def n [unfolded isIdentStart_def])
  show "\<not> isSpace c" by (simp add: isSpace_def n [unfolded isIdentStart_def])
  show "c \<noteq> CHR 0x22" "c \<noteq> CHR 0x27" "c \<noteq> CHR ''-''" by (simp_all add: n [unfolded isIdentStart_def])
  show "\<not> isDigit c" using assms by (auto simp: isIdentStart_def isDigit_def)
qed

lemma isDigit_plain:
  assumes "isDigit c \<or> c = CHR ''-''"
  shows "\<not> isSpace c" "lexOperator i c cs = None" "c \<noteq> CHR 0x22" "c \<noteq> CHR 0x27"
proof -
  have n: "c \<noteq> d" if "\<not> isDigit d" "d \<noteq> CHR ''-''" for d using that assms by auto
  show "lexOperator i c cs = None" by (simp add: lexOperator_def n [unfolded isDigit_def])
  show "\<not> isSpace c" by (simp add: isSpace_def n [unfolded isDigit_def])
  show "c \<noteq> CHR 0x22" "c \<noteq> CHR 0x27" by (simp_all add: n [unfolded isDigit_def])
qed

lemma not_part_space: "\<not> isIdentPart CHR '' ''" "\<not> numeralPart CHR '' ''"
  by (simp_all add: isIdentPart_def isIdentStart_def isDigit_def numeralPart_def)

lemma takeWhile_part: "list_all P xs \<Longrightarrow> \<not> P y \<Longrightarrow>
    takeWhile P (xs @ y # ys) = xs \<and> dropWhile P (xs @ y # ys) = y # ys"
  by (simp add: list_all_iff takeWhile_append dropWhile_append)

lemma lexStep_word:
  assumes "isIdentStart c" and "list_all isIdentPart w"
  shows "lexStep i c (w @ CHR '' '' # rest) = Inr (Some (wordTok (c # w)), CHR '' '' # rest)"
  using takeWhile_part [OF assms(2) not_part_space(1), of rest] isIdentStart_plain [OF assms(1)] assms(1)
  by (simp add: lexStep_def lexLiteral_def)

lemma lexStep_numeral:
  assumes "isDigit c \<or> c = CHR ''-'' \<and> w \<noteq> [] \<and> isDigit (hd w)"
    and "list_all numeralPart w" and "ParseFloat (c # w) = Some x"
  shows "lexStep i c (w @ CHR '' '' # rest) = Inr (Some (numTok tokNumber (c # w) x), CHR '' '' # rest)"
proof -
  from assms(1) have d: "isDigit c \<or> c = CHR ''-''" by blast
  have "w \<noteq> [] \<Longrightarrow> hd (w @ CHR '' '' # rest) = hd w" by simp
  with takeWhile_part [OF assms(2) not_part_space(2), of rest] isDigit_plain [OF d] assms(1,3)
  show ?thesis by (auto simp: lexStep_def lexLiteral_def)
qed

lemma lexStep_string:
  "lexStep i (CHR 0x22) (concat (map escape_char s) @ CHR 0x22 # rest) = Inr (Some (mkTok tokString s), rest)"
  by (simp add: lexStep_def isSpace_def lexOperator_def lexLiteral_def scanString_quote)

lemma lexStep_operators:
  "lexStep i CHR ''&'' (CHR ''&'' # r) = Inr (Some (mkTok tokAnd ''&&''), r)"
  "lexStep i CHR ''|'' (CHR ''|'' # r) = Inr (Some (mkTok tokOr ''||''), r)"
  "lexStep i CHR ''='' (CHR ''='' # r) = Inr (Some (mkTok tokEq ''==''), r)"
  "lexStep i CHR ''!'' (CHR ''='' # r) = Inr (Some (mkTok tokNeq ''!=''), r)"
  "lexStep i CHR ''>'' (CHR ''='' # r) = Inr (Some (mkTok tokGe ''>=''), r)"
  "lexStep i CHR ''<'' (CHR ''='' # r) = Inr (Some (mkTok tokLe ''<=''), r)"
  "lexStep i CHR ''!'' (CHR '' '' # r) = Inr (Some (mkTok tokNot ''!''), CHR '' '' # r)"
  "lexStep i CHR ''>'' (CHR '' '' # r) = Inr (Some (mkTok tokGt ''>''), CHR '' '' # r)"
  "lexStep i CHR ''<'' (CHR '' '' # r) = Inr (Some (mkTok tokLt ''<''), CHR '' '' # r)"
  "lexStep i CHR ''.'' (CHR '' '' # r) = Inr (Some (mkTok tokDot ''.''), CHR '' '' # r)"
  "lexStep i CHR ''('' (CHR '' '' # r) = Inr (Some (mkTok tokLParen ''(''), CHR '' '' # r)"
  "lexStep i CHR '')'' (CHR '' '' # r) = Inr (Some (mkTok tokRParen '')''), CHR '' '' # r)"
  by (simp_all add: lexStep_def isSpace_def lexOperator_def)

lemma lexStep_spelling:
  assumes "tokSpelling k = Some (c # cs)"
  shows "lexStep i c (cs @ CHR '' '' # rest) = Inr (Some (mkTok k (c # cs)), CHR '' '' # rest)"
  using assms by (cases k) (auto simp: lexStep_operators)

lemma tokSpelling_nonempty: "tokSpelling k \<noteq> Some []"
  by (cases k) simp_all

lemma numeral_cases:
  assumes "validNumeral w"
  obtains c cs where "w = c # cs" and "isDigit c \<or> c = CHR ''-'' \<and> cs \<noteq> [] \<and> isDigit (hd cs)"
    and "list_all numeralPart cs"
  using assms by (cases w) (auto simp: validNumeral_def Let_def split: if_splits)

lemma printable_simps:
  "printable \<lparr>tkind = tokIdent, ttext = s, tnum = x\<rparr> \<longleftrightarrow> validIdent s \<and> x = Fin 0"
  "printable \<lparr>tkind = tokString, ttext = s, tnum = x\<rparr> \<longleftrightarrow> x = Fin 0"
  "printable \<lparr>tkind = tokNumber, ttext = s, tnum = x\<rparr> \<longleftrightarrow> validNumeral s \<and> ParseFloat s = Some x"
  "printable \<lparr>tkind = tokBool, ttext = s, tnum = x\<rparr> \<longleftrightarrow>
     s = ''true'' \<and> x = Fin 1 \<or> s = ''false'' \<and> x = Fin 0"
  "printable \<lparr>tkind = tokNull, ttext = s, tnum = x\<rparr> \<longleftrightarrow> s = ''null'' \<and> x = Fin 0"
  "\<not> printable \<lparr>tkind = tokEOF, ttext = s, tnum = x\<rparr>"
  by (simp_all only: printable_def token.simps tokenKind.case) simp

lemma printable_spelling:
  "tokSpelling k = Some s \<Longrightarrow> printable \<lparr>tkind = k, ttext = s', tnum = x\<rparr> \<longleftrightarrow> s' = s \<and> x = Fin 0"
  by (cases k) (auto simp only: printable_def token.simps tokenKind.case tokSpelling.simps option.inject option.distinct)

lemma lexStep_keyword:
  assumes "w \<in> {''true'', ''false'', ''null''}"
  shows "\<exists>c cs. w = c # cs \<and> lexStep i c (cs @ CHR '' '' # rest) = Inr (Some (wordTok w), CHR '' '' # rest)"
proof -
  have "w \<noteq> []" "isIdentStart (hd w)" "list_all isIdentPart (tl w)"
    using assms by (auto simp: isIdentPart_def isIdentStart_def)
  with lexStep_word [of "hd w" "tl w" i rest] show ?thesis by (cases w) auto
qed

text \<open>One printed token is scanned back as itself, leaving its separator.\<close>

lemma lexStep_showTok:
  assumes "printable t"
  shows "\<exists>c cs. showTok t = c # cs \<and>
    lexStep i c (cs @ CHR '' '' # rest) = Inr (Some t, CHR '' '' # rest)"
proof -
  obtain k s x where t: "t = \<lparr>tkind = k, ttext = s, tnum = x\<rparr>" by (cases t)
  show ?thesis
  proof (cases "tokSpelling k")
    case (Some s')
    with assms t have s': "s' = s" "x = Fin 0" by (simp_all add: printable_spelling)
    obtain c cs where c: "s = c # cs" using Some s' tokSpelling_nonempty by (cases s) auto
    have "k \<noteq> tokString" using Some by auto
    with lexStep_spelling [of k c cs i rest] Some s' c t show ?thesis
      by (simp add: showTok_def mkTok_def)
  next
    case None
    then consider "k = tokIdent" | "k = tokString" | "k = tokNumber" | "k = tokBool" | "k = tokNull" | "k = tokEOF"
      by (cases k) simp_all
    then show ?thesis
    proof cases
      case 1
      with t assms obtain c w where "s = c # w" and "isIdentStart c" and "list_all isIdentPart w"
        and "wordTok s = t"
        by (cases s) (auto simp: printable_simps validIdent_def wordTok_def mkTok_def)
      with lexStep_word [of c w] 1 t show ?thesis by (simp add: showTok_def)
    next
      case 2
      with t assms have "t = mkTok tokString s" by (simp add: printable_simps mkTok_def)
      with 2 t lexStep_string [of i s "CHR '' '' # rest"] show ?thesis
        by (simp add: showTok_def quoteText_def)
    next
      case 3
      with t assms have v: "validNumeral s" and p: "ParseFloat s = Some x"
        by (simp_all add: printable_simps)
      from v obtain c cs where "s = c # cs" and "isDigit c \<or> c = CHR ''-'' \<and> cs \<noteq> [] \<and> isDigit (hd cs)"
        and "list_all numeralPart cs" by (rule numeral_cases)
      with lexStep_numeral [of c cs x i rest] p 3 t show ?thesis
        by (simp add: showTok_def numTok_def)
    next
      case 4
      with t assms have "wordTok s = t" "s \<in> {''true'', ''false'', ''null''}"
        by (auto simp: printable_simps wordTok_def numTok_def)
      with lexStep_keyword [of s i rest] 4 t show ?thesis by (simp add: showTok_def)
    next
      case 5
      with t assms have "wordTok s = t" "s \<in> {''true'', ''false'', ''null''}"
        by (auto simp: printable_simps wordTok_def mkTok_def)
      with lexStep_keyword [of s i rest] 5 t show ?thesis by (simp add: showTok_def)
    next
      case 6
      with t assms show ?thesis by (simp add: printable_simps)
    qed
  qed
qed

lemma lexFrom_space: "lexFrom i (CHR '' '' # rest) = lexFrom (Suc i) rest"
  by (cases "lexFrom (Suc i) rest") (simp_all add: lexStep_def isSpace_def)

lemma lexFrom_showTok:
  assumes "printable t"
  shows "\<exists>j. lexFrom i (showTok t @ CHR '' '' # rest) = map_res (Cons t) (lexFrom j rest)"
proof -
  from lexStep_showTok [OF assms, of i rest] obtain c cs where c: "showTok t = c # cs"
    and step: "lexStep i c (cs @ CHR '' '' # rest) = Inr (Some t, CHR '' '' # rest)" by blast
  have "lexFrom i (c # cs @ CHR '' '' # rest) = map_res (Cons t)
     (lexFrom (i + (Suc (length (cs @ CHR '' '' # rest)) - length (CHR '' '' # rest))) (CHR '' '' # rest))"
    unfolding lexFrom.simps(2) step by simp
  then show ?thesis unfolding lexFrom_space c by auto
qed

lemma lexFrom_showToks:
  "list_all printable ts \<Longrightarrow> lexFrom i (showToks ts) = Inr (ts @ [eofTok])"
proof (induction ts arbitrary: i)
  case Nil
  then show ?case by (simp add: showToks_def)
next
  case (Cons t ts)
  from lexFrom_showTok [of t i "showToks ts"] Cons.prems obtain j where
    "lexFrom i (showTok t @ CHR '' '' # showToks ts) = map_res (Cons t) (lexFrom j (showToks ts))" by auto
  with Cons show ?case by (simp add: showToks_def)
qed

end
