(* ===== verification/Expr_Parser.thy ===== *)
theory Expr_Parser
  imports Expr_Lexer
begin

text \<open>
  The evaluator of the condition language (\<open>evalExpression\<close> and the methods of \<open>parser\<close> in
  \<open>internal/flow/expr.go\<close>).

  The parser keeps a token slice and a position; here it is the list of tokens from that
  position on. Reading at the end of the slice is an index panic in Go: \<open>IndexPanic\<close>. The
  methods \<open>skipOr/skipAnd/skipUnary/skipPrimary\<close> pass over operands that short-circuiting leaves
  unevaluated; they return \<open>None\<close> for the panic.

  The recursive descent is bounded by fuel. \<open>evalFuel\<close> is six units per token and five more:
  between two tokens consumed the descent makes at most six calls. \<open>OutOfFuel\<close> is never
  the result of \<open>evalExpression\<close> (\<open>parse_fuel_enough\<close>).
\<close>

section \<open>The parser\<close>

datatype eval_fail = ExprErr expr_error | IndexPanic | OutOfFuel

type_synonym vars = "(string, any) gomap"
type_synonym pres = "(eval_fail, any \<times> token list) result"

definition isComparison :: "tokenKind \<Rightarrow> bool" where
  "isComparison k \<longleftrightarrow> k \<in> {tokEq, tokNeq, tokGt, tokLt, tokGe, tokLe}"

text \<open>The loop of \<open>skipPrimary\<close> at a positive \<open>depth\<close>.\<close>

fun skipParen :: "nat \<Rightarrow> token list \<Rightarrow> token list option" where
  "skipParen 0 ts = Some ts"
| "skipParen (Suc d) [] = None"
| "skipParen (Suc d) (t # ts) =
     (if tkind t = tokEOF then Some ts
      else if tkind t = tokLParen then skipParen (Suc (Suc d)) ts
      else if tkind t = tokRParen then skipParen d ts
      else skipParen (Suc d) ts)"

fun skipDots :: "token list \<Rightarrow> token list option" where
  "skipDots [] = None"
| "skipDots (t # ts) =
     (if tkind t = tokDot then (case ts of [] \<Rightarrow> None | f # us \<Rightarrow> skipDots us)
      else Some (t # ts))"

definition skipPrimary :: "token list \<Rightarrow> token list option" where
  "skipPrimary ts = (case ts of
      [] \<Rightarrow> None
    | t # us \<Rightarrow>
        (if tkind t = tokLParen then skipParen 1 us
         else if tkind t = tokEOF then Some ts
         else skipDots us))"

fun skipUnary :: "token list \<Rightarrow> token list option" where
  "skipUnary [] = None"
| "skipUnary (t # ts) =
     (if tkind t = tokNot then skipUnary ts
      else case skipPrimary (t # ts) of
        None \<Rightarrow> None
      | Some [] \<Rightarrow> None
      | Some (u # us) \<Rightarrow> (if isComparison (tkind u) then skipPrimary us else Some (u # us)))"

lemma skipParen_length: "skipParen d ts = Some us \<Longrightarrow> length us \<le> length ts"
  by (induction d ts rule: skipParen.induct) (auto split: if_splits)

lemma skipDots_length: "skipDots ts = Some us \<Longrightarrow> length us \<le> length ts"
  by (induction ts rule: skipDots.induct) (auto split: if_splits list.splits)

lemma skipPrimary_length: "skipPrimary ts = Some us \<Longrightarrow> length us \<le> length ts"
  by (auto simp: skipPrimary_def split: list.splits if_splits dest: skipParen_length skipDots_length)

lemma skipUnary_length: "skipUnary ts = Some us \<Longrightarrow> length us \<le> length ts"
proof (induction ts rule: skipUnary.induct)
  case (2 t ts)
  show ?case
  proof (cases "tkind t = tokNot")
    case True
    with 2 show ?thesis by simp
  next
    case False
    with "2.prems" obtain u vs where u: "skipPrimary (t # ts) = Some (u # vs)"
      and us: "us = u # vs \<or> skipPrimary vs = Some us"
      by (auto split: option.splits list.splits if_splits)
    from skipPrimary_length [OF u] us show ?thesis by (auto dest: skipPrimary_length)
  qed
qed simp

text \<open>The loops \<open>for p.peek().kind == tokAnd\<close> of \<open>skipAnd\<close> and \<open>parseAnd\<close>, then of \<open>parseOr\<close>.\<close>

function skipAnds :: "token list \<Rightarrow> token list option" where
  "skipAnds [] = None"
| "skipAnds (t # ts) =
     (if tkind t = tokAnd then Option.bind (skipUnary ts) skipAnds else Some (t # ts))"
  by pat_completeness auto
termination
  by (relation "measure length") (auto dest: skipUnary_length)

definition skipAnd :: "token list \<Rightarrow> token list option" where
  "skipAnd ts = Option.bind (skipUnary ts) skipAnds"

lemma skipAnds_length: "skipAnds ts = Some us \<Longrightarrow> length us \<le> length ts"
proof (induction ts arbitrary: us rule: skipAnds.induct)
  case (2 t ts)
  then show ?case by (fastforce split: if_splits bind_splits dest: skipUnary_length)
qed simp

lemma skipAnd_length: "skipAnd ts = Some us \<Longrightarrow> length us \<le> length ts"
  by (fastforce simp: skipAnd_def split: bind_splits dest: skipUnary_length skipAnds_length)

function skipOrs :: "token list \<Rightarrow> token list option" where
  "skipOrs [] = None"
| "skipOrs (t # ts) =
     (if tkind t = tokOr then Option.bind (skipAnd ts) skipOrs else Some (t # ts))"
  by pat_completeness auto
termination
  by (relation "measure length") (auto dest: skipAnd_length)

fun fieldLoop :: "any \<Rightarrow> token list \<Rightarrow> pres" where
  "fieldLoop v [] = Inl IndexPanic"
| "fieldLoop v (t # ts) =
     (if tkind t = tokDot then
        (case ts of
           [] \<Rightarrow> Inl IndexPanic
         | f # us \<Rightarrow>
             (if tkind f \<noteq> tokIdent then Inl (ExprErr ExpectedField)
              else fieldLoop (field v (ttext f)) us))
      else Inr (v, t # ts))"

definition parseFieldAccess :: "vars \<Rightarrow> string \<Rightarrow> token list \<Rightarrow> pres" where
  "parseFieldAccess vs rt ts = (case glookup vs rt of
      None \<Rightarrow> Inl (ExprErr (UnknownVariable rt))
    | Some v \<Rightarrow> fieldLoop v ts)"

definition lift_expr :: "(expr_error, 'a) result \<Rightarrow> (eval_fail, 'a) result" where
  "lift_expr r = (case r of Inl e \<Rightarrow> Inl (ExprErr e) | Inr v \<Rightarrow> Inr v)"

definition of_skip :: "any \<Rightarrow> token list option \<Rightarrow> pres" where
  "of_skip v r = (case r of None \<Rightarrow> Inl IndexPanic | Some ts \<Rightarrow> Inr (v, ts))"

text \<open>The cases of \<open>parsePrimary\<close> other than the parenthesis, and what follows the inner expression of
  a parenthesis.\<close>

definition primaryAtom :: "vars \<Rightarrow> token \<Rightarrow> token list \<Rightarrow> pres" where
  "primaryAtom vs t us = (case tkind t of
      tokString \<Rightarrow> Inr (VString (ttext t), us)
    | tokNumber \<Rightarrow> Inr (VFloat (tnum t), us)
    | tokBool \<Rightarrow> Inr (VBool (f64_eq (tnum t) (Fin 1)), us)
    | tokNull \<Rightarrow> Inr (VNil, us)
    | tokIdent \<Rightarrow> parseFieldAccess vs (ttext t) us
    | _ \<Rightarrow> Inl (ExprErr (UnexpectedToken (ttext t))))"

fun closeParen :: "any \<times> token list \<Rightarrow> pres" where
  "closeParen (v, []) = Inl IndexPanic"
| "closeParen (v, w # xs) =
     (if tkind w \<noteq> tokRParen then Inl (ExprErr MissingParen) else Inr (v, xs))"

definition applyCompare :: "tokenKind \<Rightarrow> any \<Rightarrow> any \<times> token list \<Rightarrow> pres" where
  "applyCompare k left = (\<lambda>(right, xs). map_res (\<lambda>v. (v, xs)) (lift_expr (compare k left right)))"

definition applyNot :: "any \<times> token list \<Rightarrow> pres" where
  "applyNot = (\<lambda>(v, ws). Inr (VBool (\<not> truthy v), ws))"

function parseOr :: "nat \<Rightarrow> vars \<Rightarrow> token list \<Rightarrow> pres"
  and orLoop :: "nat \<Rightarrow> vars \<Rightarrow> any \<Rightarrow> token list \<Rightarrow> pres"
  and parseAnd :: "nat \<Rightarrow> vars \<Rightarrow> token list \<Rightarrow> pres"
  and andLoop :: "nat \<Rightarrow> vars \<Rightarrow> any \<Rightarrow> token list \<Rightarrow> pres"
  and parseUnary :: "nat \<Rightarrow> vars \<Rightarrow> token list \<Rightarrow> pres"
  and parseComparison :: "nat \<Rightarrow> vars \<Rightarrow> token list \<Rightarrow> pres"
  and parsePrimary :: "nat \<Rightarrow> vars \<Rightarrow> token list \<Rightarrow> pres" where
  "parseOr 0 vs ts = Inl OutOfFuel"
| "parseOr (Suc n) vs ts = bind_res (parseAnd n vs ts) (\<lambda>(left, us). orLoop n vs left us)"
| "orLoop 0 vs left ts = Inl OutOfFuel"
| "orLoop (Suc n) vs left ts = (case ts of
      [] \<Rightarrow> Inl IndexPanic
    | t # us \<Rightarrow>
        (if tkind t = tokOr then
           (if truthy left then of_skip left (skipOrs ts)
            else bind_res (parseAnd n vs us) (\<lambda>(right, ws). orLoop n vs right ws))
         else Inr (left, ts)))"
| "parseAnd 0 vs ts = Inl OutOfFuel"
| "parseAnd (Suc n) vs ts = bind_res (parseUnary n vs ts) (\<lambda>(left, us). andLoop n vs left us)"
| "andLoop 0 vs left ts = Inl OutOfFuel"
| "andLoop (Suc n) vs left ts = (case ts of
      [] \<Rightarrow> Inl IndexPanic
    | t # us \<Rightarrow>
        (if tkind t = tokAnd then
           (if \<not> truthy left then of_skip left (skipAnds ts)
            else bind_res (parseUnary n vs us) (\<lambda>(right, ws). andLoop n vs right ws))
         else Inr (left, ts)))"
| "parseUnary 0 vs ts = Inl OutOfFuel"
| "parseUnary (Suc n) vs ts = (case ts of
      [] \<Rightarrow> Inl IndexPanic
    | t # us \<Rightarrow>
        (if tkind t = tokNot then bind_res (parseUnary n vs us) applyNot
         else parseComparison n vs ts))"
| "parseComparison 0 vs ts = Inl OutOfFuel"
| "parseComparison (Suc n) vs ts =
     bind_res (parsePrimary n vs ts) (\<lambda>(left, us). (case us of
        [] \<Rightarrow> Inl IndexPanic
      | u # ws \<Rightarrow>
          (if isComparison (tkind u) then bind_res (parsePrimary n vs ws) (applyCompare (tkind u) left)
           else Inr (left, us))))"
| "parsePrimary 0 vs ts = Inl OutOfFuel"
| "parsePrimary (Suc n) vs ts = (case ts of
      [] \<Rightarrow> Inl IndexPanic
    | t # us \<Rightarrow>
        (if tkind t = tokLParen then bind_res (parseOr n vs us) closeParen
         else primaryAtom vs t us))"
  by pat_completeness auto
termination
  by (relation "measure (\<lambda>x. case x of
       Inl (Inl (n, _)) \<Rightarrow> n | Inl (Inr (Inl (n, _))) \<Rightarrow> n | Inl (Inr (Inr (n, _))) \<Rightarrow> n
     | Inr (Inl (Inl (n, _))) \<Rightarrow> n | Inr (Inl (Inr (n, _))) \<Rightarrow> n
     | Inr (Inr (Inl (n, _))) \<Rightarrow> n | Inr (Inr (Inr (n, _))) \<Rightarrow> n)") simp_all

definition evalFuel :: "token list \<Rightarrow> nat" where
  "evalFuel ts = 6 * length ts + 5"

definition evalTokens :: "token list \<Rightarrow> vars \<Rightarrow> (eval_fail, any) result" where
  "evalTokens ts vs =
     bind_res (parseOr (evalFuel ts) vs ts) (\<lambda>(v, us). (case us of
        [] \<Rightarrow> Inl IndexPanic
      | u # _ \<Rightarrow> (if tkind u \<noteq> tokEOF then Inl (ExprErr (UnexpectedToken (ttext u))) else Inr v)))"

definition evalExpression :: "string \<Rightarrow> vars \<Rightarrow> (eval_fail, any) result" where
  "evalExpression expr vs = bind_res (lift_expr (lex expr)) (\<lambda>ts. evalTokens ts vs)"

section \<open>The fuel is enough\<close>

text \<open>\<open>good r k\<close>: the call \<open>r\<close> did not run out of fuel, and if it succeeded it left at most \<open>k\<close>
  tokens.\<close>

definition good :: "pres \<Rightarrow> nat \<Rightarrow> bool" where
  "good r k = (case r of Inl e \<Rightarrow> e \<noteq> OutOfFuel | Inr (v, us) \<Rightarrow> length us \<le> k)"

lemma good_Inl [simp]: "good (Inl e) k \<longleftrightarrow> e \<noteq> OutOfFuel"
  by (simp add: good_def)

lemma good_Inr [simp]: "good (Inr (v, us)) k \<longleftrightarrow> length us \<le> k"
  by (simp add: good_def)

lemma good_bind:
  assumes "good r k" and "\<And>v us. length us \<le> k \<Longrightarrow> good (f (v, us)) m"
  shows "good (bind_res r f) m"
  using assms by (cases r) auto

lemma good_mono: "good r k \<Longrightarrow> k \<le> m \<Longrightarrow> good r m"
  by (auto simp: good_def split: sum.splits)

lemma skipOrs_length: "skipOrs ts = Some us \<Longrightarrow> length us \<le> length ts"
proof (induction ts arbitrary: us rule: skipOrs.induct)
  case (2 t ts)
  then show ?case by (fastforce split: if_splits bind_splits dest: skipAnd_length)
qed simp

lemma good_of_skip: "(\<And>us. r = Some us \<Longrightarrow> length us \<le> k) \<Longrightarrow> good (of_skip v r) k"
  by (cases r) (auto simp: of_skip_def)

lemma good_fieldLoop: "good (fieldLoop v ts) (length ts)"
proof (induction v ts rule: fieldLoop.induct)
  case (2 v t ts)
  then show ?case by (cases ts) (auto intro: good_mono)
qed simp

lemma good_primaryAtom: "good (primaryAtom vs t us) (length us)"
  by (cases "tkind t") (auto simp: primaryAtom_def parseFieldAccess_def good_fieldLoop split: option.splits)

lemma good_closeParen: "length us \<le> Suc k \<Longrightarrow> good (closeParen (v, us)) k"
  by (cases us) auto

lemma good_applyCompare: "length us \<le> k \<Longrightarrow> good (applyCompare op left (v, us)) k"
  by (auto simp: applyCompare_def lift_expr_def split: sum.splits)

lemma good_applyNot: "length us \<le> k \<Longrightarrow> good (applyNot (v, us)) k"
  by (simp add: applyNot_def)

lemma good_skip_loops:
  "length ts \<le> k \<Longrightarrow> good (of_skip v (skipOrs ts)) k"
  "length ts \<le> k \<Longrightarrow> good (of_skip v (skipAnds ts)) k"
  by (auto intro!: good_of_skip dest: skipOrs_length skipAnds_length)

definition fuelled :: "nat \<Rightarrow> vars \<Rightarrow> bool" where
  "fuelled n vs \<longleftrightarrow>
     (\<forall>ts. 6 * length ts + 4 < n \<longrightarrow> good (parseOr n vs ts) (length ts - 1))
   \<and> (\<forall>ts v. 6 * length ts < n \<longrightarrow> good (orLoop n vs v ts) (length ts))
   \<and> (\<forall>ts. 6 * length ts + 3 < n \<longrightarrow> good (parseAnd n vs ts) (length ts - 1))
   \<and> (\<forall>ts v. 6 * length ts < n \<longrightarrow> good (andLoop n vs v ts) (length ts))
   \<and> (\<forall>ts. 6 * length ts + 2 < n \<longrightarrow> good (parseUnary n vs ts) (length ts - 1))
   \<and> (\<forall>ts. 6 * length ts + 1 < n \<longrightarrow> good (parseComparison n vs ts) (length ts - 1))
   \<and> (\<forall>ts. 6 * length ts < n \<longrightarrow> good (parsePrimary n vs ts) (length ts - 1))"

lemma fuelledD:
  assumes "fuelled n vs"
  shows "6 * length ts + 4 < n \<Longrightarrow> length ts - 1 \<le> k \<Longrightarrow> good (parseOr n vs ts) k"
    and "6 * length ts < n \<Longrightarrow> length ts \<le> k \<Longrightarrow> good (orLoop n vs v ts) k"
    and "6 * length ts + 3 < n \<Longrightarrow> length ts - 1 \<le> k \<Longrightarrow> good (parseAnd n vs ts) k"
    and "6 * length ts < n \<Longrightarrow> length ts \<le> k \<Longrightarrow> good (andLoop n vs v ts) k"
    and "6 * length ts + 2 < n \<Longrightarrow> length ts - 1 \<le> k \<Longrightarrow> good (parseUnary n vs ts) k"
    and "6 * length ts + 1 < n \<Longrightarrow> length ts - 1 \<le> k \<Longrightarrow> good (parseComparison n vs ts) k"
    and "6 * length ts < n \<Longrightarrow> length ts - 1 \<le> k \<Longrightarrow> good (parsePrimary n vs ts) k"
  using assms unfolding fuelled_def by (meson good_mono)+

lemma fuelled_loops:
  assumes "fuelled n vs" and "6 * length ts < Suc n"
  shows "good (orLoop (Suc n) vs v ts) (length ts)" "good (andLoop (Suc n) vs v ts) (length ts)"
proof -
  note IH = fuelledD [OF assms(1)]
  show "good (orLoop (Suc n) vs v ts) (length ts)"
    using assms(2)
    by (cases ts) (auto intro!: good_skip_loops good_bind [OF IH(3) [OF _ order_refl]] IH(2)
        simp del: skipOrs.simps)
  show "good (andLoop (Suc n) vs v ts) (length ts)"
    using assms(2)
    by (cases ts) (auto intro!: good_skip_loops good_bind [OF IH(5) [OF _ order_refl]] IH(4)
        simp del: skipAnds.simps)
qed

lemma fuelled_primary:
  assumes "fuelled n vs" and "6 * length ts < Suc n"
  shows "good (parsePrimary (Suc n) vs ts) (length ts - 1)"
  using assms(2) fuelledD [OF assms(1)]
  by (cases ts) (auto intro!: good_bind [OF fuelledD(1) [OF assms(1) _ order_refl]] good_closeParen good_primaryAtom)

lemma fuelled_comparison:
  assumes "fuelled n vs" and "6 * length ts + 1 < Suc n"
  shows "good (parseComparison (Suc n) vs ts) (length ts - 1)"
proof -
  note IH = fuelledD [OF assms(1)]
  show ?thesis unfolding parseComparison.simps
  proof (rule good_bind [OF IH(7) [OF _ order_refl]])
    fix v :: any and us :: "token list"
    assume "length us \<le> length ts - 1"
    with assms(2) show "good (case (v, us) of (left, us) \<Rightarrow> (case us of
        [] \<Rightarrow> Inl IndexPanic
      | u # ws \<Rightarrow>
          (if isComparison (tkind u) then bind_res (parsePrimary n vs ws) (applyCompare (tkind u) left)
           else Inr (left, us)))) (length ts - 1)"
      by (cases us) (auto intro!: good_bind [OF IH(7) [OF _ order_refl]] good_applyCompare)
  qed (use assms(2) in simp)
qed

lemma fuelled_unary:
  assumes "fuelled n vs" and "6 * length ts + 2 < Suc n"
  shows "good (parseUnary (Suc n) vs ts) (length ts - 1)"
proof -
  note IH = fuelledD [OF assms(1)]
  show ?thesis using assms(2)
    by (cases ts) (auto intro!: good_bind [OF IH(5) [OF _ order_refl]] good_applyNot IH(6))
qed

lemma fuelled_chains:
  assumes "fuelled n vs"
  shows "6 * length ts + 4 < Suc n \<Longrightarrow> good (parseOr (Suc n) vs ts) (length ts - 1)"
    and "6 * length ts + 3 < Suc n \<Longrightarrow> good (parseAnd (Suc n) vs ts) (length ts - 1)"
proof -
  note IH = fuelledD [OF assms(1)]
  show "6 * length ts + 4 < Suc n \<Longrightarrow> good (parseOr (Suc n) vs ts) (length ts - 1)"
    by (auto intro!: good_bind [OF IH(3) [OF _ order_refl]] IH(2))
  show "6 * length ts + 3 < Suc n \<Longrightarrow> good (parseAnd (Suc n) vs ts) (length ts - 1)"
    by (auto intro!: good_bind [OF IH(5) [OF _ order_refl]] IH(4))
qed

lemma parse_fuelled: "fuelled n vs"
proof (induction n)
  case 0
  show ?case by (simp add: fuelled_def)
next
  case (Suc n)
  show ?case
    unfolding fuelled_def
    by (intro conjI allI impI fuelled_loops [OF Suc] fuelled_primary [OF Suc]
        fuelled_comparison [OF Suc] fuelled_unary [OF Suc] fuelled_chains [OF Suc])
qed

lemma parse_fuel_enough: "evalTokens ts vs \<noteq> Inl OutOfFuel"
proof -
  have "good (parseOr (evalFuel ts) vs ts) (length ts)"
    by (rule fuelledD(1) [OF parse_fuelled]) (simp_all add: evalFuel_def)
  then show ?thesis
    unfolding evalTokens_def by (auto simp: bind_res_Inl_iff split: list.splits if_splits)
qed

end
