(* ===== verification/Expr_Semantics.thy ===== *)
theory Expr_Semantics
  imports Expr_Parser
begin

text \<open>
  A reference semantics of the condition language over syntax trees, and the agreement of the
  evaluator of \<open>internal/flow/expr.go\<close> with it: evaluating the printed form of a tree is
  evaluating the tree.
\<close>

section \<open>Reference semantics\<close>

text \<open>Syntax trees of the grammar that the comment at the top of expr.go describes; an \<open>||\<close>-chain
  and an \<open>&&\<close>-chain are right-nested.\<close>

datatype orE = Or1 andE | OrE andE orE
  and andE = And1 unE | AndE unE andE
  and unE = NotE unE | CmpE primE tokenKind primE | ValE primE
  and primE = StrE string | NumE string float64 | BoolE bool | NullE | ParenE orE
    | PathE string "string list"

text \<open>What an expression means: \<open>||\<close> and \<open>&&\<close> return the operand that decides, and evaluate no
  operand after it.\<close>

primrec sem_or :: "vars \<Rightarrow> orE \<Rightarrow> (expr_error, any) result"
  and sem_and :: "vars \<Rightarrow> andE \<Rightarrow> (expr_error, any) result"
  and sem_un :: "vars \<Rightarrow> unE \<Rightarrow> (expr_error, any) result"
  and sem_prim :: "vars \<Rightarrow> primE \<Rightarrow> (expr_error, any) result" where
  "sem_or vs (Or1 a) = sem_and vs a"
| "sem_or vs (OrE a r) = bind_res (sem_and vs a) (\<lambda>v. if truthy v then Inr v else sem_or vs r)"
| "sem_and vs (And1 u) = sem_un vs u"
| "sem_and vs (AndE u r) = bind_res (sem_un vs u) (\<lambda>v. if truthy v then sem_and vs r else Inr v)"
| "sem_un vs (NotE u) = map_res (\<lambda>v. VBool (\<not> truthy v)) (sem_un vs u)"
| "sem_un vs (CmpE p k q) = bind_res (sem_prim vs p) (\<lambda>a. bind_res (sem_prim vs q) (\<lambda>b. compare k a b))"
| "sem_un vs (ValE p) = sem_prim vs p"
| "sem_prim vs (StrE s) = Inr (VString s)"
| "sem_prim vs (NumE s x) = Inr (VFloat x)"
| "sem_prim vs (BoolE b) = Inr (VBool b)"
| "sem_prim vs NullE = Inr VNil"
| "sem_prim vs (ParenE e) = sem_or vs e"
| "sem_prim vs (PathE rt fs) = (case glookup vs rt of
      None \<Rightarrow> Inl (UnknownVariable rt)
    | Some v \<Rightarrow> Inr (foldl field v fs))"

text \<open>The tokens of a tree.\<close>

definition opTok :: "tokenKind \<Rightarrow> token" where
  "opTok k = mkTok k (case tokSpelling k of Some s \<Rightarrow> s | None \<Rightarrow> '''')"

primrec toks_or :: "orE \<Rightarrow> token list"
  and toks_and :: "andE \<Rightarrow> token list"
  and toks_un :: "unE \<Rightarrow> token list"
  and toks_prim :: "primE \<Rightarrow> token list" where
  "toks_or (Or1 a) = toks_and a"
| "toks_or (OrE a r) = toks_and a @ opTok tokOr # toks_or r"
| "toks_and (And1 u) = toks_un u"
| "toks_and (AndE u r) = toks_un u @ opTok tokAnd # toks_and r"
| "toks_un (NotE u) = opTok tokNot # toks_un u"
| "toks_un (CmpE p k q) = toks_prim p @ opTok k # toks_prim q"
| "toks_un (ValE p) = toks_prim p"
| "toks_prim (StrE s) = [mkTok tokString s]"
| "toks_prim (NumE s x) = [numTok tokNumber s x]"
| "toks_prim (BoolE b) = [wordTok (if b then ''true'' else ''false'')]"
| "toks_prim NullE = [wordTok ''null'']"
| "toks_prim (ParenE e) = opTok tokLParen # toks_or e @ [opTok tokRParen]"
| "toks_prim (PathE rt fs) = mkTok tokIdent rt # concat (map (\<lambda>f. [opTok tokDot, mkTok tokIdent f]) fs)"

text \<open>Trees that can be written down: comparison operators compare, identifiers and numerals
  are spelled as the scanner accepts them.\<close>

primrec wf_or :: "orE \<Rightarrow> bool"
  and wf_and :: "andE \<Rightarrow> bool"
  and wf_un :: "unE \<Rightarrow> bool"
  and wf_prim :: "primE \<Rightarrow> bool" where
  "wf_or (Or1 a) = wf_and a"
| "wf_or (OrE a r) = (wf_and a \<and> wf_or r)"
| "wf_and (And1 u) = wf_un u"
| "wf_and (AndE u r) = (wf_un u \<and> wf_and r)"
| "wf_un (NotE u) = wf_un u"
| "wf_un (CmpE p k q) = (wf_prim p \<and> isComparison k \<and> wf_prim q)"
| "wf_un (ValE p) = wf_prim p"
| "wf_prim (StrE s) = True"
| "wf_prim (NumE s x) = (validNumeral s \<and> ParseFloat s = Some x)"
| "wf_prim (BoolE b) = True"
| "wf_prim NullE = True"
| "wf_prim (ParenE e) = wf_or e"
| "wf_prim (PathE rt fs) = (validIdent rt \<and> list_all validIdent fs)"

section \<open>Agreement with the reference semantics\<close>

text \<open>What may follow a phrase: \<open>follow ks rest\<close> says that the next token is one of \<open>ks\<close>.\<close>

definition follow :: "tokenKind list \<Rightarrow> token list \<Rightarrow> bool" where
  "follow ks rest \<longleftrightarrow> rest \<noteq> [] \<and> tkind (hd rest) \<in> set ks"

abbreviation "F_or \<equiv> [tokRParen, tokEOF]"
abbreviation "F_and \<equiv> tokOr # F_or"
abbreviation "F_un \<equiv> tokAnd # F_and"
abbreviation "F_prim \<equiv> tokEq # tokNeq # tokGt # tokLt # tokGe # tokLe # F_un"

lemma tok_kinds [simp]:
  "tkind (mkTok k s) = k" "ttext (mkTok k s) = s" "tkind (numTok k s x) = k" "tnum (numTok k s x) = x"
  "tkind (opTok k) = k" "tkind (wordTok ''true'') = tokBool" "tkind (wordTok ''false'') = tokBool"
  "tkind (wordTok ''null'') = tokNull" "tnum (wordTok ''true'') = Fin 1" "tnum (wordTok ''false'') = Fin 0"
  "tkind eofTok = tokEOF"
  by (simp_all add: mkTok_def numTok_def opTok_def wordTok_def eofTok_def)

lemma follow_Cons [simp]: "follow ks (t # ts) \<longleftrightarrow> tkind t \<in> set ks"
  by (simp add: follow_def)

lemma follow_weaken:
  "follow F_or ts \<Longrightarrow> follow F_and ts" "follow F_and ts \<Longrightarrow> follow F_un ts" "follow F_un ts \<Longrightarrow> follow F_prim ts"
  by (auto simp: follow_def)

lemma skipDots_path:
  "follow F_prim rest \<Longrightarrow>
     skipDots (concat (map (\<lambda>f. [opTok tokDot, mkTok tokIdent f]) fs) @ rest) = Some rest"
  by (induction fs) (cases rest; auto simp: follow_def)+

lemma skipDots_stop: "follow F_prim rest \<Longrightarrow> skipDots rest = Some rest"
  using skipDots_path [of rest "[]"] by simp

lemma skipParen_path:
  "skipParen (Suc d) (concat (map (\<lambda>f. [opTok tokDot, mkTok tokIdent f]) fs) @ rest) = skipParen (Suc d) rest"
  by (induction fs) auto

text \<open>Induction along one level of the grammar.\<close>

lemma unE_induct: "(\<And>u. P u \<Longrightarrow> P (NotE u)) \<Longrightarrow> (\<And>p k q. P (CmpE p k q)) \<Longrightarrow> (\<And>p. P (ValE p)) \<Longrightarrow> P u"
  by (rule unE.induct [where ?P1.0 = "\<lambda>_. True" and ?P2.0 = "\<lambda>_. True" and ?P3.0 = P and ?P4.0 = "\<lambda>_. True"]) (simp_all only: simp_thms)

lemma andE_induct: "(\<And>u. P (And1 u)) \<Longrightarrow> (\<And>u a. P a \<Longrightarrow> P (AndE u a)) \<Longrightarrow> P a"
  by (rule andE.induct [where ?P1.0 = "\<lambda>_. True" and ?P2.0 = P and ?P3.0 = "\<lambda>_. True" and ?P4.0 = "\<lambda>_. True"]) (simp_all only: simp_thms)

lemma orE_induct: "(\<And>a. P (Or1 a)) \<Longrightarrow> (\<And>a e. P e \<Longrightarrow> P (OrE a e)) \<Longrightarrow> P e"
  by (rule orE.induct [where ?P1.0 = P and ?P2.0 = "\<lambda>_. True" and ?P3.0 = "\<lambda>_. True" and ?P4.0 = "\<lambda>_. True"]) (simp_all only: simp_thms)

lemma isComparison_follow: "isComparison k \<Longrightarrow> k \<in> set F_prim"
  by (auto simp: isComparison_def)

lemma isComparison_paren: "isComparison k \<Longrightarrow> k \<noteq> tokEOF \<and> k \<noteq> tokLParen \<and> k \<noteq> tokRParen \<and> k \<noteq> tokNot"
  by (auto simp: isComparison_def)

text \<open>A printed tree is balanced: skipping to the closing parenthesis passes over it.\<close>

lemma skipParen_toks:
  shows "wf_or e \<Longrightarrow> skipParen (Suc d) (toks_or e @ rest) = skipParen (Suc d) rest"
    and "wf_and a \<Longrightarrow> skipParen (Suc d) (toks_and a @ rest) = skipParen (Suc d) rest"
    and "wf_un u \<Longrightarrow> skipParen (Suc d) (toks_un u @ rest) = skipParen (Suc d) rest"
    and "wf_prim p \<Longrightarrow> skipParen (Suc d) (toks_prim p @ rest) = skipParen (Suc d) rest"
  by (induction e and a and u and p arbitrary: d rest and d rest and d rest and d rest)
    (auto simp: skipParen_path dest: isComparison_paren)

lemma skipPrimary_toks: "wf_prim p \<Longrightarrow> follow F_prim rest \<Longrightarrow> skipPrimary (toks_prim p @ rest) = Some rest"
  by (cases p) (auto simp: skipPrimary_def skipParen_toks skipDots_stop skipDots_path)

lemma toks_prim_start: "\<exists>t ts. toks_prim p = t # ts \<and> tkind t \<noteq> tokNot"
  by (cases p) auto

lemma follow_un_stop: "follow F_un (t # ts) \<Longrightarrow> \<not> isComparison (tkind t)"
  by (auto simp: isComparison_def)

lemma skipUnary_primary:
  assumes "wf_prim p" "follow F_prim (t # ts)"
  shows "skipUnary (toks_prim p @ t # ts) = (if isComparison (tkind t) then skipPrimary ts else Some (t # ts))"
proof -
  obtain u us where u: "toks_prim p = u # us" "tkind u \<noteq> tokNot" using toks_prim_start by blast
  with skipPrimary_toks [OF assms] show ?thesis by simp
qed

lemma skipUnary_toks: "wf_un u \<Longrightarrow> follow F_un rest \<Longrightarrow> skipUnary (toks_un u @ rest) = Some rest"
proof (induction u rule: unE_induct)
  case (1 u)
  then show ?case by simp
next
  case (2 p k q)
  then have "follow F_prim (opTok k # toks_prim q @ rest)" using isComparison_follow by simp
  with 2 skipUnary_primary [of p "opTok k" "toks_prim q @ rest"] skipPrimary_toks [of q rest]
  show ?case by (simp add: follow_weaken)
next
  case (3 p)
  then obtain t ts where "rest = t # ts" by (cases rest) (auto simp: follow_def)
  with 3 skipUnary_primary [of p t ts] follow_weaken(3) [of rest] follow_un_stop [of t ts] show ?case by auto
qed

lemma skipAnd_toks: "wf_and a \<Longrightarrow> follow F_and rest \<Longrightarrow> skipAnd (toks_and a @ rest) = Some rest"
proof (induction a rule: andE_induct)
  case (1 u)
  then have "skipUnary (toks_un u @ rest) = Some rest" by (simp add: skipUnary_toks follow_weaken)
  moreover have "skipAnds rest = Some rest" using "1.prems" by (cases rest) (auto simp: follow_def)
  ultimately show ?case by (simp add: skipAnd_def)
next
  case (2 u a)
  then have "skipUnary (toks_un u @ opTok tokAnd # toks_and a @ rest) = Some (opTok tokAnd # toks_and a @ rest)"
    by (simp add: skipUnary_toks)
  with 2 show ?case by (simp add: skipAnd_def)
qed

lemma skipAnds_chain:
  "wf_and a \<Longrightarrow> follow F_and rest \<Longrightarrow> skipAnds (opTok tokAnd # toks_and a @ rest) = Some rest"
  using skipAnd_toks [of a rest] by (simp add: skipAnd_def)

lemma skipOrs_chain:
  "wf_or e \<Longrightarrow> follow F_or rest \<Longrightarrow> skipOrs (opTok tokOr # toks_or e @ rest) = Some rest"
proof (induction e rule: orE_induct)
  case (1 a)
  then have "skipAnd (toks_and a @ rest) = Some rest" by (simp add: skipAnd_toks follow_weaken)
  moreover have "skipOrs rest = Some rest" using "1.prems" by (cases rest) (auto simp: follow_def)
  ultimately show ?case by simp
next
  case (2 a e)
  then have "skipAnd (toks_and a @ opTok tokOr # toks_or e @ rest) = Some (opTok tokOr # toks_or e @ rest)"
    by (simp add: skipAnd_toks)
  with 2 show ?case by simp
qed

text \<open>The loops, one step at a time: a chain whose left operand does not decide goes on as the
  expression after the operator.\<close>

lemma orLoop_unfold:
  "0 < n \<Longrightarrow> tkind t = tokOr \<Longrightarrow>
     orLoop n vs v (t # ts) = (if truthy v then of_skip v (skipOrs (t # ts)) else parseOr n vs ts)"
  by (cases n) (simp_all del: skipOrs.simps)

lemma andLoop_unfold:
  "0 < n \<Longrightarrow> tkind t = tokAnd \<Longrightarrow>
     andLoop n vs v (t # ts) = (if truthy v then parseAnd n vs ts else of_skip v (skipAnds (t # ts)))"
  by (cases n) (simp_all del: skipAnds.simps)

lemma loop_stop:
  "0 < n \<Longrightarrow> follow F_or rest \<Longrightarrow> orLoop n vs v rest = Inr (v, rest)"
  "0 < n \<Longrightarrow> follow F_and rest \<Longrightarrow> andLoop n vs v rest = Inr (v, rest)"
  by (cases n; cases rest; auto simp: follow_def)+

lemma fieldLoop_path:
  "follow F_prim rest \<Longrightarrow>
     fieldLoop v (concat (map (\<lambda>f. [opTok tokDot, mkTok tokIdent f]) fs) @ rest) = Inr (foldl field v fs, rest)"
  by (induction fs arbitrary: v) (cases rest; auto simp: follow_def)+

text \<open>\<open>atTree r rest\<close>: what a parser method gives on a tree of meaning \<open>r\<close> with \<open>rest\<close> after it.\<close>

definition atTree :: "(expr_error, any) result \<Rightarrow> token list \<Rightarrow> pres" where
  "atTree r rest = map_res (\<lambda>v. (v, rest)) (lift_expr r)"

lemma atTree_simps [simp]: "atTree (Inl e) rest = Inl (ExprErr e)" "atTree (Inr v) rest = Inr (v, rest)"
  by (simp_all add: atTree_def lift_expr_def)

lemma bind_atTree: "bind_res (atTree r rest) f = (case r of Inl e \<Rightarrow> Inl (ExprErr e) | Inr v \<Rightarrow> f (v, rest))"
  by (cases r) auto

lemma primaryAtom_path:
  "follow F_prim rest \<Longrightarrow>
     primaryAtom vs (mkTok tokIdent rt) (concat (map (\<lambda>f. [opTok tokDot, mkTok tokIdent f]) fs) @ rest)
     = atTree (sem_prim vs (PathE rt fs)) rest"
  by (simp add: primaryAtom_def parseFieldAccess_def fieldLoop_path split: option.splits)

lemma primaryAtom_literals:
  "primaryAtom vs (mkTok tokString s) rest = Inr (VString s, rest)"
  "primaryAtom vs (numTok tokNumber s x) rest = Inr (VFloat x, rest)"
  "primaryAtom vs (wordTok ''true'') rest = Inr (VBool True, rest)"
  "primaryAtom vs (wordTok ''false'') rest = Inr (VBool False, rest)"
  "primaryAtom vs (wordTok ''null'') rest = Inr (VNil, rest)"
  by (simp_all add: primaryAtom_def)

definition parses :: "orE \<Rightarrow> bool" where
  "parses e \<longleftrightarrow> (\<forall>n vs rest. wf_or e \<longrightarrow> follow F_or rest \<longrightarrow> 6 * length (toks_or e @ rest) + 4 < n \<longrightarrow>
     parseOr n vs (toks_or e @ rest) = atTree (sem_or vs e) rest)"

lemma parsePrimary_toks:
  assumes "\<And>e. p = ParenE e \<Longrightarrow> parses e"
    and "wf_prim p" "follow F_prim rest" "6 * length (toks_prim p @ rest) < n"
  shows "parsePrimary n vs (toks_prim p @ rest) = atTree (sem_prim vs p) rest"
proof -
  obtain m where n: "n = Suc m" using assms(4) by (cases n) auto
  show ?thesis
  proof (cases p)
    case (ParenE e)
    then have "parseOr m vs (toks_or e @ opTok tokRParen # rest) = atTree (sem_or vs e) (opTok tokRParen # rest)"
      using assms n unfolding parses_def by simp
    with ParenE n show ?thesis by (cases "sem_or vs e") simp_all
  qed (use assms n in \<open>simp_all add: primaryAtom_literals primaryAtom_path\<close>)
qed

lemma parseComparison_single:
  assumes "parsePrimary n vs ts = atTree r rest" "follow F_un rest"
  shows "parseComparison (Suc n) vs ts = atTree r rest"
  using assms by (cases r; cases rest) (auto simp: isComparison_def follow_def)

lemma applyCompare_atTree: "applyCompare k a (b, xs) = atTree (compare k a b) xs"
  by (simp add: applyCompare_def atTree_def)

lemma parseComparison_pair:
  assumes "parsePrimary n vs ts = atTree r (opTok k # ws)" "isComparison k"
    and "parsePrimary n vs ws = atTree r' rest"
  shows "parseComparison (Suc n) vs ts = atTree (bind_res r (\<lambda>a. bind_res r' (compare k a))) rest"
  using assms by (cases r; cases r') (simp_all add: applyCompare_atTree)

lemma parseUnary_prim:
  assumes "parseComparison n vs (toks_prim p @ ts) = r"
  shows "parseUnary (Suc n) vs (toks_prim p @ ts) = r"
  using assms toks_prim_start [of p] by auto

definition parses_prim :: "primE \<Rightarrow> bool" where
  "parses_prim p \<longleftrightarrow> (\<forall>n vs rest. wf_prim p \<longrightarrow> follow F_prim rest \<longrightarrow> 6 * length (toks_prim p @ rest) < n \<longrightarrow>
     parsePrimary n vs (toks_prim p @ rest) = atTree (sem_prim vs p) rest)"

definition parses_un :: "unE \<Rightarrow> bool" where
  "parses_un u \<longleftrightarrow> (\<forall>n vs rest. wf_un u \<longrightarrow> follow F_un rest \<longrightarrow> 6 * length (toks_un u @ rest) + 2 < n \<longrightarrow>
     parseUnary n vs (toks_un u @ rest) = atTree (sem_un vs u) rest)"

definition parses_and :: "andE \<Rightarrow> bool" where
  "parses_and a \<longleftrightarrow> (\<forall>n vs rest. wf_and a \<longrightarrow> follow F_and rest \<longrightarrow> 6 * length (toks_and a @ rest) + 3 < n \<longrightarrow>
     parseAnd n vs (toks_and a @ rest) = atTree (sem_and vs a) rest)"

lemmas parses_defs = parses_def parses_and_def parses_un_def parses_prim_def

lemma parses_primI: "(\<And>e. p = ParenE e \<Longrightarrow> parses e) \<Longrightarrow> parses_prim p"
  unfolding parses_prim_def using parsePrimary_toks by blast

lemma parses_NotE: assumes "parses_un u" shows "parses_un (NotE u)"
  unfolding parses_un_def
proof (intro allI impI)
  fix n vs rest
  assume a: "wf_un (NotE u)" "follow F_un rest" "6 * length (toks_un (NotE u) @ rest) + 2 < n"
  then obtain m where n: "n = Suc m" by (cases n) auto
  have "parseUnary m vs (toks_un u @ rest) = atTree (sem_un vs u) rest"
    using assms a n unfolding parses_un_def by simp
  with n show "parseUnary n vs (toks_un (NotE u) @ rest) = atTree (sem_un vs (NotE u)) rest"
    by (cases "sem_un vs u") (simp_all add: applyNot_def)
qed

lemma parses_ValE: assumes "parses_prim p" shows "parses_un (ValE p)"
  unfolding parses_un_def
proof (intro allI impI)
  fix n vs rest
  assume a: "wf_un (ValE p)" "follow F_un rest" "6 * length (toks_un (ValE p) @ rest) + 2 < n"
  define m where "m = n - 2"
  with a have n: "n = Suc (Suc m)" by simp
  have "parsePrimary m vs (toks_prim p @ rest) = atTree (sem_prim vs p) rest"
    using assms a n unfolding parses_prim_def by (simp add: follow_weaken)
  from parseComparison_single [OF this a(2)] show "parseUnary n vs (toks_un (ValE p) @ rest) = atTree (sem_un vs (ValE p)) rest"
    unfolding n toks_un.simps sem_un.simps by (rule parseUnary_prim)
qed

lemma parses_CmpE: assumes "parses_prim p" "parses_prim q" shows "parses_un (CmpE p k q)"
  unfolding parses_un_def
proof (intro allI impI)
  fix n vs rest
  assume a: "wf_un (CmpE p k q)" "follow F_un rest" "6 * length (toks_un (CmpE p k q) @ rest) + 2 < n"
  define m where "m = n - 2"
  with a have n: "n = Suc (Suc m)" by simp
  from a have k: "isComparison k" by simp
  then have "follow F_prim (opTok k # toks_prim q @ rest)" using isComparison_follow by simp
  then have 1: "parsePrimary m vs (toks_prim p @ opTok k # toks_prim q @ rest)
      = atTree (sem_prim vs p) (opTok k # toks_prim q @ rest)"
    using assms(1) a n unfolding parses_prim_def by simp
  have 2: "parsePrimary m vs (toks_prim q @ rest) = atTree (sem_prim vs q) rest"
    using assms(2) a n unfolding parses_prim_def by (simp add: follow_weaken)
  from parseComparison_pair [OF 1 k 2]
  show "parseUnary n vs (toks_un (CmpE p k q) @ rest) = atTree (sem_un vs (CmpE p k q)) rest"
    unfolding n using parseUnary_prim by simp
qed

lemma parses_And1: assumes "parses_un u" shows "parses_and (And1 u)"
  unfolding parses_and_def
proof (intro allI impI)
  fix n vs rest
  assume a: "wf_and (And1 u)" "follow F_and rest" "6 * length (toks_and (And1 u) @ rest) + 3 < n"
  define m where "m = n - 1"
  with a have n: "n = Suc m" "0 < m" by simp_all
  have "parseUnary m vs (toks_un u @ rest) = atTree (sem_un vs u) rest"
    using assms a n unfolding parses_un_def by (simp add: follow_weaken)
  with n a(2) show "parseAnd n vs (toks_and (And1 u) @ rest) = atTree (sem_and vs (And1 u)) rest"
    by (cases "sem_un vs u") (simp_all add: loop_stop)
qed

lemma parses_AndE: assumes "parses_un u" "parses_and r" shows "parses_and (AndE u r)"
  unfolding parses_and_def
proof (intro allI impI)
  fix n vs rest
  assume a: "wf_and (AndE u r)" "follow F_and rest" "6 * length (toks_and (AndE u r) @ rest) + 3 < n"
  define m where "m = n - 1"
  with a have n: "n = Suc m" "0 < m" by simp_all
  let ?ts = "toks_and r @ rest"
  have 1: "parseUnary m vs (toks_un u @ opTok tokAnd # ?ts) = atTree (sem_un vs u) (opTok tokAnd # ?ts)"
    using assms(1) a n unfolding parses_un_def by simp
  have 2: "parseAnd m vs ?ts = atTree (sem_and vs r) rest"
    using assms(2) a n unfolding parses_and_def by simp
  have 3: "skipAnds (opTok tokAnd # ?ts) = Some rest" using a by (intro skipAnds_chain) auto
  from 1 2 3 n show "parseAnd n vs (toks_and (AndE u r) @ rest) = atTree (sem_and vs (AndE u r)) rest"
    by (cases "sem_un vs u") (simp_all add: andLoop_unfold of_skip_def del: skipAnds.simps)
qed

lemma parses_Or1: assumes "parses_and a" shows "parses (Or1 a)"
  unfolding parses_def
proof (intro allI impI)
  fix n vs rest
  assume a: "wf_or (Or1 a)" "follow F_or rest" "6 * length (toks_or (Or1 a) @ rest) + 4 < n"
  define m where "m = n - 1"
  with a have n: "n = Suc m" "0 < m" by simp_all
  have "parseAnd m vs (toks_and a @ rest) = atTree (sem_and vs a) rest"
    using assms a n unfolding parses_and_def by (simp add: follow_weaken)
  with n a(2) show "parseOr n vs (toks_or (Or1 a) @ rest) = atTree (sem_or vs (Or1 a)) rest"
    by (cases "sem_and vs a") (simp_all add: loop_stop)
qed

lemma parses_OrE: assumes "parses_and a" "parses r" shows "parses (OrE a r)"
  unfolding parses_def
proof (intro allI impI)
  fix n vs rest
  assume a: "wf_or (OrE a r)" "follow F_or rest" "6 * length (toks_or (OrE a r) @ rest) + 4 < n"
  define m where "m = n - 1"
  with a have n: "n = Suc m" "0 < m" by simp_all
  let ?ts = "toks_or r @ rest"
  have 1: "parseAnd m vs (toks_and a @ opTok tokOr # ?ts) = atTree (sem_and vs a) (opTok tokOr # ?ts)"
    using assms(1) a n unfolding parses_and_def by simp
  have 2: "parseOr m vs ?ts = atTree (sem_or vs r) rest"
    using assms(2) a n unfolding parses_def by simp
  have 3: "skipOrs (opTok tokOr # ?ts) = Some rest" using a by (intro skipOrs_chain) auto
  from 1 2 3 n show "parseOr n vs (toks_or (OrE a r) @ rest) = atTree (sem_or vs (OrE a r)) rest"
    by (cases "sem_and vs a") (simp_all add: orLoop_unfold of_skip_def del: skipOrs.simps)
qed

lemma parses_trees: "parses e" "parses_and a" "parses_un u" "parses_prim p"
  by (induction e and a and u and p)
    (rule parses_primI parses_NotE parses_ValE parses_CmpE parses_And1 parses_AndE parses_Or1 parses_OrE, simp_all)+

lemma evalTokens_toks:
  assumes "wf_or e"
  shows "evalTokens (toks_or e @ [eofTok]) vs = lift_expr (sem_or vs e)"
proof -
  have "parseOr (evalFuel (toks_or e @ [eofTok])) vs (toks_or e @ [eofTok]) = atTree (sem_or vs e) [eofTok]"
    using parses_trees(1) [of e] assms unfolding parses_def by (simp add: evalFuel_def)
  then show ?thesis by (cases "sem_or vs e") (simp_all add: evalTokens_def lift_expr_def)
qed

lemma printable_opTok: "tokSpelling k \<noteq> None \<Longrightarrow> printable (opTok k)"
  by (auto simp: opTok_def mkTok_def printable_spelling)

lemma isComparison_spelling: "isComparison k \<Longrightarrow> tokSpelling k \<noteq> None"
  by (auto simp: isComparison_def)

lemma printable_path:
  "list_all validIdent fs \<Longrightarrow> list_all printable (concat (map (\<lambda>f. [opTok tokDot, mkTok tokIdent f]) fs))"
  by (induction fs) (simp_all add: printable_opTok mkTok_def printable_simps)

lemma printable_toks:
  shows "wf_or e \<Longrightarrow> list_all printable (toks_or e)"
    and "wf_and a \<Longrightarrow> list_all printable (toks_and a)"
    and "wf_un u \<Longrightarrow> list_all printable (toks_un u)"
    and "wf_prim p \<Longrightarrow> list_all printable (toks_prim p)"
  by (induction e and a and u and p)
    (simp_all add: printable_opTok isComparison_spelling printable_path [unfolded mkTok_def] mkTok_def numTok_def wordTok_def printable_simps)

section \<open>No index panic without short-circuiting\<close>

definition guarded :: "token list \<Rightarrow> bool" where
  "guarded ts \<longleftrightarrow> ts \<noteq> [] \<and> tkind (last ts) = tokEOF \<and> list_all (\<lambda>t. tkind t \<noteq> tokAnd \<and> tkind t \<noteq> tokOr) ts"

definition safe :: "pres \<Rightarrow> bool" where
  "safe r = (case r of Inl e \<Rightarrow> e \<noteq> IndexPanic | Inr (v, us) \<Rightarrow> guarded us)"

lemma safe_simps [simp]: "safe (Inl e) \<longleftrightarrow> e \<noteq> IndexPanic" "safe (Inr (v, us)) \<longleftrightarrow> guarded us"
  by (simp_all add: safe_def)

lemma safe_bind: "safe r \<Longrightarrow> (\<And>v us. guarded us \<Longrightarrow> safe (f (v, us))) \<Longrightarrow> safe (bind_res r f)"
  by (cases r) auto

lemma not_guarded_Nil [simp]: "\<not> guarded []"
  by (simp add: guarded_def)

lemma guarded_tl: "guarded (t # ts) \<Longrightarrow> tkind t \<noteq> tokEOF \<Longrightarrow> guarded ts"
  by (auto simp: guarded_def split: if_splits)

lemma guarded_hd: "guarded (t # ts) \<Longrightarrow> tkind t \<noteq> tokAnd \<and> tkind t \<noteq> tokOr"
  by (simp add: guarded_def)

lemma safe_fieldLoop: "guarded ts \<Longrightarrow> safe (fieldLoop v ts)"
proof (induction v ts rule: fieldLoop.induct)
  case (2 v t ts)
  show ?case
  proof (cases "tkind t = tokDot")
    case True
    with guarded_tl [OF "2.prems"] obtain f us where "ts = f # us" "guarded (f # us)" by (cases ts) auto
    with 2 True show ?thesis by (auto dest: guarded_tl)
  qed (use 2 in simp)
qed simp

lemma safe_primaryAtom: "guarded (t # us) \<Longrightarrow> safe (primaryAtom vs t us)"
  by (cases "tkind t") (auto simp: primaryAtom_def parseFieldAccess_def safe_fieldLoop split: option.splits dest: guarded_tl)

lemma safe_closeParen: "guarded us \<Longrightarrow> safe (closeParen (v, us))"
  by (cases us) (auto dest: guarded_tl)

lemma safe_applyCompare: "guarded us \<Longrightarrow> safe (applyCompare k a (v, us))"
  by (auto simp: applyCompare_def lift_expr_def split: sum.splits)

lemma safe_loops:
  "guarded ts \<Longrightarrow> safe (orLoop n vs v ts)" "guarded ts \<Longrightarrow> safe (andLoop n vs v ts)"
  by (cases n; cases ts; auto dest: guarded_hd)+

definition safe_at :: "nat \<Rightarrow> vars \<Rightarrow> bool" where
  "safe_at n vs \<longleftrightarrow> (\<forall>ts. guarded ts \<longrightarrow> safe (parseOr n vs ts) \<and> safe (parseAnd n vs ts) \<and> safe (parseUnary n vs ts)
     \<and> safe (parseComparison n vs ts) \<and> safe (parsePrimary n vs ts))"

lemma safe_comparison:
  assumes "safe_at n vs" "guarded ts"
  shows "safe (parseComparison (Suc n) vs ts)"
  unfolding parseComparison.simps
proof (rule safe_bind)
  fix v us
  assume "guarded us"
  then obtain u ws where us: "us = u # ws" "guarded (u # ws)" by (cases us) auto
  then have "isComparison (tkind u) \<Longrightarrow> guarded ws" by (auto simp: isComparison_def dest: guarded_tl)
  with us assms(1) show "safe (case (v, us) of (left, us) \<Rightarrow> (case us of
        [] \<Rightarrow> Inl IndexPanic
      | u # ws \<Rightarrow>
          (if isComparison (tkind u) then bind_res (parsePrimary n vs ws) (applyCompare (tkind u) left)
           else Inr (left, us))))"
    unfolding safe_at_def by (auto intro!: safe_bind safe_applyCompare)
qed (use assms in \<open>simp add: safe_at_def\<close>)

lemma safe_at_step:
  assumes IH: "safe_at n vs" and g: "guarded ts"
  shows "safe (parseOr (Suc n) vs ts)" "safe (parseAnd (Suc n) vs ts)" "safe (parseUnary (Suc n) vs ts)"
    "safe (parsePrimary (Suc n) vs ts)"
proof -
  obtain t us where ts: "ts = t # us" using g by (cases ts) auto
  have tl: "guarded us" if "tkind t \<noteq> tokEOF" using g ts that guarded_tl by blast
  show "safe (parseOr (Suc n) vs ts)" "safe (parseAnd (Suc n) vs ts)"
    using IH g by (auto simp: safe_at_def intro!: safe_bind safe_loops)
  show "safe (parseUnary (Suc n) vs ts)" "safe (parsePrimary (Suc n) vs ts)"
    using IH g ts tl by (auto simp: safe_at_def applyNot_def intro!: safe_bind safe_closeParen safe_primaryAtom)
qed

lemma safe_all: "safe_at n vs"
proof (induction n)
  case 0
  show ?case by (simp add: safe_at_def)
next
  case (Suc n)
  then show ?case unfolding safe_at_def [of "Suc n"] using safe_at_step safe_comparison by blast
qed

section \<open>Properties\<close>

text \<open>Two numerals, for the concrete instances below.\<close>

lemmas ParseFloat_eval = ParseFloat_def Let_def isDigit_def digits_val_def digit_val_def round64_def
  expo64_def pow2_def rne_def

lemma ParseFloat_samples: "ParseFloat ''1'' = Some (Fin 1)" "ParseFloat ''1.5'' = Some (Fin (3 / 2))"
  by (simp_all add: ParseFloat_eval ilog2.simps)

lemma validNumeral_samples: "validNumeral ''1''" "validNumeral ''1.5''"
  by (simp_all add: validNumeral_def ParseFloat_samples isDigit_def numeralPart_def)

lemmas ident_eval = validIdent_def isIdentStart_def isIdentPart_def isDigit_def

text \<open>The scanner inverts the printer: scanning the printed form of any sequence of
  tokens that have a spelling (identifiers, numerals, quoted strings with escapes, keywords and operators)
  gives exactly that sequence followed by the end marker.\<close>

theorem lex_showToks:
  assumes "list_all printable ts"
  shows "lex (showToks ts) = Inr (ts @ [eofTok])"
  unfolding lex_def using assms by (rule lexFrom_showToks)

theorem lex_showToks_witness:
  "lex (showToks [mkTok tokIdent ''a'', opTok tokGe, numTok tokNumber ''1.5'' (Fin (3 / 2)), mkTok tokString [CHR 0x22]])
   = Inr [mkTok tokIdent ''a'', opTok tokGe, numTok tokNumber ''1.5'' (Fin (3 / 2)), mkTok tokString [CHR 0x22], eofTok]"
proof -
  have "list_all printable [mkTok tokIdent ''a'', opTok tokGe, numTok tokNumber ''1.5'' (Fin (3 / 2)), mkTok tokString [CHR 0x22]]"
    by (simp add: printable_opTok mkTok_def numTok_def printable_simps ParseFloat_samples validNumeral_samples ident_eval)
  from lex_showToks [OF this] show ?thesis by simp
qed

text \<open>C4: The evaluator agrees with the reference semantics: for every well-formed syntax tree
  and all variable bindings, scanning, parsing and evaluating the printed tree in one pass (with operands skipped
  after a deciding \<open>||\<close> or \<open>&&\<close>) gives the value, or the error, of the tree's meaning. In particular
  operator precedence, short-circuiting and the skipping of unevaluated operands are right.\<close>

theorem evalExpression_printed:
  assumes "wf_or e"
  shows "evalExpression (showToks (toks_or e)) vs = lift_expr (sem_or vs e)"
  using lexFrom_showToks [OF printable_toks(1) [OF assms], of 0] evalTokens_toks [OF assms]
  by (simp add: evalExpression_def lex_def lift_expr_def)

text \<open>The tree of \<open>!false || (missing.x == 1)\<close>: the second operand would fail, and is skipped.\<close>

definition sampleTree :: orE where
  "sampleTree = OrE (And1 (NotE (ValE (BoolE False))))
     (Or1 (And1 (ValE (ParenE (Or1 (And1 (CmpE (PathE ''missing'' [''x'']) tokEq (NumE ''1'' (Fin 1)))))))))"

theorem evalExpression_printed_witness:
  "wf_or sampleTree \<and> evalExpression (showToks (toks_or sampleTree)) [] = Inr (VBool True)"
proof -
  have w: "wf_or sampleTree"
    by (simp add: sampleTree_def isComparison_def ParseFloat_samples validNumeral_samples ident_eval)
  have "sem_or [] sampleTree = Inr (VBool True)" by (simp add: sampleTree_def truthy_def)
  with w evalExpression_printed [OF w, of "[]"] show ?thesis by (simp add: lift_expr_def)
qed

text \<open>C38: Evaluation always ends: on every input string, well-formed or not, and all bindings,
  the recursive descent returns a value, an error or an index panic within the fuel given.\<close>

theorem evalExpression_terminates: "evalExpression expr vs \<noteq> Inl OutOfFuel"
  using parse_fuel_enough by (auto simp: evalExpression_def lift_expr_def bind_res_Inl_iff split: sum.splits)

text \<open>An expression without \<open>&&\<close> and \<open>||\<close> never makes the parser read past its tokens.\<close>

theorem evalTokens_no_panic:
  assumes "list_all (\<lambda>t. tkind t \<noteq> tokAnd \<and> tkind t \<noteq> tokOr) ts"
  shows "evalTokens (ts @ [eofTok]) vs \<noteq> Inl IndexPanic"
proof -
  have "guarded (ts @ [eofTok])" using assms by (simp add: guarded_def)
  then have "safe (parseOr (evalFuel (ts @ [eofTok])) vs (ts @ [eofTok]))"
    using safe_all unfolding safe_at_def by blast
  then show ?thesis
    unfolding evalTokens_def by (auto simp: bind_res_Inl_iff split: list.splits if_splits)
qed

theorem evalTokens_no_panic_witness:
  "evalTokens ([opTok tokLParen, mkTok tokIdent ''a'', opTok tokDot] @ [eofTok]) [] \<noteq> Inl IndexPanic"
  by (rule evalTokens_no_panic) simp

text \<open>Skipping an operand has no bounds check: a short-circuited operand that the input
  cuts off inside a parenthesis or after a dot reads past the token slice and panics, while the
  same operand in a position where it is evaluated is reported as an error.\<close>

theorem skip_panics:
  "evalExpression ''true || ('' [] = Inl IndexPanic
   \<and> evalExpression ''true || a.'' [] = Inl IndexPanic
   \<and> evalExpression ''false || ('' [] = Inl (ExprErr (UnexpectedToken ''''))"
  by (intro conjI) code_simp+

text \<open>Skipping takes any token for an operand: an operator in operand position is
  accepted when it is short-circuited, and rejected when it is evaluated.\<close>

theorem skip_accepts_operator:
  "evalExpression ''true || &&'' [] = Inr (VBool True)
   \<and> evalExpression ''false || &&'' [] = Inl (ExprErr (UnexpectedToken ''&&''))"
  by (intro conjI) code_simp+

end
