(* ===== verification/Flow_Graph.thy ===== *)
theory Flow_Graph
  imports Values
begin

text \<open>
  Flow graphs (\<open>internal/flow/graph.go\<close>): the document types, node validation, \<open>buildGraph\<close> with
  Kahn's algorithm, and the queries \<open>TopologicalOrder\<close>, \<open>OutgoingEdges\<close> and \<open>Trigger\<close>.

  \<open>json.Unmarshal\<close> into \<open>FlowDef\<close> is the parameter \<open>decode\<close>. A nil \<open>Arguments\<close> map is the empty
  map: the sources only read it through \<open>args == nil\<close>, which makes it an empty map.
  The counters \<open>inDegree\<close> and \<open>remaining\<close> are integers; they are bounded by the number of edges and nodes of a
  document in memory, far below the range of Go's \<open>int\<close>.
\<close>

section \<open>Types\<close>

abbreviation "NodeTypeTrigger \<equiv> ''trigger''"
abbreviation "NodeTypeAgent \<equiv> ''agent''"
abbreviation "NodeTypeMcpTool \<equiv> ''mcp_tool''"
abbreviation "NodeTypeCondition \<equiv> ''condition''"
abbreviation "NodeTypeOutput \<equiv> ''output''"
abbreviation "TriggerManual \<equiv> ''manual''"
abbreviation "TriggerSchedule \<equiv> ''schedule''"
abbreviation "TriggerEvent \<equiv> ''event''"
abbreviation "OutputDatabase \<equiv> ''database''"
abbreviation "OutputModbus \<equiv> ''modbus''"
abbreviation "OutputFile \<equiv> ''file''"
abbreviation "OutputHTTP \<equiv> ''http''"

record Node =
  nID :: string
  nType :: string
  nName :: string
  nTriggerType :: string
  nSchedule :: string
  nAgentID :: string
  nServerID :: string
  nTool :: string
  nArguments :: "(string, any) gomap"
  nExpression :: string
  nKind :: string
  nTarget :: string
  nValue :: any
  nMethod :: string

record Edge =
  eID :: string
  eSource :: string
  eSourceHandle :: string
  eTarget :: string
  eTargetHandle :: string

record FlowDef =
  fdID :: string
  fdName :: string
  fdNodes :: "Node list"
  fdEdges :: "Edge list"

record Graph =
  gNodes :: "(string, Node) gomap"
  gEdges :: "Edge list"
  gAdj :: "(string, Edge list) gomap"
  gOrder :: "string list"

text \<open>One constructor per error of graph.go, with the arguments of its message.\<close>

datatype graph_error =
    Malformed string
  | NoNodes
  | EmptyNodeID
  | DuplicateNode string
  | BadTriggerType string string
  | MissingAgentID string
  | MissingServerID string
  | MissingTool string
  | MissingExpression string
  | BadOutputKind string string
  | MissingTarget string
  | BadNodeType string string
  | TriggerCount nat
  | UnknownSource string string
  | UnknownTarget string string
  | GraphCycle
  | NoTrigger

section \<open>Validation and construction\<close>

definition validOutputKind :: "string \<Rightarrow> bool" where
  "validOutputKind kind \<longleftrightarrow> kind \<in> {OutputDatabase, OutputModbus, OutputFile, OutputHTTP}"

definition validateNode :: "Node \<Rightarrow> (graph_error, unit) result" where
  "validateNode n =
     (if nType n = NodeTypeTrigger then
        (if nTriggerType n \<noteq> '''' \<and> nTriggerType n \<noteq> TriggerManual \<and> nTriggerType n \<noteq> TriggerSchedule
            \<and> nTriggerType n \<noteq> TriggerEvent
         then Inl (BadTriggerType (nID n) (nTriggerType n)) else Inr ())
      else if nType n = NodeTypeAgent then
        (if nAgentID n = '''' then Inl (MissingAgentID (nID n)) else Inr ())
      else if nType n = NodeTypeMcpTool then
        (if nServerID n = '''' then Inl (MissingServerID (nID n))
         else if nTool n = '''' then Inl (MissingTool (nID n)) else Inr ())
      else if nType n = NodeTypeCondition then
        (if nExpression n = '''' then Inl (MissingExpression (nID n)) else Inr ())
      else if nType n = NodeTypeOutput then
        (if \<not> validOutputKind (nKind n) then Inl (BadOutputKind (nID n) (nKind n))
         else if nTarget n = '''' then Inl (MissingTarget (nID n)) else Inr ())
      else Inl (BadNodeType (nID n) (nType n)))"

definition nodeIDs :: "Node list \<Rightarrow> string list" where
  "nodeIDs nodes = map nID nodes"

text \<open>The first loop of \<open>buildGraph\<close>: \<open>g.Nodes\<close> and the number of triggers.\<close>

fun addNodes :: "Node list \<Rightarrow> (string, Node) gomap \<Rightarrow> nat \<Rightarrow> (graph_error, (string, Node) gomap \<times> nat) result" where
  "addNodes [] m triggers = Inr (m, triggers)"
| "addNodes (n # ns) m triggers =
     (if nID n = '''' then Inl EmptyNodeID
      else if glookup m (nID n) \<noteq> None then Inl (DuplicateNode (nID n))
      else bind_res (validateNode n) (\<lambda>_.
        addNodes ns (gput (nID n) n m) (if nType n = NodeTypeTrigger then triggers + 1 else triggers)))"

definition initDegrees :: "string list \<Rightarrow> (string, int) gomap" where
  "initDegrees ids = fold (\<lambda>i d. gput i 0 d) ids []"

text \<open>The loop over the edges: \<open>g.adj\<close> and \<open>inDegree\<close>.\<close>

fun addEdges :: "(string, Node) gomap \<Rightarrow> Edge list \<Rightarrow> (string, Edge list) gomap \<Rightarrow> (string, int) gomap
    \<Rightarrow> (graph_error, (string, Edge list) gomap \<times> (string, int) gomap) result" where
  "addEdges nodes [] adj deg = Inr (adj, deg)"
| "addEdges nodes (e # es) adj deg =
     (if glookup nodes (eSource e) = None then Inl (UnknownSource (eID e) (eSource e))
      else if glookup nodes (eTarget e) = None then Inl (UnknownTarget (eID e) (eTarget e))
      else addEdges nodes es
        (gput (eSource e) (gget [] adj (eSource e) @ [e]) adj)
        (gput (eTarget e) (gget 0 deg (eTarget e) + 1) deg))"

text \<open>Kahn's algorithm: \<open>kahnEdges\<close> is the inner loop over the edges of \<open>cur\<close>, \<open>kahn\<close> the outer
  one.\<close>

fun kahnEdges :: "Edge list \<Rightarrow> (string, int) gomap \<Rightarrow> string list \<Rightarrow> (string, int) gomap \<times> string list" where
  "kahnEdges [] deg queue = (deg, queue)"
| "kahnEdges (e # es) deg queue =
     (let n = gget 0 deg (eTarget e) - 1
      in kahnEdges es (gput (eTarget e) n deg) (if n = 0 then queue @ [eTarget e] else queue))"

definition positives :: "(string, int) gomap \<Rightarrow> nat" where
  "positives deg = length (filter (\<lambda>(k, n). 0 < n) deg)"

lemma positives_gput:
  "positives (gput k n deg) + (if 0 < gget 0 deg k then 1 else 0) = positives deg + (if 0 < n then 1 else 0)"
  by (induction deg) (auto simp: positives_def gput_def gget_def glookup_def)

lemma kahnEdges_measure:
  "kahnEdges es deg queue = (deg', queue') \<Longrightarrow> length queue' + positives deg' \<le> length queue + positives deg"
proof (induction es deg queue rule: kahnEdges.induct)
  case (2 e es deg queue)
  let ?n = "gget 0 deg (eTarget e) - 1"
  have "length queue' + positives deg'
      \<le> length (if ?n = 0 then queue @ [eTarget e] else queue) + positives (gput (eTarget e) ?n deg)"
    using 2 by (simp add: Let_def)
  with positives_gput [of "eTarget e" ?n deg] show ?case by (auto split: if_splits)
qed simp

function kahn :: "(string, Edge list) gomap \<Rightarrow> (string, int) gomap \<Rightarrow> string list \<Rightarrow> string list \<Rightarrow> int
    \<Rightarrow> string list \<times> int" where
  "kahn adj deg [] order remaining = (order, remaining)"
| "kahn adj deg (cur # queue) order remaining =
     (let (deg', queue') = kahnEdges (gget [] adj cur) deg queue
      in kahn adj deg' queue' (order @ [cur]) (remaining - 1))"
  by pat_completeness auto
termination
  by (relation "measure (\<lambda>(adj, deg, queue, order, remaining). length queue + positives deg)")
    (auto dest: kahnEdges_measure [OF sym])

definition buildGraph :: "FlowDef \<Rightarrow> (graph_error, Graph) result" where
  "buildGraph def =
     (if fdNodes def = [] then Inl NoNodes
      else bind_res (addNodes (fdNodes def) [] 0) (\<lambda>(nodes, triggers).
        if triggers \<noteq> 1 then Inl (TriggerCount triggers)
        else bind_res (addEdges nodes (fdEdges def) [] (initDegrees (nodeIDs (fdNodes def)))) (\<lambda>(adj, deg).
          let queue = filter (\<lambda>i. gget 0 deg i = 0) (nodeIDs (fdNodes def));
              (order, remaining) = kahn adj deg queue [] (int (length (fdNodes def)))
          in if remaining \<noteq> 0 then Inl GraphCycle
             else Inr \<lparr>gNodes = nodes, gEdges = fdEdges def, gAdj = adj, gOrder = order\<rparr>)))"

definition ParseAndValidate :: "(string \<Rightarrow> (string, FlowDef) result) \<Rightarrow> string \<Rightarrow> (graph_error, Graph) result" where
  "ParseAndValidate decode flowJSON = (case decode flowJSON of
      Inl e \<Rightarrow> Inl (Malformed e)
    | Inr def \<Rightarrow> buildGraph def)"

definition TopologicalOrder :: "Graph \<Rightarrow> string list" where
  "TopologicalOrder g = gOrder g"

definition OutgoingEdges :: "Graph \<Rightarrow> string \<Rightarrow> string \<Rightarrow> Edge list" where
  "OutgoingEdges g nodeID handle = filter (\<lambda>e. eSourceHandle e = handle) (gget [] (gAdj g) nodeID)"

definition Trigger :: "range_order \<Rightarrow> Graph \<Rightarrow> (graph_error, Node) result" where
  "Trigger rng g = (case find (\<lambda>n. nType n = NodeTypeTrigger) (gvalues rng (gNodes g)) of
      None \<Rightarrow> Inl NoTrigger
    | Some n \<Rightarrow> Inr n)"

section \<open>What the loops compute\<close>

lemma validateNode_id: "validateNode n = Inr () \<Longrightarrow> nType n \<in> {NodeTypeTrigger, NodeTypeAgent, NodeTypeMcpTool, NodeTypeCondition, NodeTypeOutput}"
  by (auto simp: validateNode_def split: if_splits)

lemma addNodes_iff:
  "addNodes ns m t = Inr (m', t') \<longleftrightarrow>
     (\<forall>n\<in>set ns. nID n \<noteq> '''' \<and> validateNode n = Inr ()) \<and> distinct (nodeIDs ns)
     \<and> set (nodeIDs ns) \<inter> set (gkeys m) = {}
     \<and> m' = m @ map (\<lambda>n. (nID n, n)) ns
     \<and> t' = t + length (filter (\<lambda>n. nType n = NodeTypeTrigger) ns)"
proof (induction ns m t rule: addNodes.induct)
  case (1 m t)
  then show ?case by (auto simp: nodeIDs_def)
next
  case (2 n ns m t)
  show ?case
  proof (cases "nID n = '''' \<or> glookup m (nID n) \<noteq> None \<or> validateNode n \<noteq> Inr ()")
    case True
    then show ?thesis
      by (cases "validateNode n") (auto simp: nodeIDs_def in_gkeys_iff)
  next
    case False
    then have "gput (nID n) n m = m @ [(nID n, n)]" by (intro gput_new) (auto simp: in_gkeys_iff)
    moreover from False have "nID n \<notin> set (gkeys m)" by (simp add: in_gkeys_iff)
    ultimately show ?thesis using 2 [OF _ _, of "()"] False
      by (auto simp: nodeIDs_def gkeys_def)
  qed
qed

lemma initDegrees_zero: "gget 0 (initDegrees ids) k = 0"
proof -
  have "gget 0 d k = 0 \<Longrightarrow> gget 0 (fold (\<lambda>i d. gput i 0 d) ids d) k = 0" for d :: "(string, int) gomap"
    by (induction ids arbitrary: d) auto
  then show ?thesis by (simp add: initDegrees_def)
qed

lemma addEdges_ok_iff:
  "is_ok (addEdges nodes es adj deg) \<longleftrightarrow>
     (\<forall>e\<in>set es. eSource e \<in> set (gkeys nodes) \<and> eTarget e \<in> set (gkeys nodes))"
  by (induction nodes es adj deg rule: addEdges.induct) (auto simp: in_gkeys_iff)

lemma addEdges_result:
  assumes "addEdges nodes es adj deg = Inr (adj', deg')"
  shows "gget [] adj' s = gget [] adj s @ filter (\<lambda>e. eSource e = s) es"
    and "gget 0 deg' k = gget 0 deg k + int (length (filter (\<lambda>e. eTarget e = k) es))"
  using assms
  by (induction nodes es adj deg rule: addEdges.induct) (auto split: if_splits)

lemma no_target: "k \<notin> eTarget ` set es \<Longrightarrow> filter (\<lambda>e. eTarget e = k) es = []"
  by (auto simp: filter_empty_conv)

lemma kahnEdges_result:
  assumes "kahnEdges es deg queue = (deg', queue')"
    and "\<And>k. k \<in> eTarget ` set es \<Longrightarrow> int (length (filter (\<lambda>e. eTarget e = k) es)) \<le> gget 0 deg k"
  shows "(\<forall>k. gget 0 deg' k = gget 0 deg k - int (length (filter (\<lambda>e. eTarget e = k) es)))
       \<and> (\<exists>new. queue' = queue @ new \<and> distinct new
            \<and> set new = {k \<in> eTarget ` set es. gget 0 deg' k = 0})"
  using assms
proof (induction es arbitrary: deg queue)
  case Nil
  then show ?case by simp
next
  case (Cons e es)
  let ?t = "eTarget e" and ?n = "gget 0 deg (eTarget e) - 1"
  let ?d = "gput ?t ?n deg" and ?q = "if ?n = 0 then queue @ [?t] else queue"
  have step: "kahnEdges es ?d ?q = (deg', queue')" using Cons.prems(1) by (simp add: Let_def)
  have ge: "int (length (filter (\<lambda>e. eTarget e = k) es)) \<le> gget 0 ?d k" if "k \<in> eTarget ` set es" for k
    using Cons.prems(2) [of k] that by (auto split: if_splits)
  from Cons.IH [OF step ge] obtain new where
    d: "\<And>k. gget 0 deg' k = gget 0 ?d k - int (length (filter (\<lambda>e. eTarget e = k) es))"
    and q: "queue' = ?q @ new" "distinct new" "set new = {k \<in> eTarget ` set es. gget 0 deg' k = 0}"
    by blast
  have deg: "\<forall>k. gget 0 deg' k = gget 0 deg k - int (length (filter (\<lambda>e. eTarget e = k) (e # es)))"
    using d by simp
  have none: "?n = 0 \<Longrightarrow> ?t \<notin> eTarget ` set es"
    using Cons.prems(2) [of ?t] by (auto simp: filter_empty_conv)
  have last: "gget 0 deg' ?t = 0 \<Longrightarrow> ?t \<notin> eTarget ` set es \<Longrightarrow> ?n = 0"
    using d [of ?t] by (simp add: no_target)
  have zero: "?n = 0 \<Longrightarrow> gget 0 deg' ?t = 0"
    using none d [of ?t] by (simp add: no_target)
  show ?case
  proof (cases "?n = 0")
    case True
    with q none zero have "queue' = queue @ (?t # new) \<and> distinct (?t # new)
        \<and> set (?t # new) = {k \<in> eTarget ` set (e # es). gget 0 deg' k = 0}" by auto
    with deg show ?thesis by blast
  next
    case False
    with q last have "queue' = queue @ new \<and> distinct new
        \<and> set new = {k \<in> eTarget ` set (e # es). gget 0 deg' k = 0}" by auto
    with deg show ?thesis by blast
  qed
qed

section \<open>Kahn's algorithm\<close>

text \<open>\<open>sources_first es order\<close>: every edge into a node of \<open>order\<close> starts at an earlier node.\<close>

definition sources_first :: "Edge list \<Rightarrow> string list \<Rightarrow> bool" where
  "sources_first es order \<longleftrightarrow>
     (\<forall>i < length order. \<forall>e \<in> set es. eTarget e = order ! i \<longrightarrow> eSource e \<in> set (take i order))"

definition waiting :: "Edge list \<Rightarrow> string list \<Rightarrow> string \<Rightarrow> Edge list" where
  "waiting es order k = filter (\<lambda>e. eTarget e = k \<and> eSource e \<notin> set order) es"

definition kahn_inv :: "Edge list \<Rightarrow> string set \<Rightarrow> (string, int) gomap \<Rightarrow> string list \<Rightarrow> string list \<Rightarrow> bool" where
  "kahn_inv es V deg queue order \<longleftrightarrow>
     distinct (order @ queue) \<and> set (order @ queue) \<subseteq> V
     \<and> (\<forall>k\<in>V. gget 0 deg k = int (length (waiting es order k)))
     \<and> (\<forall>k\<in>V. k \<in> set (order @ queue) \<longleftrightarrow> gget 0 deg k = 0)
     \<and> sources_first es order"

lemma sources_first_snoc:
  "sources_first es order \<Longrightarrow> \<forall>e\<in>set es. eTarget e = cur \<longrightarrow> eSource e \<in> set order \<Longrightarrow> sources_first es (order @ [cur])"
  by (auto simp: sources_first_def nth_append less_Suc_eq)

lemma waiting_snoc:
  assumes "cur \<notin> set order"
  shows "int (length (waiting es (order @ [cur]) k)) =
    int (length (waiting es order k)) - int (length (filter (\<lambda>e. eTarget e = k) (filter (\<lambda>e. eSource e = cur) es)))"
  using assms by (induction es) (auto simp: waiting_def)

lemma kahn_step_inv:
  assumes inv: "kahn_inv es V deg (cur # queue) order"
    and closed: "\<forall>e\<in>set es. eSource e \<in> V \<and> eTarget e \<in> V"
    and adj: "gget [] adj cur = filter (\<lambda>e. eSource e = cur) es"
    and step: "kahnEdges (gget [] adj cur) deg queue = (deg', queue')"
  shows "kahn_inv es V deg' queue' (order @ [cur])"
proof -
  let ?out = "filter (\<lambda>e. eSource e = cur) es"
  from inv have cur: "cur \<in> V" "cur \<notin> set order" "gget 0 deg cur = 0"
    and deg: "\<And>k. k \<in> V \<Longrightarrow> gget 0 deg k = int (length (waiting es order k))"
    and seen: "\<And>k. k \<in> V \<Longrightarrow> k \<in> set (order @ cur # queue) \<longleftrightarrow> gget 0 deg k = 0"
    by (auto simp: kahn_inv_def)
  have ge: "int (length (filter (\<lambda>e. eTarget e = k) ?out)) \<le> gget 0 deg k" if "k \<in> eTarget ` set ?out" for k
  proof -
    from that closed have "k \<in> V" by auto
    with deg waiting_snoc [OF cur(2), of es k] show ?thesis by simp
  qed
  from kahnEdges_result [OF step [unfolded adj] ge] obtain new where
    d: "\<And>k. gget 0 deg' k = gget 0 deg k - int (length (filter (\<lambda>e. eTarget e = k) ?out))"
    and new: "queue' = queue @ new" "distinct new" "set new = {k \<in> eTarget ` set ?out. gget 0 deg' k = 0}"
    by blast
  have deg': "gget 0 deg' k = int (length (waiting es (order @ [cur]) k))" if "k \<in> V" for k
    using d deg [OF that] waiting_snoc [OF cur(2), of es k] by simp
  have fresh: "gget 0 deg k \<noteq> 0" if "k \<in> set new" for k
  proof -
    from that new(3) obtain e where "e \<in> set ?out" "eTarget e = k" by auto
    then have "filter (\<lambda>e. eTarget e = k) ?out \<noteq> []" by (auto simp: filter_empty_conv)
    with d [of k] new(3) that show ?thesis by auto
  qed
  have newV: "set new \<subseteq> V" using new(3) closed by auto
  have same: "gget 0 deg' k = gget 0 deg k" if "k \<notin> eTarget ` set ?out" for k
    using d [of k] no_target [OF that] by simp
  have zero: "gget 0 deg k = 0 \<Longrightarrow> k \<in> V \<Longrightarrow> gget 0 deg' k = 0" for k
    using deg' [of k] d [of k] by simp
  have "k \<in> set ((order @ [cur]) @ queue') \<longleftrightarrow> gget 0 deg' k = 0" if k: "k \<in> V" for k
    using seen [OF k] new(1,3) same [of k] zero [of k] k by auto
  moreover have "distinct ((order @ [cur]) @ queue')"
  proof -
    have "set new \<inter> set (order @ cur # queue) = {}" using fresh newV seen by blast
    with inv new(1,2) show ?thesis by (auto simp: kahn_inv_def)
  qed
  moreover have "set ((order @ [cur]) @ queue') \<subseteq> V"
    using inv new(1) newV by (auto simp: kahn_inv_def)
  moreover have "sources_first es (order @ [cur])"
  proof (rule sources_first_snoc)
    show "sources_first es order" using inv by (simp add: kahn_inv_def)
    have "waiting es order cur = []" using deg [OF cur(1)] cur(3) by simp
    then show "\<forall>e\<in>set es. eTarget e = cur \<longrightarrow> eSource e \<in> set order"
      by (auto simp: waiting_def filter_empty_conv)
  qed
  ultimately show ?thesis using deg' by (simp add: kahn_inv_def)
qed

lemma kahn_result:
  assumes "kahn_inv es V deg queue order" and "\<forall>e\<in>set es. eSource e \<in> V \<and> eTarget e \<in> V"
    and "\<And>s. gget [] adj s = filter (\<lambda>e. eSource e = s) es"
    and "kahn adj deg queue order r = (order', r')"
  shows "(\<exists>deg'. kahn_inv es V deg' [] order') \<and> r' + int (length order') = r + int (length order)"
  using assms
proof (induction adj deg queue order r rule: kahn.induct)
  case (2 adj deg cur queue order r)
  obtain deg' queue' where s: "kahnEdges (gget [] adj cur) deg queue = (deg', queue')" by force
  from kahn_step_inv [OF "2.prems"(1,2) "2.prems"(3) s] have "kahn_inv es V deg' queue' (order @ [cur])" .
  with "2.IH" [OF s [symmetric] refl] "2.prems" s show ?case by auto
qed auto

definition edgeRel :: "Edge list \<Rightarrow> (string \<times> string) set" where
  "edgeRel es = (\<lambda>e. (eSource e, eTarget e)) ` set es"

definition pos :: "string list \<Rightarrow> string \<Rightarrow> nat" where
  "pos order k = length (takeWhile (\<lambda>x. x \<noteq> k) order)"

lemma pos_nth: "k \<in> set order \<Longrightarrow> pos order k < length order \<and> order ! pos order k = k"
  by (induction order) (auto simp: pos_def)

lemma pos_take: "k \<in> set (take i order) \<Longrightarrow> pos order k < i"
  by (induction order arbitrary: i) (auto simp: pos_def take_Cons split: nat.splits)

lemma sources_first_pos:
  assumes "sources_first es order" "e \<in> set es" "eTarget e \<in> set order"
  shows "eSource e \<in> set order \<and> pos order (eSource e) < pos order (eTarget e)"
proof -
  have "eSource e \<in> set (take (pos order (eTarget e)) order)"
    using assms pos_nth [OF assms(3)] unfolding sources_first_def by metis
  then show ?thesis by (auto dest: pos_take in_set_takeD)
qed

lemma sources_first_acyclic:
  assumes "sources_first es order" "\<forall>e\<in>set es. eTarget e \<in> set order"
  shows "acyclic (edgeRel es)"
proof (rule acyclic_subset)
  show "acyclic (measure (pos order))" by (simp add: wf_acyclic)
  show "edgeRel es \<subseteq> measure (pos order)"
    using assms sources_first_pos by (auto simp: edgeRel_def)
qed

lemma kahn_complete:
  assumes "kahn_inv es V deg [] order" "\<forall>e\<in>set es. eSource e \<in> V \<and> eTarget e \<in> V" "acyclic (edgeRel es)"
  shows "set order = V"
proof (rule ccontr)
  assume "set order \<noteq> V"
  with assms(1) obtain z where "z \<in> V - set order" by (auto simp: kahn_inv_def)
  moreover have "wf (edgeRel es)" using assms(3) by (simp add: finite_acyclic_wf edgeRel_def)
  ultimately obtain y where y: "y \<in> V - set order" "\<And>x. (x, y) \<in> edgeRel es \<Longrightarrow> x \<notin> V - set order"
    by (meson wfE_min)
  with assms(1) have "waiting es order y \<noteq> []" by (auto simp: kahn_inv_def)
  then obtain e where "e \<in> set es" "eTarget e = y" "eSource e \<notin> set order"
    by (auto simp: waiting_def filter_empty_conv)
  with y(2) assms(2) show False by (auto simp: edgeRel_def)
qed

section \<open>Accepted documents\<close>

text \<open>The documents \<open>buildGraph\<close> should accept.\<close>

definition validFlow :: "FlowDef \<Rightarrow> bool" where
  "validFlow def \<longleftrightarrow>
     (\<forall>n\<in>set (fdNodes def). nID n \<noteq> '''' \<and> validateNode n = Inr ())
     \<and> distinct (nodeIDs (fdNodes def))
     \<and> length (filter (\<lambda>n. nType n = NodeTypeTrigger) (fdNodes def)) = 1
     \<and> (\<forall>e\<in>set (fdEdges def). eSource e \<in> set (nodeIDs (fdNodes def)) \<and> eTarget e \<in> set (nodeIDs (fdNodes def)))
     \<and> acyclic (edgeRel (fdEdges def))"

text \<open>The graph of an accepted document.\<close>

definition graphOf :: "FlowDef \<Rightarrow> Graph \<Rightarrow> bool" where
  "graphOf def g \<longleftrightarrow>
     gNodes g = map (\<lambda>n. (nID n, n)) (fdNodes def) \<and> gEdges g = fdEdges def
     \<and> (\<forall>s. gget [] (gAdj g) s = filter (\<lambda>e. eSource e = s) (fdEdges def))
     \<and> distinct (gOrder g) \<and> set (gOrder g) = set (nodeIDs (fdNodes def))
     \<and> sources_first (fdEdges def) (gOrder g)"

lemma kahn_start:
  assumes "\<And>k. gget 0 deg k = int (length (filter (\<lambda>e. eTarget e = k) es))" "distinct ids"
  shows "kahn_inv es (set ids) deg (filter (\<lambda>i. gget 0 deg i = 0) ids) []"
  using assms by (auto simp: kahn_inv_def waiting_def sources_first_def)

lemma gkeys_nodes [simp]: "gkeys (map (\<lambda>n. (nID n, n)) ns) = nodeIDs ns"
  by (simp add: gkeys_def nodeIDs_def comp_def)

lemma buildGraph_kahn:
  assumes nodes: "distinct (nodeIDs ns)"
    and edges: "addEdges (map (\<lambda>n. (nID n, n)) ns) es [] (initDegrees (nodeIDs ns)) = Inr (adj, deg)"
    and run: "kahn adj deg (filter (\<lambda>i. gget 0 deg i = 0) (nodeIDs ns)) [] (int (length ns)) = (order, r)"
  shows "gget [] adj s = filter (\<lambda>e. eSource e = s) es"
    and "r = 0 \<longleftrightarrow> acyclic (edgeRel es)"
    and "r = 0 \<Longrightarrow> distinct order \<and> set order = set (nodeIDs ns) \<and> sources_first es order"
proof -
  let ?V = "set (nodeIDs ns)"
  have closed: "\<forall>e\<in>set es. eSource e \<in> ?V \<and> eTarget e \<in> ?V"
    using addEdges_ok_iff [of "map (\<lambda>n. (nID n, n)) ns" es "[]" "initDegrees (nodeIDs ns)"] edges by simp
  note res = addEdges_result [OF edges, simplified initDegrees_zero, simplified]
  show adj: "gget [] adj s = filter (\<lambda>e. eSource e = s) es" for s by (rule res(1))
  from kahn_result [OF kahn_start [OF res(2) nodes] closed adj run]
  obtain deg' where inv: "kahn_inv es ?V deg' [] order" and r: "r + int (length order) = int (length ns)" by auto
  have sub: "distinct order" "set order \<subseteq> ?V" "sources_first es order" using inv by (auto simp: kahn_inv_def)
  have "card ?V = length ns" using distinct_card [OF nodes] by (simp add: nodeIDs_def)
  with r sub distinct_card [of order] have full: "r = 0 \<longleftrightarrow> set order = ?V"
    by (metis List.finite_set add_0 card_subset_eq of_nat_eq_iff add_right_cancel)
  with sub show "r = 0 \<Longrightarrow> distinct order \<and> set order = set (nodeIDs ns) \<and> sources_first es order" by simp
  show "r = 0 \<longleftrightarrow> acyclic (edgeRel es)"
    using full kahn_complete [OF inv closed] sources_first_acyclic [OF sub(3)] closed by blast
qed

lemma buildGraph_ok:
  assumes "buildGraph def = Inr g"
  shows "validFlow def \<and> graphOf def g"
proof -
  from assms obtain nodes adj deg order where
    n: "addNodes (fdNodes def) [] 0 = Inr (nodes, 1)"
    and e: "addEdges nodes (fdEdges def) [] (initDegrees (nodeIDs (fdNodes def))) = Inr (adj, deg)"
    and k: "snd (kahn adj deg (filter (\<lambda>i. gget 0 deg i = 0) (nodeIDs (fdNodes def))) [] (int (length (fdNodes def)))) = 0"
      "fst (kahn adj deg (filter (\<lambda>i. gget 0 deg i = 0) (nodeIDs (fdNodes def))) [] (int (length (fdNodes def)))) = order"
    and g: "g = \<lparr>gNodes = nodes, gEdges = fdEdges def, gAdj = adj, gOrder = order\<rparr>"
    by (auto simp: buildGraph_def bind_res_Inr_iff Let_def case_prod_beta split: if_split_asm)
  from k have k: "kahn adj deg (filter (\<lambda>i. gget 0 deg i = 0) (nodeIDs (fdNodes def))) [] (int (length (fdNodes def))) = (order, 0)"
    by (metis prod.collapse)
  from n have nodes: "nodes = map (\<lambda>n. (nID n, n)) (fdNodes def)" "distinct (nodeIDs (fdNodes def))"
    by (auto simp: addNodes_iff)
  note K = buildGraph_kahn [OF nodes(2) e [unfolded nodes(1)] k]
  have "is_ok (addEdges nodes (fdEdges def) [] (initDegrees (nodeIDs (fdNodes def))))" using e by simp
  then have "\<forall>x\<in>set (fdEdges def). eSource x \<in> set (nodeIDs (fdNodes def)) \<and> eTarget x \<in> set (nodeIDs (fdNodes def))"
    unfolding addEdges_ok_iff nodes(1) by simp
  with n K nodes g show ?thesis by (auto simp: validFlow_def graphOf_def addNodes_iff)
qed

lemma buildGraph_accepts:
  assumes "validFlow def"
  shows "\<exists>g. buildGraph def = Inr g"
proof -
  let ?nodes = "map (\<lambda>n. (nID n, n)) (fdNodes def)"
  have ne: "fdNodes def \<noteq> []" using assms by (auto simp: validFlow_def)
  have n: "addNodes (fdNodes def) [] 0 = Inr (?nodes, 1)"
    using assms by (auto simp: validFlow_def addNodes_iff)
  have "is_ok (addEdges ?nodes (fdEdges def) [] (initDegrees (nodeIDs (fdNodes def))))"
    using assms unfolding addEdges_ok_iff gkeys_nodes by (simp add: validFlow_def)
  then obtain adj deg where e: "addEdges ?nodes (fdEdges def) [] (initDegrees (nodeIDs (fdNodes def))) = Inr (adj, deg)"
    by (auto simp: is_ok_def split: sum.splits)
  obtain order r where k: "kahn adj deg (filter (\<lambda>i. gget 0 deg i = 0) (nodeIDs (fdNodes def))) [] (int (length (fdNodes def))) = (order, r)"
    by force
  have "r = 0" using buildGraph_kahn(2) [OF _ e k] assms by (simp add: validFlow_def)
  with ne n e k show ?thesis by (simp add: buildGraph_def)
qed

lemma trigger_unique:
  assumes "length (filter P xs) = 1" "x \<in> set xs" "P x" "y \<in> set xs" "P y"
  shows "x = y"
proof -
  obtain z where "filter P xs = [z]" using assms(1) by (auto simp: length_Suc_conv)
  moreover have "x \<in> set (filter P xs)" "y \<in> set (filter P xs)" using assms by simp_all
  ultimately show ?thesis by (simp only: list.set) blast
qed

lemma glookup_nodes: "distinct (nodeIDs ns) \<Longrightarrow> n \<in> set ns \<Longrightarrow> glookup (map (\<lambda>n. (nID n, n)) ns) (nID n) = Some n"
  by (auto simp: glookup_def nodeIDs_def comp_def intro!: map_of_is_SomeI)

lemma Trigger_graph:
  assumes "validFlow def" "graphOf def g" "go_range_order rng" "n \<in> set (fdNodes def)" "nType n = NodeTypeTrigger"
  shows "Trigger rng g = Inr n"
proof -
  have "gNodes g = map (\<lambda>n. (nID n, n)) (fdNodes def)" "wf_gomap (gNodes g)"
    using assms(1,2) by (simp_all add: graphOf_def validFlow_def wf_gomap_def)
  moreover from this(1) have "map snd (gNodes g) = fdNodes def" by (simp add: comp_def)
  ultimately have "mset (gvalues rng (gNodes g)) = mset (fdNodes def)"
    using mset_gvalues [OF assms(3), of "gNodes g"] by (simp only:)
  then have vals: "set (gvalues rng (gNodes g)) = set (fdNodes def)" by (rule mset_eq_setD)
  from find_witness [of n "gvalues rng (gNodes g)" "\<lambda>n. nType n = NodeTypeTrigger", unfolded vals, OF assms(4,5)]
  obtain m where m: "find (\<lambda>n. nType n = NodeTypeTrigger) (gvalues rng (gNodes g)) = Some m"
    and "m \<in> set (fdNodes def)" "nType m = NodeTypeTrigger" by (elim exE conjE)
  moreover have "length (filter (\<lambda>n. nType n = NodeTypeTrigger) (fdNodes def)) = 1"
    using assms(1) by (simp only: validFlow_def)
  ultimately have "m = n"
    by (intro trigger_unique [where P = "\<lambda>n. nType n = NodeTypeTrigger" and xs = "fdNodes def", OF _ _ _ assms(4,5)])
  with m show ?thesis by (simp add: Trigger_def)
qed

lemma Trigger_exists:
  assumes "validFlow def"
  shows "\<exists>n\<in>set (fdNodes def). nType n = NodeTypeTrigger"
proof (rule ccontr)
  assume "\<not> ?thesis"
  then have "filter (\<lambda>n. nType n = NodeTypeTrigger) (fdNodes def) = []" by (simp only: filter_empty_conv) blast
  moreover have "length (filter (\<lambda>n. nType n = NodeTypeTrigger) (fdNodes def)) = 1"
    using assms by (simp only: validFlow_def)
  ultimately show False by (simp only: list.size)
qed

lemma graphOf_edges: "graphOf def g \<Longrightarrow> OutgoingEdges g s h = filter (\<lambda>e. eSource e = s \<and> eSourceHandle e = h) (fdEdges def)"
  by (simp add: graphOf_def OutgoingEdges_def)

text \<open>A small document, for the concrete instances: a trigger, a condition with two branches that
  meet in an output.\<close>

definition emptyNode :: Node where
  "emptyNode = \<lparr>nID = '''', nType = '''', nName = '''', nTriggerType = '''', nSchedule = '''', nAgentID = '''',
     nServerID = '''', nTool = '''', nArguments = [], nExpression = '''', nKind = '''', nTarget = '''',
     nValue = VNil, nMethod = ''''\<rparr>"

definition mkEdge :: "string \<Rightarrow> string \<Rightarrow> string \<Rightarrow> Edge" where
  "mkEdge s h t = \<lparr>eID = '''', eSource = s, eSourceHandle = h, eTarget = t, eTargetHandle = ''''\<rparr>"

definition sampleFlow :: FlowDef where
  "sampleFlow = \<lparr>fdID = ''f'', fdName = ''f'',
     fdNodes = [emptyNode \<lparr>nID := ''o'', nType := NodeTypeOutput, nKind := OutputFile, nTarget := ''/tmp/a'', nValue := VString ''v''\<rparr>,
                emptyNode \<lparr>nID := ''c'', nType := NodeTypeCondition, nExpression := ''result.triggered''\<rparr>,
                emptyNode \<lparr>nID := ''t'', nType := NodeTypeTrigger\<rparr>],
     fdEdges = [mkEdge ''c'' ''true'' ''o'', mkEdge ''t'' '''' ''c'', mkEdge ''c'' ''false'' ''o'']\<rparr>"

definition sampleGraph :: Graph where
  "sampleGraph = (case buildGraph sampleFlow of
      Inr g \<Rightarrow> g
    | Inl _ \<Rightarrow> \<lparr>gNodes = [], gEdges = [], gAdj = [], gOrder = []\<rparr>)"

lemma sampleGraph_ok: "buildGraph sampleFlow = Inr sampleGraph"
  by code_simp

definition closedEdges :: "FlowDef \<Rightarrow> bool" where
  "closedEdges def \<longleftrightarrow>
     (\<forall>e\<in>set (fdEdges def). eSource e \<in> set (nodeIDs (fdNodes def)) \<and> eTarget e \<in> set (nodeIDs (fdNodes def)))"

lemma addNodes_not_cycle: "addNodes ns m t \<noteq> Inl GraphCycle"
  by (induction ns m t rule: addNodes.induct) (auto simp: bind_res_Inl_iff validateNode_def split: if_split_asm)

lemma addEdges_not_cycle: "addEdges nodes es adj deg \<noteq> Inl GraphCycle"
  by (induction nodes es adj deg rule: addEdges.induct) (auto split: if_split_asm)

section \<open>Properties\<close>

text \<open>C10: A flow document is accepted exactly when it is valid: it has nodes with distinct
  non-empty ids, every node passes \<open>validateNode\<close>, exactly one node is a trigger, every edge joins nodes of the
  document, and the edges form no cycle. So Kahn's algorithm detects every cycle and reports none
  that is not there.\<close>

theorem buildGraph_accepts_iff: "(\<exists>g. buildGraph def = Inr g) \<longleftrightarrow> validFlow def"
  using buildGraph_ok buildGraph_accepts by blast

text \<open>C15: The order of an accepted graph lists every node id once, and every edge goes from an earlier
  to a later position.\<close>

theorem TopologicalOrder_topological:
  assumes "buildGraph def = Inr g"
  shows "distinct (TopologicalOrder g) \<and> set (TopologicalOrder g) = set (nodeIDs (fdNodes def))
    \<and> (\<forall>e\<in>set (fdEdges def). pos (TopologicalOrder g) (eSource e) < pos (TopologicalOrder g) (eTarget e))"
proof -
  from buildGraph_ok [OF assms] have v: "validFlow def" and g: "graphOf def g" by simp_all
  then have "\<forall>e\<in>set (fdEdges def). eTarget e \<in> set (gOrder g)" by (simp add: validFlow_def graphOf_def)
  with g sources_first_pos show ?thesis unfolding graphOf_def TopologicalOrder_def by blast
qed

theorem TopologicalOrder_topological_witness:
  "TopologicalOrder sampleGraph = [''t'', ''c'', ''o''] \<and> distinct (TopologicalOrder sampleGraph)
   \<and> pos (TopologicalOrder sampleGraph) ''c'' < pos (TopologicalOrder sampleGraph) ''o''"
proof -
  have "mkEdge ''c'' ''true'' ''o'' \<in> set (fdEdges sampleFlow)" by (simp add: sampleFlow_def)
  with TopologicalOrder_topological [OF sampleGraph_ok]
  have "pos (TopologicalOrder sampleGraph) (eSource (mkEdge ''c'' ''true'' ''o''))
      < pos (TopologicalOrder sampleGraph) (eTarget (mkEdge ''c'' ''true'' ''o''))"
    and d: "distinct (TopologicalOrder sampleGraph)" by blast+
  moreover have "TopologicalOrder sampleGraph = [''t'', ''c'', ''o'']" by code_simp
  ultimately show ?thesis by (simp add: mkEdge_def)
qed

text \<open>An accepted graph answers its queries from the document, whatever order Go visits its
  node map in: \<open>Trigger\<close> is the one trigger node, and \<open>OutgoingEdges\<close> are the edges with that source and handle in
  the order they are declared.\<close>

theorem graph_queries:
  assumes "buildGraph def = Inr g" and "go_range_order rng"
  shows "(\<exists>n\<in>set (fdNodes def). nType n = NodeTypeTrigger \<and> Trigger rng g = Inr n)
    \<and> OutgoingEdges g s h = filter (\<lambda>e. eSource e = s \<and> eSourceHandle e = h) (fdEdges def)"
proof -
  from buildGraph_ok [OF assms(1)] have v: "validFlow def" and g: "graphOf def g" by simp_all
  from Trigger_exists [OF v] obtain n where n: "n \<in> set (fdNodes def)" "nType n = NodeTypeTrigger" by (elim bexE)
  from Trigger_graph [OF v g assms(2) n] n(2) have "nType n = NodeTypeTrigger \<and> Trigger rng g = Inr n" by (intro conjI)
  then have "\<exists>n\<in>set (fdNodes def). nType n = NodeTypeTrigger \<and> Trigger rng g = Inr n" using n(1) by (rule bexI)
  with graphOf_edges [OF g] show ?thesis by (intro conjI)
qed

theorem graph_queries_witness:
  "\<exists>n. nType n = NodeTypeTrigger \<and> Trigger rev sampleGraph = Inr n"
  using graph_queries [OF sampleGraph_ok go_range_order_rev, of "''c''" "''true''"] by (elim conjE bexE) (rule exI, rule conjI)

text \<open>A document that is valid but for a cycle is refused with the cycle error, and only such
  a document is.\<close>

theorem buildGraph_cycle_iff:
  "buildGraph def = Inl GraphCycle \<longleftrightarrow>
     validFlow (def \<lparr>fdEdges := []\<rparr>) \<and> closedEdges def \<and> \<not> acyclic (edgeRel (fdEdges def))"
proof
  assume "buildGraph def = Inl GraphCycle"
  then obtain nodes adj deg where n: "addNodes (fdNodes def) [] 0 = Inr (nodes, 1)"
    and e: "addEdges nodes (fdEdges def) [] (initDegrees (nodeIDs (fdNodes def))) = Inr (adj, deg)"
    and k: "snd (kahn adj deg (filter (\<lambda>i. gget 0 deg i = 0) (nodeIDs (fdNodes def))) [] (int (length (fdNodes def)))) \<noteq> 0"
    by (auto simp: buildGraph_def bind_res_Inl_iff Let_def case_prod_beta addNodes_not_cycle addEdges_not_cycle
        split: if_split_asm)
  from n have nodes: "nodes = map (\<lambda>n. (nID n, n)) (fdNodes def)" "distinct (nodeIDs (fdNodes def))"
    and v: "validFlow (def \<lparr>fdEdges := []\<rparr>)"
    by (auto simp: addNodes_iff validFlow_def edgeRel_def acyclic_def)
  have "is_ok (addEdges nodes (fdEdges def) [] (initDegrees (nodeIDs (fdNodes def))))" using e by simp
  then have c: "closedEdges def" unfolding addEdges_ok_iff nodes(1) by (simp add: closedEdges_def)
  from buildGraph_kahn(2) [OF nodes(2) e [unfolded nodes(1)] prod.collapse [symmetric]] k v c
  show "validFlow (def \<lparr>fdEdges := []\<rparr>) \<and> closedEdges def \<and> \<not> acyclic (edgeRel (fdEdges def))" by simp
next
  let ?nodes = "map (\<lambda>n. (nID n, n)) (fdNodes def)"
  assume a: "validFlow (def \<lparr>fdEdges := []\<rparr>) \<and> closedEdges def \<and> \<not> acyclic (edgeRel (fdEdges def))"
  then have ne: "fdNodes def \<noteq> []" and n: "addNodes (fdNodes def) [] 0 = Inr (?nodes, 1)"
    and d: "distinct (nodeIDs (fdNodes def))"
    by (auto simp: validFlow_def addNodes_iff)
  from a have "is_ok (addEdges ?nodes (fdEdges def) [] (initDegrees (nodeIDs (fdNodes def))))"
    unfolding addEdges_ok_iff gkeys_nodes by (simp add: closedEdges_def)
  then obtain adj deg where e: "addEdges ?nodes (fdEdges def) [] (initDegrees (nodeIDs (fdNodes def))) = Inr (adj, deg)"
    by (auto simp: is_ok_def split: sum.splits)
  from buildGraph_kahn(2) [OF d e prod.collapse [symmetric]] a ne n e
  show "buildGraph def = Inl GraphCycle" by (simp add: buildGraph_def case_prod_beta Let_def)
qed

end
