(* ===== verification/Side_Effects.thy ===== *)
theory Side_Effects
  imports Values
begin

text \<open>
  Side effects and their rollback (\<open>internal/flow/rollback.go\<close>).

  The Go interface \<open>SideEffectStore\<close> is the record \<open>SideEffectStore\<close> of its two operations on a
  state of type \<open>'s\<close>; \<open>rollbackLog\<close> calls a store through it. \<open>memorySideEffects\<close> is the
  in-memory implementation; its mutex makes every operation one step. \<open>uuid.NewString()\<close> is the argument \<open>uid\<close>.

  The locale \<open>side_effect_store\<close> is the contract of a store: an undo brings back the view that the
  apply replaced. A log of applied effects is then reversible, which is proved once in the locale; the
  in-memory store is an instance.
\<close>

section \<open>Definitions\<close>

record Effect =
  efKind :: string
  efTarget :: string
  efValue :: any
  efMeta :: "(string, any) gomap"

record EffectRecord =
  erID :: string
  erEffect :: Effect
  erPrior :: any

record 's SideEffectStore =
  seApply :: "string \<Rightarrow> Effect \<Rightarrow> 's \<Rightarrow> (string, EffectRecord) result \<times> 's"
  seUndo :: "EffectRecord \<Rightarrow> 's \<Rightarrow> string option \<times> 's"

record MemorySideEffectStore =
  msData :: "(string, any) gomap"
  msUndoLog :: "EffectRecord list"

definition NewMemorySideEffectStore :: MemorySideEffectStore where
  "NewMemorySideEffectStore = \<lparr>msData = [], msUndoLog = []\<rparr>"

definition key :: "string \<Rightarrow> string \<Rightarrow> string" where
  "key kind target = kind @ '':'' @ target"

definition Apply :: "string \<Rightarrow> Effect \<Rightarrow> MemorySideEffectStore
    \<Rightarrow> (string, EffectRecord) result \<times> MemorySideEffectStore" where
  "Apply uid e m =
     (let k = key (efKind e) (efTarget e);
          r = \<lparr>erID = uid, erEffect = e, erPrior = gget VNil (msData m) k\<rparr>
      in (Inr r, m \<lparr>msData := gput k (efValue e) (msData m)\<rparr>))"

definition Undo :: "EffectRecord \<Rightarrow> MemorySideEffectStore \<Rightarrow> string option \<times> MemorySideEffectStore" where
  "Undo r m =
     (let k = key (efKind (erEffect r)) (efTarget (erEffect r));
          d = (if erPrior r = VNil then gdelete k (msData m) else gput k (erPrior r) (msData m))
      in (None, m \<lparr>msData := d, msUndoLog := msUndoLog m @ [r]\<rparr>))"

definition Value :: "MemorySideEffectStore \<Rightarrow> string \<Rightarrow> string \<Rightarrow> any option" where
  "Value m kind target = glookup (msData m) (key kind target)"

definition UndoLog :: "MemorySideEffectStore \<Rightarrow> EffectRecord list" where
  "UndoLog m = msUndoLog m"

definition memorySideEffects :: "MemorySideEffectStore SideEffectStore" where
  "memorySideEffects = \<lparr>seApply = Apply, seUndo = Undo\<rparr>"

text \<open>\<open>rollbackLog\<close>: the records of one execution, oldest first, next to the state of the store.\<close>

type_synonym 's rollbackLog = "EffectRecord list \<times> 's"

fun rb_apply :: "'s SideEffectStore \<Rightarrow> string \<Rightarrow> Effect \<Rightarrow> 's rollbackLog \<Rightarrow> string option \<times> 's rollbackLog" where
  "rb_apply ops uid e (records, s) = (case seApply ops uid e s of
      (Inl err, s') \<Rightarrow> (Some err, records, s')
    | (Inr r, s') \<Rightarrow> (None, records @ [r], s'))"

fun undoAll :: "'s SideEffectStore \<Rightarrow> EffectRecord list \<Rightarrow> 's \<Rightarrow> string list \<times> 's" where
  "undoAll ops [] s = ([], s)"
| "undoAll ops (r # rs) s =
     (let (err, s') = seUndo ops r s; (errs, s'') = undoAll ops rs s'
      in (case err of None \<Rightarrow> errs | Some x \<Rightarrow> x # errs, s''))"

fun rollback :: "'s SideEffectStore \<Rightarrow> 's rollbackLog \<Rightarrow> string list \<times> 's rollbackLog" where
  "rollback ops (records, s) = (let (errs, s') = undoAll ops (rev records) s in (errs, [], s'))"

text \<open>Effects applied one after the other through a log.\<close>

fun rb_applyAll :: "'s SideEffectStore \<Rightarrow> (string \<times> Effect) list \<Rightarrow> 's rollbackLog \<Rightarrow> 's rollbackLog" where
  "rb_applyAll ops [] rb = rb"
| "rb_applyAll ops ((uid, e) # es) rb = rb_applyAll ops es (snd (rb_apply ops uid e rb))"

section \<open>The contract of a store\<close>

text \<open>\<open>reversible ops view s0 records s\<close>: undoing the records, newest first, from a state that looks like
  \<open>s\<close> reports no error and gives a state that looks like \<open>s0\<close>.\<close>

definition reversible :: "'s SideEffectStore \<Rightarrow> ('s \<Rightarrow> string \<Rightarrow> any) \<Rightarrow> 's \<Rightarrow> EffectRecord list \<Rightarrow> 's \<Rightarrow> bool" where
  "reversible ops view s0 records s \<longleftrightarrow>
     (\<forall>t. view t = view s \<longrightarrow> (\<exists>t'. undoAll ops (rev records) t = ([], t') \<and> view t' = view s0))"

locale side_effect_store =
  fixes ops :: "'s SideEffectStore" and view :: "'s \<Rightarrow> string \<Rightarrow> any"
  assumes apply_error: "seApply ops uid e s = (Inl err, s') \<Longrightarrow> view s' = view s"
    and apply_view: "seApply ops uid e s = (Inr r, s') \<Longrightarrow>
      view s' = (view s)(key (efKind e) (efTarget e) := efValue e)"
    and apply_undo: "seApply ops uid e s = (Inr r, s') \<Longrightarrow> view t = view s' \<Longrightarrow>
      \<exists>t'. seUndo ops r t = (None, t') \<and> view t' = view s"
begin

lemma reversible_refl: "reversible ops view s [] s"
  by (simp add: reversible_def)

lemma reversible_apply:
  assumes rev: "reversible ops view s0 records s" and step: "rb_apply ops uid e (records, s) = (err, records', s')"
  shows "reversible ops view s0 records' s'"
proof (cases "seApply ops uid e s")
  case (Pair res s1)
  show ?thesis
  proof (cases res)
    case (Inl x)
    with Pair step rev apply_error [of uid e s x s1] show ?thesis by (auto simp: reversible_def)
  next
    case (Inr r)
    with Pair step have s': "records' = records @ [r]" "s' = s1" by auto
    have "\<exists>t'. undoAll ops (rev (records @ [r])) t = ([], t') \<and> view t' = view s0" if t: "view t = view s1" for t
    proof -
      from apply_undo [OF Pair [unfolded Inr] t] obtain t1 where "seUndo ops r t = (None, t1)" "view t1 = view s" by blast
      with rev show ?thesis by (auto simp: reversible_def)
    qed
    with s' show ?thesis by (simp add: reversible_def)
  qed
qed

lemma reversible_applyAll:
  "reversible ops view s0 (fst rb) (snd rb) \<Longrightarrow>
     reversible ops view s0 (fst (rb_applyAll ops es rb)) (snd (rb_applyAll ops es rb))"
proof (induction es arbitrary: rb)
  case (Cons p es)
  obtain records s where rb: "rb = (records, s)" by force
  obtain uid e where p: "p = (uid, e)" by force
  obtain err records' s' where st: "rb_apply ops uid e (records, s) = (err, records', s')" by (metis prod_cases3)
  from Cons.prems rb have "reversible ops view s0 records s" by simp
  from reversible_apply [OF this st] Cons.IH [of "(records', s')"] st rb p show ?case by simp
qed simp

lemma rollback_reversible:
  assumes "reversible ops view s0 records s"
  shows "\<exists>t. rollback ops (records, s) = ([], [], t) \<and> view t = view s0"
  using assms by (auto simp: reversible_def)

end

section \<open>The in-memory store is a side-effect store\<close>

lemma memorySideEffects_simps [simp]:
  "seApply memorySideEffects = Apply" "seUndo memorySideEffects = Undo"
  by (simp_all add: memorySideEffects_def)

definition memView :: "MemorySideEffectStore \<Rightarrow> string \<Rightarrow> any" where
  "memView m = gget VNil (msData m)"

lemma memView_put: "memView (m \<lparr>msData := gput k v (msData m)\<rparr>) = (memView m)(k := v)"
  by (auto simp: memView_def)

interpretation mem: side_effect_store memorySideEffects memView
proof unfold_locales
  fix uid e err and s s' :: MemorySideEffectStore
  show "seApply memorySideEffects uid e s = (Inl err, s') \<Longrightarrow> memView s' = memView s"
    by (simp add: Apply_def Let_def)
next
  fix uid e r and s s' :: MemorySideEffectStore
  assume "seApply memorySideEffects uid e s = (Inr r, s')"
  then show "memView s' = (memView s)(key (efKind e) (efTarget e) := efValue e)"
    by (auto simp: Apply_def Let_def memView_def)
next
  fix uid e r and s s' t :: MemorySideEffectStore
  assume a: "seApply memorySideEffects uid e s = (Inr r, s')" and t: "memView t = memView s'"
  let ?k = "key (efKind e) (efTarget e)"
  from a have r: "r = \<lparr>erID = uid, erEffect = e, erPrior = gget VNil (msData s) ?k\<rparr>"
    and s': "memView s' = (memView s)(?k := efValue e)"
    by (auto simp: Apply_def Let_def memView_def)
  have "memView (snd (Undo r t)) k = memView s k" for k
    using fun_cong [OF t, of k] s' by (simp add: r Undo_def Let_def memView_def split: if_splits)
  then have "memView (snd (Undo r t)) = memView s" ..
  then show "\<exists>t'. seUndo memorySideEffects r t = (None, t') \<and> memView t' = memView s"
    by (auto simp: Undo_def Let_def)
qed

section \<open>More about the in-memory store\<close>

lemma key_inj:
  assumes "CHR '':'' \<notin> set k" "CHR '':'' \<notin> set k'" "key k t = key k' t'"
  shows "k = k' \<and> t = t'"
  using assms
proof (induction k arbitrary: k')
  case Nil
  then show ?case by (cases k') (auto simp: key_def)
next
  case (Cons c k)
  then show ?case by (cases k') (auto simp: key_def)
qed

lemma undoAll_memory:
  "fst (undoAll memorySideEffects rs m) = []
   \<and> msUndoLog (snd (undoAll memorySideEffects rs m)) = msUndoLog m @ rs"
  by (induction rs arbitrary: m)
    (auto simp: Undo_def Let_def case_prod_beta split: option.splits)

definition recKey :: "EffectRecord \<Rightarrow> string" where
  "recKey r = key (efKind (erEffect r)) (efTarget (erEffect r))"

lemma undoAll_frame:
  "k \<notin> recKey ` set rs \<Longrightarrow> glookup (msData (snd (undoAll memorySideEffects rs m))) k = glookup (msData m) k"
  by (induction rs arbitrary: m)
    (auto simp: Undo_def Let_def case_prod_beta recKey_def)

text \<open>No undo leaves a nil value where there was none.\<close>

definition noNil :: "MemorySideEffectStore \<Rightarrow> bool" where
  "noNil m \<longleftrightarrow> VNil \<notin> set (map snd (msData m))"

lemma undoAll_last:
  "k \<in> recKey ` set rs \<Longrightarrow> glookup (msData (snd (undoAll memorySideEffects rs m))) k \<noteq> Some VNil"
proof (induction rs arbitrary: m)
  case (Cons r rs)
  then show ?case
    by (cases "k \<in> recKey ` set rs")
      (auto simp: undoAll_frame Undo_def Let_def case_prod_beta recKey_def)
qed simp

text \<open>\<open>logCovers m0 records m\<close>: the two states differ only at keys that the records name.\<close>

definition logCovers :: "MemorySideEffectStore \<Rightarrow> EffectRecord list \<Rightarrow> MemorySideEffectStore \<Rightarrow> bool" where
  "logCovers m0 records m \<longleftrightarrow> (\<forall>k. k \<notin> recKey ` set records \<longrightarrow> glookup (msData m) k = glookup (msData m0) k)"

lemma logCovers_refl [simp]: "logCovers m [] m"
  by (simp add: logCovers_def)

lemma logCovers_apply:
  "logCovers m0 records m \<Longrightarrow> rb_apply memorySideEffects uid e (records, m) = (err, records', m') \<Longrightarrow> logCovers m0 records' m'"
  by (auto simp: logCovers_def Apply_def Let_def recKey_def)

lemma logCovers_applyAll:
  "logCovers m0 (fst rb) (snd rb) \<Longrightarrow>
     logCovers m0 (fst (rb_applyAll memorySideEffects es rb)) (snd (rb_applyAll memorySideEffects es rb))"
proof (induction es arbitrary: rb)
  case (Cons p es)
  obtain uid e where p: "p = (uid, e)" by force
  obtain err records' m' where s: "rb_apply memorySideEffects uid e rb = (err, records', m')" by (metis prod_cases3)
  from logCovers_apply [of m0 "fst rb" "snd rb", simplified, OF Cons.prems s] Cons.IH [of "(records', m')"] s p
  show ?case by simp
qed simp

lemma glookup_noNil: "noNil m \<Longrightarrow> glookup (msData m) k \<noteq> Some VNil"
  by (force simp: noNil_def dest: glookup_in_set)

lemma gget_eq_glookup:
  "gget VNil d k = gget VNil d' k \<Longrightarrow> glookup d k \<noteq> Some VNil \<Longrightarrow> glookup d' k \<noteq> Some VNil \<Longrightarrow> glookup d k = glookup d' k"
  by (auto simp: gget_def split: option.splits)

lemma memory_rollback_exact:
  assumes "noNil m0" "reversible memorySideEffects memView m0 records m" "logCovers m0 records m"
    and "rollback memorySideEffects (records, m) = (errs, records', m')"
  shows "errs = []" "records' = []" "glookup (msData m') k = glookup (msData m0) k" "msUndoLog m' = msUndoLog m @ rev records"
proof -
  from mem.rollback_reversible [OF assms(2)] assms(4)
  show "errs = []" "records' = []" by auto
  from mem.rollback_reversible [OF assms(2)] assms(4) have v: "memView m' = memView m0" by auto
  have m': "m' = snd (undoAll memorySideEffects (rev records) m)"
    using assms(4) by (auto simp: Let_def case_prod_beta)
  with undoAll_memory [of "rev records" m] show "msUndoLog m' = msUndoLog m @ rev records" by simp
  show "glookup (msData m') k = glookup (msData m0) k"
  proof (cases "k \<in> recKey ` set records")
    case True
    with undoAll_last [of k "rev records" m] m' have "glookup (msData m') k \<noteq> Some VNil" by simp
    with glookup_noNil [OF assms(1), of k] fun_cong [OF v, of k] show ?thesis
      unfolding memView_def by (intro gget_eq_glookup)
  next
    case False
    with undoAll_frame [of k "rev records" m] assms(3) m' show ?thesis by (simp add: logCovers_def)
  qed
qed

section \<open>Properties\<close>

definition sampleEffect :: "string \<Rightarrow> any \<Rightarrow> Effect" where
  "sampleEffect target v = \<lparr>efKind = ''file'', efTarget = target, efValue = v, efMeta = []\<rparr>"

definition sampleStore :: MemorySideEffectStore where
  "sampleStore = \<lparr>msData = [(''file:a'', VInt 1)], msUndoLog = []\<rparr>"



text \<open>A rollback leaves alone what its own log does not name, whatever other executions did to the store in
  between: the kinds the engine writes have no colon, so a kind and target that no record of the log carries
  keeps its value.\<close>

theorem rollback_frame:
  assumes "rollback memorySideEffects (records, m) = (errs, records', m')"
    and "\<forall>r\<in>set records. CHR '':'' \<notin> set (efKind (erEffect r))
          \<and> (efKind (erEffect r), efTarget (erEffect r)) \<noteq> (kind, target)"
    and "CHR '':'' \<notin> set kind"
  shows "Value m' kind target = Value m kind target"
proof -
  have "key kind target \<notin> recKey ` set (rev records)"
  proof
    assume "key kind target \<in> recKey ` set (rev records)"
    then obtain r where r: "r \<in> set records" "key (efKind (erEffect r)) (efTarget (erEffect r)) = key kind target"
      by (auto simp: recKey_def)
    from assms(2) r(1) have "CHR '':'' \<notin> set (efKind (erEffect r))"
      and ne: "(efKind (erEffect r), efTarget (erEffect r)) \<noteq> (kind, target)" by blast+
    from key_inj [OF this(1) assms(3) r(2)] ne show False by blast
  qed
  from undoAll_frame [OF this, of m] assms(1) show ?thesis
    by (auto simp: Value_def Let_def case_prod_beta)
qed

theorem rollback_frame_witness:
  "Value (snd (snd (rollback memorySideEffects ([\<lparr>erID = ''u'', erEffect = sampleEffect ''b'' (VInt 2), erPrior = VNil\<rparr>], sampleStore))))
     ''file'' ''a'' = Value sampleStore ''file'' ''a''"
proof -
  let ?rb = "([\<lparr>erID = ''u'', erEffect = sampleEffect ''b'' (VInt 2), erPrior = VNil\<rparr>], sampleStore)"
  obtain errs records' m' where r: "rollback memorySideEffects ?rb = (errs, records', m')" by (rule prod_cases3)
  have "Value m' ''file'' ''a'' = Value sampleStore ''file'' ''a''"
    by (rule rollback_frame [OF r]) (simp_all add: sampleEffect_def)
  with r show ?thesis by simp
qed

text \<open>A nil that was stored before is lost: undoing an effect on a key that held nil removes the key,
  where the comment says that the prior value is restored.\<close>

theorem undo_drops_nil:
  "(let m = \<lparr>msData = [(''file:a'', VNil)], msUndoLog = []\<rparr>;
        rb = rb_applyAll memorySideEffects [(''u'', sampleEffect ''a'' (VInt 5))] ([], m)
    in Value m ''file'' ''a'' = Some VNil \<and> Value (snd (snd (rollback memorySideEffects rb))) ''file'' ''a'' = None)"
  by code_simp



end
