(* ===== verification/Store_Models.thy ===== *)
theory Store_Models
  imports Prelude
begin

text \<open>
  The resources of the platform (\<open>internal/store/models.go\<close>) and the sentinel errors of
  \<open>internal/store/store.go\<close>.

  A \<open>time.Time\<close> is an instant, an \<open>int\<close>; \<open>Before\<close> is \<open><\<close>. A \<open>json.RawMessage\<close> is its bytes, empty for nil.
  \<open>RunStatus\<close>, \<open>TaskStatus\<close>, \<open>SubtaskStatus\<close> and \<open>Role\<close> are Go string types and stay strings: roles come in from
  requests and tokens and need not be one of the constants.
\<close>

type_synonym time = int
type_synonym raw = string

datatype store_error = ErrNotFound | ErrConflict | ErrInvalid | ErrUnauthorized

abbreviation "RunStatusPending \<equiv> ''pending''"
abbreviation "RunStatusRunning \<equiv> ''running''"
abbreviation "RunStatusSuccess \<equiv> ''success''"
abbreviation "RunStatusFailed \<equiv> ''failed''"
abbreviation "RunStatusRolledBack \<equiv> ''rolled_back''"

abbreviation "TaskStatusPending \<equiv> ''pending''"
abbreviation "TaskStatusRunning \<equiv> ''running''"
abbreviation "TaskStatusSuccess \<equiv> ''success''"
abbreviation "TaskStatusFailed \<equiv> ''failed''"

abbreviation "SubtaskStatusPending \<equiv> ''pending''"
abbreviation "SubtaskStatusRunning \<equiv> ''running''"
abbreviation "SubtaskStatusSuccess \<equiv> ''success''"
abbreviation "SubtaskStatusFailed \<equiv> ''failed''"

abbreviation "RoleViewer \<equiv> ''viewer''"
abbreviation "RoleOperator \<equiv> ''operator''"
abbreviation "RoleOwner \<equiv> ''owner''"

record Skill =
  skName :: string
  skServerID :: string
  skTool :: string

record Agent =
  agID :: string
  agTenantID :: string
  agName :: string
  agProfile :: string
  agSystemPrompt :: string
  agSkills :: "Skill list"
  agEnabled :: bool
  agCreatedAt :: time
  agUpdatedAt :: time

record McpServer =
  msvID :: string
  msvTenantID :: string
  msvName :: string
  msvTransport :: raw
  msvEnabled :: bool
  msvStatus :: string
  msvCreatedAt :: time
  msvUpdatedAt :: time

record FlowPermissionSet =
  fpResources :: "string list"
  fpFiles :: "string list"
  fpDatabases :: "string list"

record Flow =
  flID :: string
  flTenantID :: string
  flName :: string
  flFlowJSON :: raw
  flPermissions :: FlowPermissionSet
  flEnabled :: bool
  flCreatedAt :: time
  flUpdatedAt :: time

record LogEntry =
  leTimestamp :: time
  leLevel :: string
  leMessage :: string
  leSource :: string

record Run =
  ruID :: string
  ruFlowID :: string
  ruTenantID :: string
  ruStatus :: string
  ruStartedAt :: time
  ruFinishedAt :: "time option"
  ruLogs :: "LogEntry list"
  ruResult :: raw

record Subtask =
  suID :: string
  suAgentID :: string
  suDescription :: string
  suStatus :: string
  suResult :: raw

record Task =
  taID :: string
  taTenantID :: string
  taInput :: string
  taStatus :: string
  taSubtasks :: "Subtask list"
  taResult :: raw
  taCreatedAt :: time
  taUpdatedAt :: time

record User =
  usID :: string
  usTenantID :: string
  usUsername :: string
  usPasswordHash :: string
  usRole :: string
  usCreatedAt :: time
  usUpdatedAt :: time

record Tenant =
  teID :: string
  teName :: string
  teCreatedAt :: time

end
