(* ===== verification/Memory_Store.thy ===== *)
theory Memory_Store
  imports Store_Models
begin

text \<open>
  The in-memory store (\<open>internal/store/memory.go\<close>): one operation per method of \<open>Memory\<close>.

  Every resource but tenants lives in a two-level map, tenant id to id to resource, here a
  \<open>table\<close>. The sources repeat the same code for each resource; it is written once, over a table
  (\<open>tableGet\<close>, \<open>tableCreate\<close>, \<open>tableUpdate\<close>, \<open>tableDelete\<close>, \<open>tableValues\<close>), and each method applies it to
  its own field. \<open>tenantTable\<close> is \<open>agentMap\<close>, \<open>serverMap\<close> and their siblings: it makes the inner map of a tenant when
  there is none, which a failing create or update also does. The read-write lock makes every method one step.

  \<open>sort.Slice\<close> is not stable. It is \<open>sort_key\<close> after an arbitrary visiting order \<open>rng\<close> of the map: as \<open>rng\<close> varies,
  elements with equal keys come out in every order.

  Then the contract of a multi-tenant store as locales, with an interpretation for each resource, and a
  specification on partial maps which the store refines.
\<close>

section \<open>Tables\<close>

type_synonym 'r table = "(string, (string, 'r) gomap) gomap"

definition tenantTable :: "string \<Rightarrow> 'r table \<Rightarrow> 'r table" where
  "tenantTable tenantID tab = (if glookup tab tenantID = None then gput tenantID [] tab else tab)"

definition tableGet :: "string \<Rightarrow> string \<Rightarrow> 'r table \<Rightarrow> (store_error, 'r) result" where
  "tableGet tenantID i tab = (case glookup (gget [] tab tenantID) i of
      Some r \<Rightarrow> Inr r
    | None \<Rightarrow> Inl ErrNotFound)"

definition tableCreate :: "string \<Rightarrow> string \<Rightarrow> 'r \<Rightarrow> 'r table \<Rightarrow> (store_error, 'r) result \<times> 'r table" where
  "tableCreate tenantID i r tab =
     (if i = '''' then (Inl ErrInvalid, tab)
      else let tab' = tenantTable tenantID tab; tm = gget [] tab' tenantID in
        if glookup tm i \<noteq> None then (Inl ErrConflict, tab')
        else (Inr r, gput tenantID (gput i r tm) tab'))"

definition tableUpdate :: "string \<Rightarrow> string \<Rightarrow> 'r \<Rightarrow> 'r table \<Rightarrow> (store_error, 'r) result \<times> 'r table" where
  "tableUpdate tenantID i r tab =
     (let tab' = tenantTable tenantID tab; tm = gget [] tab' tenantID in
        if glookup tm i = None then (Inl ErrNotFound, tab')
        else (Inr r, gput tenantID (gput i r tm) tab'))"

definition tableDelete :: "string \<Rightarrow> string \<Rightarrow> 'r table \<Rightarrow> (store_error, unit) result \<times> 'r table" where
  "tableDelete tenantID i tab =
     (let tm = gget [] tab tenantID in
        if glookup tm i = None then (Inl ErrNotFound, tab)
        else (Inr (), gput tenantID (gdelete i tm) tab))"

definition tableValues :: "range_order \<Rightarrow> string \<Rightarrow> 'r table \<Rightarrow> 'r list" where
  "tableValues rng tenantID tab = gvalues rng (gget [] tab tenantID)"

section \<open>The store\<close>

record Memory =
  mAgents :: "Agent table"
  mServers :: "McpServer table"
  mFlows :: "Flow table"
  mRuns :: "Run table"
  mTasks :: "Task table"
  mUsers :: "User table"
  mTenants :: "(string, Tenant) gomap"

definition NewMemoryStore :: Memory where
  "NewMemoryStore = \<lparr>mAgents = [], mServers = [], mFlows = [], mRuns = [], mTasks = [], mUsers = [], mTenants = []\<rparr>"

text \<open>Agents\<close>

definition ListAgents :: "range_order \<Rightarrow> string \<Rightarrow> Memory \<Rightarrow> Agent list" where
  "ListAgents rng tenantID m = sort_key agName (tableValues rng tenantID (mAgents m))"

definition GetAgent :: "string \<Rightarrow> string \<Rightarrow> Memory \<Rightarrow> (store_error, Agent) result" where
  "GetAgent tenantID i m = tableGet tenantID i (mAgents m)"

definition CreateAgent :: "Agent \<Rightarrow> Memory \<Rightarrow> (store_error, Agent) result \<times> Memory" where
  "CreateAgent r m = (let (res, tab) = tableCreate (agTenantID r) (agID r) r (mAgents m) in (res, m \<lparr>mAgents := tab\<rparr>))"

definition UpdateAgent :: "Agent \<Rightarrow> Memory \<Rightarrow> (store_error, Agent) result \<times> Memory" where
  "UpdateAgent r m = (let (res, tab) = tableUpdate (agTenantID r) (agID r) r (mAgents m) in (res, m \<lparr>mAgents := tab\<rparr>))"

definition DeleteAgent :: "string \<Rightarrow> string \<Rightarrow> Memory \<Rightarrow> (store_error, unit) result \<times> Memory" where
  "DeleteAgent tenantID i m = (let (res, tab) = tableDelete tenantID i (mAgents m) in (res, m \<lparr>mAgents := tab\<rparr>))"

text \<open>McpServers\<close>

definition ListMcpServers :: "range_order \<Rightarrow> string \<Rightarrow> Memory \<Rightarrow> McpServer list" where
  "ListMcpServers rng tenantID m = sort_key msvName (tableValues rng tenantID (mServers m))"

definition GetMcpServer :: "string \<Rightarrow> string \<Rightarrow> Memory \<Rightarrow> (store_error, McpServer) result" where
  "GetMcpServer tenantID i m = tableGet tenantID i (mServers m)"

definition CreateMcpServer :: "McpServer \<Rightarrow> Memory \<Rightarrow> (store_error, McpServer) result \<times> Memory" where
  "CreateMcpServer r m = (let (res, tab) = tableCreate (msvTenantID r) (msvID r) r (mServers m) in (res, m \<lparr>mServers := tab\<rparr>))"

definition UpdateMcpServer :: "McpServer \<Rightarrow> Memory \<Rightarrow> (store_error, McpServer) result \<times> Memory" where
  "UpdateMcpServer r m = (let (res, tab) = tableUpdate (msvTenantID r) (msvID r) r (mServers m) in (res, m \<lparr>mServers := tab\<rparr>))"

definition DeleteMcpServer :: "string \<Rightarrow> string \<Rightarrow> Memory \<Rightarrow> (store_error, unit) result \<times> Memory" where
  "DeleteMcpServer tenantID i m = (let (res, tab) = tableDelete tenantID i (mServers m) in (res, m \<lparr>mServers := tab\<rparr>))"

text \<open>Flows\<close>

definition ListFlows :: "range_order \<Rightarrow> string \<Rightarrow> Memory \<Rightarrow> Flow list" where
  "ListFlows rng tenantID m = sort_key flName (tableValues rng tenantID (mFlows m))"

definition GetFlow :: "string \<Rightarrow> string \<Rightarrow> Memory \<Rightarrow> (store_error, Flow) result" where
  "GetFlow tenantID i m = tableGet tenantID i (mFlows m)"

definition CreateFlow :: "Flow \<Rightarrow> Memory \<Rightarrow> (store_error, Flow) result \<times> Memory" where
  "CreateFlow r m = (let (res, tab) = tableCreate (flTenantID r) (flID r) r (mFlows m) in (res, m \<lparr>mFlows := tab\<rparr>))"

definition UpdateFlow :: "Flow \<Rightarrow> Memory \<Rightarrow> (store_error, Flow) result \<times> Memory" where
  "UpdateFlow r m = (let (res, tab) = tableUpdate (flTenantID r) (flID r) r (mFlows m) in (res, m \<lparr>mFlows := tab\<rparr>))"

definition DeleteFlow :: "string \<Rightarrow> string \<Rightarrow> Memory \<Rightarrow> (store_error, unit) result \<times> Memory" where
  "DeleteFlow tenantID i m = (let (res, tab) = tableDelete tenantID i (mFlows m) in (res, m \<lparr>mFlows := tab\<rparr>))"

text \<open>Runs\<close>

definition ListRuns :: "range_order \<Rightarrow> string \<Rightarrow> string \<Rightarrow> Memory \<Rightarrow> Run list" where
  "ListRuns rng tenantID flowID m =
     sort_key ruStartedAt (filter (\<lambda>r. \<not> (flowID \<noteq> '''' \<and> ruFlowID r \<noteq> flowID)) (tableValues rng tenantID (mRuns m)))"

definition GetRun :: "string \<Rightarrow> string \<Rightarrow> Memory \<Rightarrow> (store_error, Run) result" where
  "GetRun tenantID i m = tableGet tenantID i (mRuns m)"

definition CreateRun :: "Run \<Rightarrow> Memory \<Rightarrow> (store_error, Run) result \<times> Memory" where
  "CreateRun r m = (let (res, tab) = tableCreate (ruTenantID r) (ruID r) r (mRuns m) in (res, m \<lparr>mRuns := tab\<rparr>))"

definition UpdateRun :: "Run \<Rightarrow> Memory \<Rightarrow> (store_error, Run) result \<times> Memory" where
  "UpdateRun r m = (let (res, tab) = tableUpdate (ruTenantID r) (ruID r) r (mRuns m) in (res, m \<lparr>mRuns := tab\<rparr>))"

text \<open>Tasks\<close>

definition ListTasks :: "range_order \<Rightarrow> string \<Rightarrow> Memory \<Rightarrow> Task list" where
  "ListTasks rng tenantID m = sort_key taCreatedAt (tableValues rng tenantID (mTasks m))"

definition GetTask :: "string \<Rightarrow> string \<Rightarrow> Memory \<Rightarrow> (store_error, Task) result" where
  "GetTask tenantID i m = tableGet tenantID i (mTasks m)"

definition CreateTask :: "Task \<Rightarrow> Memory \<Rightarrow> (store_error, Task) result \<times> Memory" where
  "CreateTask r m = (let (res, tab) = tableCreate (taTenantID r) (taID r) r (mTasks m) in (res, m \<lparr>mTasks := tab\<rparr>))"

definition UpdateTask :: "Task \<Rightarrow> Memory \<Rightarrow> (store_error, Task) result \<times> Memory" where
  "UpdateTask r m = (let (res, tab) = tableUpdate (taTenantID r) (taID r) r (mTasks m) in (res, m \<lparr>mTasks := tab\<rparr>))"

text \<open>Users\<close>

definition ListUsers :: "range_order \<Rightarrow> string \<Rightarrow> Memory \<Rightarrow> User list" where
  "ListUsers rng tenantID m = sort_key usUsername (tableValues rng tenantID (mUsers m))"

definition GetUser :: "string \<Rightarrow> string \<Rightarrow> Memory \<Rightarrow> (store_error, User) result" where
  "GetUser tenantID i m = tableGet tenantID i (mUsers m)"

definition CreateUser :: "User \<Rightarrow> Memory \<Rightarrow> (store_error, User) result \<times> Memory" where
  "CreateUser r m = (let (res, tab) = tableCreate (usTenantID r) (usID r) r (mUsers m) in (res, m \<lparr>mUsers := tab\<rparr>))"

definition UpdateUser :: "User \<Rightarrow> Memory \<Rightarrow> (store_error, User) result \<times> Memory" where
  "UpdateUser r m = (let (res, tab) = tableUpdate (usTenantID r) (usID r) r (mUsers m) in (res, m \<lparr>mUsers := tab\<rparr>))"

definition DeleteUser :: "string \<Rightarrow> string \<Rightarrow> Memory \<Rightarrow> (store_error, unit) result \<times> Memory" where
  "DeleteUser tenantID i m = (let (res, tab) = tableDelete tenantID i (mUsers m) in (res, m \<lparr>mUsers := tab\<rparr>))"

definition GetUserByUsername :: "range_order \<Rightarrow> string \<Rightarrow> string \<Rightarrow> Memory \<Rightarrow> (store_error, User) result" where
  "GetUserByUsername rng tenantID username m =
     (case find (\<lambda>u. usUsername u = username) (tableValues rng tenantID (mUsers m)) of
        Some u \<Rightarrow> Inr u
      | None \<Rightarrow> Inl ErrNotFound)"

text \<open>Tenants\<close>

definition GetTenant :: "string \<Rightarrow> Memory \<Rightarrow> (store_error, Tenant) result" where
  "GetTenant i m = (case glookup (mTenants m) i of Some t \<Rightarrow> Inr t | None \<Rightarrow> Inl ErrNotFound)"

definition CreateTenant :: "Tenant \<Rightarrow> Memory \<Rightarrow> (store_error, Tenant) result \<times> Memory" where
  "CreateTenant t m =
     (if teID t = '''' then (Inl ErrInvalid, m)
      else if glookup (mTenants m) (teID t) \<noteq> None then (Inl ErrConflict, m)
      else (Inr t, m \<lparr>mTenants := gput (teID t) t (mTenants m)\<rparr>))"

section \<open>Laws of tables\<close>

text \<open>A table is well formed when its maps are, and every resource is filed under its own tenant and its own
  non-empty id.\<close>

definition tableOk :: "('r \<Rightarrow> string) \<Rightarrow> ('r \<Rightarrow> string) \<Rightarrow> 'r table \<Rightarrow> bool" where
  "tableOk tenant ident tab \<longleftrightarrow>
     (\<forall>t. wf_gomap (gget [] tab t))
     \<and> (\<forall>t i r. glookup (gget [] tab t) i = Some r \<longrightarrow> tenant r = t \<and> ident r = i \<and> i \<noteq> '''')"

named_theorems table_laws \<open>what the table operations return and leave\<close>

lemma gget_tenantTable [simp]: "gget [] (tenantTable t tab) t' = gget [] tab t'"
  by (auto simp: tenantTable_def gget_def)

lemma tableGet_tenantTable [simp]: "tableGet t i (tenantTable t' tab) = tableGet t i tab"
  by (simp add: tableGet_def)

lemma tableGet_ok_iff: "is_ok (tableGet t i tab) \<longleftrightarrow> glookup (gget [] tab t) i \<noteq> None"
  by (auto simp: tableGet_def split: option.splits)

lemma tableGet_error [table_laws]: "tableGet t i tab = Inl e \<Longrightarrow> e = ErrNotFound"
  by (auto simp: tableGet_def split: option.splits)

lemma tableCreate_result [table_laws]:
  "fst (tableCreate t i r tab) =
     (if i = '''' then Inl ErrInvalid else if is_ok (tableGet t i tab) then Inl ErrConflict else Inr r)"
  by (simp add: tableCreate_def tableGet_ok_iff Let_def)

lemma tableCreate_get [table_laws]:
  "tableGet t' i' (snd (tableCreate t i r tab)) =
     (if is_ok (fst (tableCreate t i r tab)) \<and> t' = t \<and> i' = i then Inr r else tableGet t' i' tab)"
  by (auto simp: tableCreate_def Let_def tableGet_def)

lemma tableUpdate_result [table_laws]:
  "fst (tableUpdate t i r tab) = (if is_ok (tableGet t i tab) then Inr r else Inl ErrNotFound)"
  by (simp add: tableUpdate_def tableGet_ok_iff Let_def)

lemma tableUpdate_get [table_laws]:
  "tableGet t' i' (snd (tableUpdate t i r tab)) =
     (if is_ok (fst (tableUpdate t i r tab)) \<and> t' = t \<and> i' = i then Inr r else tableGet t' i' tab)"
  by (auto simp: tableUpdate_def Let_def tableGet_def)

lemma tableDelete_result [table_laws]:
  "fst (tableDelete t i tab) = (if is_ok (tableGet t i tab) then Inr () else Inl ErrNotFound)"
  by (simp add: tableDelete_def tableGet_ok_iff Let_def)

lemma tableDelete_get [table_laws]:
  "tableGet t' i' (snd (tableDelete t i tab)) =
     (if is_ok (fst (tableDelete t i tab)) \<and> t' = t \<and> i' = i then Inl ErrNotFound else tableGet t' i' tab)"
  by (auto simp: tableDelete_def Let_def tableGet_def)

lemma tableOk_get: "tableOk tenant ident tab \<Longrightarrow> tableGet t i tab = Inr r \<Longrightarrow> tenant r = t \<and> ident r = i"
  by (auto simp: tableOk_def tableGet_def split: option.splits)

lemma tableOk_empty [simp]: "tableOk tenant ident []"
  by (simp add: tableOk_def)

lemma tableOk_tenantTable [simp]: "tableOk tenant ident (tenantTable t tab) = tableOk tenant ident tab"
  by (simp add: tableOk_def)

lemma tableOk_put:
  "tableOk tenant ident tab \<Longrightarrow> tenant r = t \<Longrightarrow> ident r = i \<Longrightarrow> i \<noteq> '''' \<Longrightarrow>
     tableOk tenant ident (gput t (gput i r (gget [] tab t)) tab)"
  by (auto simp: tableOk_def)

lemma tableOk_create [table_laws]:
  "tableOk tenant ident tab \<Longrightarrow> tableOk tenant ident (snd (tableCreate (tenant r) (ident r) r tab))"
  using tableOk_put [of tenant ident "tenantTable (tenant r) tab" r "tenant r" "ident r"]
  by (auto simp: tableCreate_def Let_def)

lemma tableOk_update [table_laws]:
  assumes "tableOk tenant ident tab"
  shows "tableOk tenant ident (snd (tableUpdate (tenant r) (ident r) r tab))"
proof (cases "glookup (gget [] tab (tenant r)) (ident r)")
  case None
  with assms show ?thesis by (simp add: tableUpdate_def Let_def)
next
  case (Some r')
  with assms have "ident r \<noteq> ''''" by (auto simp: tableOk_def)
  with assms Some tableOk_put [of tenant ident "tenantTable (tenant r) tab" r "tenant r" "ident r"] show ?thesis
    by (simp add: tableUpdate_def Let_def)
qed

lemma tableOk_delete [table_laws]: "tableOk tenant ident tab \<Longrightarrow> tableOk tenant ident (snd (tableDelete t i tab))"
  by (auto simp: tableDelete_def Let_def tableOk_def)

lemma set_tableValues:
  "go_range_order rng \<Longrightarrow> set (tableValues rng t tab) = {r. \<exists>i. tableGet t i tab = Inr r}"
  by (auto simp: tableValues_def set_gvalues tableGet_def split: option.splits)

lemma tableOk_inj:
  assumes "tableOk tenant ident tab"
  shows "inj_on ident (set (map snd (gget [] tab t)))"
proof (rule inj_onI)
  let ?m = "gget [] tab t"
  fix x y
  assume xy: "x \<in> set (map snd ?m)" "y \<in> set (map snd ?m)" "ident x = ident y"
  from assms have wf: "wf_gomap ?m" by (simp add: tableOk_def)
  from xy obtain i j where "(i, x) \<in> set ?m" "(j, y) \<in> set ?m" by auto
  with wf have "glookup ?m i = Some x" "glookup ?m j = Some y"
    by (auto simp: wf_gomap_def gkeys_def glookup_def)
  with assms xy(3) show "x = y" by (auto simp: tableOk_def)
qed

lemma distinct_map_snd:
  assumes "wf_gomap m" "\<And>k v. glookup m k = Some v \<Longrightarrow> f v = k"
  shows "distinct (map snd m)"
proof -
  have "map f (map snd m) = map fst m"
    using assms by (auto simp: wf_gomap_def gkeys_def glookup_def)
  then have "distinct (map f (map snd m))" using assms(1) unfolding wf_gomap_def gkeys_def by (simp only:)
  then show ?thesis by (simp only: distinct_map)
qed

lemma distinct_tableValues:
  assumes "go_range_order rng" "tableOk tenant ident tab"
  shows "distinct (tableValues rng t tab)"
proof -
  have wf: "wf_gomap (gget [] tab t)" using assms(2) by (simp add: tableOk_def)
  have "distinct (map snd (gget [] tab t))"
    by (rule distinct_map_snd [OF wf, of ident]) (use assms(2) in \<open>auto simp: tableOk_def\<close>)
  with mset_gvalues [OF assms(1) wf] show ?thesis
    unfolding tableValues_def by (metis mset_eq_imp_distinct_iff)
qed

section \<open>The contract of a multi-tenant store\<close>

locale tenant_store =
  fixes get :: "string \<Rightarrow> string \<Rightarrow> 's \<Rightarrow> (store_error, 'r) result"
    and create :: "'r \<Rightarrow> 's \<Rightarrow> (store_error, 'r) result \<times> 's"
    and update :: "'r \<Rightarrow> 's \<Rightarrow> (store_error, 'r) result \<times> 's"
    and tenant :: "'r \<Rightarrow> string"
    and ident :: "'r \<Rightarrow> string"
    and inv :: "'s \<Rightarrow> bool"
  assumes get_error: "get t i s = Inl e \<Longrightarrow> e = ErrNotFound"
    and create_result: "fst (create r s) =
      (if ident r = '''' then Inl ErrInvalid else if is_ok (get (tenant r) (ident r) s) then Inl ErrConflict else Inr r)"
    and create_get: "get t i (snd (create r s)) =
      (if is_ok (fst (create r s)) \<and> t = tenant r \<and> i = ident r then Inr r else get t i s)"
    and update_result: "fst (update r s) = (if is_ok (get (tenant r) (ident r) s) then Inr r else Inl ErrNotFound)"
    and update_get: "get t i (snd (update r s)) =
      (if is_ok (fst (update r s)) \<and> t = tenant r \<and> i = ident r then Inr r else get t i s)"
    and get_filed: "inv s \<Longrightarrow> get t i s = Inr r \<Longrightarrow> tenant r = t \<and> ident r = i"
    and create_inv: "inv s \<Longrightarrow> inv (snd (create r s))"
    and update_inv: "inv s \<Longrightarrow> inv (snd (update r s))"
begin

lemma create_then_get: "fst (create r s) = Inr r' \<Longrightarrow> get (tenant r) (ident r) (snd (create r s)) = Inr r"
  by (simp add: create_get)

lemma create_twice:
  "fst (create r s) = Inr r' \<Longrightarrow> tenant q = tenant r \<Longrightarrow> ident q = ident r \<Longrightarrow> fst (create q (snd (create r s))) = Inl ErrConflict"
  by (auto simp: create_result create_get split: if_splits)

lemma create_then_update:
  "fst (create r s) = Inr r' \<Longrightarrow> tenant q = tenant r \<Longrightarrow> ident q = ident r \<Longrightarrow>
     fst (update q (snd (create r s))) = Inr q \<and> get (tenant r) (ident r) (snd (update q (snd (create r s)))) = Inr q"
  by (simp add: create_get update_result update_get)

lemma isolated:
  "t \<noteq> tenant r \<Longrightarrow> get t i (snd (create r s)) = get t i s"
  "t \<noteq> tenant r \<Longrightarrow> get t i (snd (update r s)) = get t i s"
  by (simp_all add: create_get update_get)

end

locale tenant_store_delete = tenant_store +
  fixes delete :: "string \<Rightarrow> string \<Rightarrow> 's \<Rightarrow> (store_error, unit) result \<times> 's"
  assumes delete_result: "fst (delete t i s) = (if is_ok (get t i s) then Inr () else Inl ErrNotFound)"
    and delete_get: "get t' i' (snd (delete t i s)) =
      (if is_ok (fst (delete t i s)) \<and> t' = t \<and> i' = i then Inl ErrNotFound else get t' i' s)"
    and delete_inv: "inv s \<Longrightarrow> inv (snd (delete t i s))"
begin

lemma delete_then_get: "get t i (snd (delete t i s)) = Inl ErrNotFound"
  using get_error by (cases "get t i s") (auto simp: delete_get delete_result)

lemma delete_then_create:
  "ident r \<noteq> '''' \<Longrightarrow> fst (create r (snd (delete (tenant r) (ident r) s))) = Inr r"
  using delete_then_get [of "tenant r" "ident r" s] by (simp add: create_result)

lemma delete_isolated: "t' \<noteq> t \<Longrightarrow> get t' i' (snd (delete t i s)) = get t' i' s"
  by (simp add: delete_get)

end

locale tenant_store_list = tenant_store get create update tenant ident inv
  for get :: "string \<Rightarrow> string \<Rightarrow> 's \<Rightarrow> (store_error, 'r) result" and create update tenant ident inv +
  fixes list :: "range_order \<Rightarrow> string \<Rightarrow> 's \<Rightarrow> 'r list"
    and sortkey :: "'r \<Rightarrow> 'k :: linorder"
  assumes list_set: "go_range_order rng \<Longrightarrow> set (list rng t s) = {r. \<exists>i. get t i s = Inr r}"
    and list_distinct: "go_range_order rng \<Longrightarrow> inv s \<Longrightarrow> distinct (list rng t s)"
    and list_sorted: "sorted (map sortkey (list rng t s))"
begin

lemma list_own: "go_range_order rng \<Longrightarrow> inv s \<Longrightarrow> r \<in> set (list rng t s) \<longleftrightarrow> tenant r = t \<and> get t (ident r) s = Inr r"
  using get_filed by (auto simp: list_set)

text \<open>When no two resources of the tenant have the same sort key, the listing does not depend on the order in which
  Go visits the map.\<close>

lemma list_deterministic:
  assumes "go_range_order rng" "go_range_order rng'" "inv s" "inj_on sortkey {r. \<exists>i. get t i s = Inr r}"
  shows "list rng t s = list rng' t s"
proof -
  have "map sortkey (list rng t s) = map sortkey (list rng' t s)"
    using assms by (intro sorted_distinct_set_unique) (simp_all add: list_sorted list_distinct distinct_map list_set)
  with assms(4) show ?thesis
    by (intro map_inj_on [of sortkey]) (simp_all add: list_set assms(1,2))
qed

lemma list_after_create:
  assumes "go_range_order rng" "inv s" "fst (create r s) = Inr r'"
  shows "set (list rng (tenant r) (snd (create r s))) = insert r (set (list rng (tenant r) s))"
proof -
  from assms(3) have "\<not> is_ok (get (tenant r) (ident r) s)" by (auto simp: create_result split: if_splits)
  then have "get (tenant r) (ident r) s \<noteq> Inr q" for q by auto
  with assms show ?thesis by (auto simp: list_set create_get) metis
qed

end

section \<open>Every resource of the in-memory store satisfies it\<close>

definition memoryOk :: "Memory \<Rightarrow> bool" where
  "memoryOk m \<longleftrightarrow> tableOk agTenantID agID (mAgents m) \<and> tableOk msvTenantID msvID (mServers m)
     \<and> tableOk flTenantID flID (mFlows m) \<and> tableOk ruTenantID ruID (mRuns m)
     \<and> tableOk taTenantID taID (mTasks m) \<and> tableOk usTenantID usID (mUsers m)
     \<and> wf_gomap (mTenants m) \<and> (\<forall>i t. glookup (mTenants m) i = Some t \<longrightarrow> teID t = i \<and> i \<noteq> '''')"

lemmas agents_defs = GetAgent_def CreateAgent_def UpdateAgent_def DeleteAgent_def ListAgents_def case_prod_beta Let_def

lemmas servers_defs = GetMcpServer_def CreateMcpServer_def UpdateMcpServer_def DeleteMcpServer_def ListMcpServers_def case_prod_beta Let_def

lemmas flows_defs = GetFlow_def CreateFlow_def UpdateFlow_def DeleteFlow_def ListFlows_def case_prod_beta Let_def

lemmas runs_defs = GetRun_def CreateRun_def UpdateRun_def ListRuns_def case_prod_beta Let_def

lemmas tasks_defs = GetTask_def CreateTask_def UpdateTask_def ListTasks_def case_prod_beta Let_def

lemmas users_defs = GetUser_def CreateUser_def UpdateUser_def DeleteUser_def ListUsers_def case_prod_beta Let_def

interpretation agents: tenant_store_delete GetAgent CreateAgent UpdateAgent agTenantID agID
  "\<lambda>m. tableOk agTenantID agID (mAgents m)" DeleteAgent
  by unfold_locales (simp_all add: agents_defs table_laws tableOk_get)

interpretation agents_list: tenant_store_list GetAgent CreateAgent UpdateAgent agTenantID agID
  "\<lambda>m. tableOk agTenantID agID (mAgents m)" ListAgents agName
  by unfold_locales (simp_all add: agents_defs set_tableValues distinct_tableValues)

interpretation servers: tenant_store_delete GetMcpServer CreateMcpServer UpdateMcpServer msvTenantID msvID
  "\<lambda>m. tableOk msvTenantID msvID (mServers m)" DeleteMcpServer
  by unfold_locales (simp_all add: servers_defs table_laws tableOk_get)

interpretation servers_list: tenant_store_list GetMcpServer CreateMcpServer UpdateMcpServer msvTenantID msvID
  "\<lambda>m. tableOk msvTenantID msvID (mServers m)" ListMcpServers msvName
  by unfold_locales (simp_all add: servers_defs set_tableValues distinct_tableValues)

interpretation flows: tenant_store_delete GetFlow CreateFlow UpdateFlow flTenantID flID
  "\<lambda>m. tableOk flTenantID flID (mFlows m)" DeleteFlow
  by unfold_locales (simp_all add: flows_defs table_laws tableOk_get)

interpretation flows_list: tenant_store_list GetFlow CreateFlow UpdateFlow flTenantID flID
  "\<lambda>m. tableOk flTenantID flID (mFlows m)" ListFlows flName
  by unfold_locales (simp_all add: flows_defs set_tableValues distinct_tableValues)

interpretation runs: tenant_store GetRun CreateRun UpdateRun ruTenantID ruID
  "\<lambda>m. tableOk ruTenantID ruID (mRuns m)"
  by unfold_locales (simp_all add: runs_defs table_laws tableOk_get)

interpretation runs_list: tenant_store_list GetRun CreateRun UpdateRun ruTenantID ruID
  "\<lambda>m. tableOk ruTenantID ruID (mRuns m)" "\<lambda>rng t m. ListRuns rng t '''' m" ruStartedAt
  by unfold_locales (simp_all add: runs_defs set_tableValues distinct_tableValues)

interpretation tasks: tenant_store GetTask CreateTask UpdateTask taTenantID taID
  "\<lambda>m. tableOk taTenantID taID (mTasks m)"
  by unfold_locales (simp_all add: tasks_defs table_laws tableOk_get)

interpretation tasks_list: tenant_store_list GetTask CreateTask UpdateTask taTenantID taID
  "\<lambda>m. tableOk taTenantID taID (mTasks m)" ListTasks taCreatedAt
  by unfold_locales (simp_all add: tasks_defs set_tableValues distinct_tableValues)

interpretation users: tenant_store_delete GetUser CreateUser UpdateUser usTenantID usID
  "\<lambda>m. tableOk usTenantID usID (mUsers m)" DeleteUser
  by unfold_locales (simp_all add: users_defs table_laws tableOk_get)

interpretation users_list: tenant_store_list GetUser CreateUser UpdateUser usTenantID usID
  "\<lambda>m. tableOk usTenantID usID (mUsers m)" ListUsers usUsername
  by unfold_locales (simp_all add: users_defs set_tableValues distinct_tableValues)

section \<open>The specification on partial maps\<close>

text \<open>The operations that change the store. \<open>store_step\<close> runs one; the value it returns is the error, if any (on
  success the methods return their argument).\<close>

datatype store_op =
    OpCreateAgent Agent
  | OpUpdateAgent Agent
  | OpDeleteAgent string string
  | OpCreateMcpServer McpServer
  | OpUpdateMcpServer McpServer
  | OpDeleteMcpServer string string
  | OpCreateFlow Flow
  | OpUpdateFlow Flow
  | OpDeleteFlow string string
  | OpCreateRun Run
  | OpUpdateRun Run
  | OpCreateTask Task
  | OpUpdateTask Task
  | OpCreateUser User
  | OpUpdateUser User
  | OpDeleteUser string string
  | OpCreateTenant Tenant

definition err_of :: "(store_error, 'r) result \<Rightarrow> store_error option" where
  "err_of r = (case r of Inl e \<Rightarrow> Some e | Inr _ \<Rightarrow> None)"

fun store_step :: "store_op \<Rightarrow> Memory \<Rightarrow> store_error option \<times> Memory" where
  "store_step (OpCreateAgent r) m = apfst err_of (CreateAgent r m)"
| "store_step (OpUpdateAgent r) m = apfst err_of (UpdateAgent r m)"
| "store_step (OpDeleteAgent t i) m = apfst err_of (DeleteAgent t i m)"
| "store_step (OpCreateMcpServer r) m = apfst err_of (CreateMcpServer r m)"
| "store_step (OpUpdateMcpServer r) m = apfst err_of (UpdateMcpServer r m)"
| "store_step (OpDeleteMcpServer t i) m = apfst err_of (DeleteMcpServer t i m)"
| "store_step (OpCreateFlow r) m = apfst err_of (CreateFlow r m)"
| "store_step (OpUpdateFlow r) m = apfst err_of (UpdateFlow r m)"
| "store_step (OpDeleteFlow t i) m = apfst err_of (DeleteFlow t i m)"
| "store_step (OpCreateRun r) m = apfst err_of (CreateRun r m)"
| "store_step (OpUpdateRun r) m = apfst err_of (UpdateRun r m)"
| "store_step (OpCreateTask r) m = apfst err_of (CreateTask r m)"
| "store_step (OpUpdateTask r) m = apfst err_of (UpdateTask r m)"
| "store_step (OpCreateUser r) m = apfst err_of (CreateUser r m)"
| "store_step (OpUpdateUser r) m = apfst err_of (UpdateUser r m)"
| "store_step (OpDeleteUser t i) m = apfst err_of (DeleteUser t i m)"
| "store_step (OpCreateTenant r) m = apfst err_of (CreateTenant r m)"

text \<open>The abstract store: for each resource a partial map from tenant and id.\<close>

type_synonym 'r pmap = "string \<Rightarrow> string \<rightharpoonup> 'r"

record AbsStore =
  aAgents :: "Agent pmap"
  aMcpServers :: "McpServer pmap"
  aFlows :: "Flow pmap"
  aRuns :: "Run pmap"
  aTasks :: "Task pmap"
  aUsers :: "User pmap"
  aTenants :: "string \<rightharpoonup> Tenant"

definition absTable :: "'r table \<Rightarrow> 'r pmap" where
  "absTable tab t i = (case tableGet t i tab of Inr r \<Rightarrow> Some r | Inl _ \<Rightarrow> None)"

definition absStore :: "Memory \<Rightarrow> AbsStore" where
  "absStore m = \<lparr>aAgents = absTable (mAgents m), aMcpServers = absTable (mServers m), aFlows = absTable (mFlows m), aRuns = absTable (mRuns m), aTasks = absTable (mTasks m), aUsers = absTable (mUsers m),
     aTenants = glookup (mTenants m)\<rparr>"

definition specCreate :: "string \<Rightarrow> string \<Rightarrow> 'r \<Rightarrow> 'r pmap \<Rightarrow> store_error option \<times> 'r pmap" where
  "specCreate t i r f =
     (if i = '''' then (Some ErrInvalid, f)
      else if f t i \<noteq> None then (Some ErrConflict, f)
      else (None, f(t := (f t)(i \<mapsto> r))))"

definition specUpdate :: "string \<Rightarrow> string \<Rightarrow> 'r \<Rightarrow> 'r pmap \<Rightarrow> store_error option \<times> 'r pmap" where
  "specUpdate t i r f =
     (if f t i = None then (Some ErrNotFound, f) else (None, f(t := (f t)(i \<mapsto> r))))"

definition specDelete :: "string \<Rightarrow> string \<Rightarrow> 'r pmap \<Rightarrow> store_error option \<times> 'r pmap" where
  "specDelete t i f =
     (if f t i = None then (Some ErrNotFound, f) else (None, f(t := (f t)(i := None))))"

fun spec_step :: "store_op \<Rightarrow> AbsStore \<Rightarrow> store_error option \<times> AbsStore" where
  "spec_step (OpCreateAgent r) s = apsnd (\<lambda>f. s \<lparr>aAgents := f\<rparr>) (specCreate (agTenantID r) (agID r) r (aAgents s))"
| "spec_step (OpUpdateAgent r) s = apsnd (\<lambda>f. s \<lparr>aAgents := f\<rparr>) (specUpdate (agTenantID r) (agID r) r (aAgents s))"
| "spec_step (OpDeleteAgent t i) s = apsnd (\<lambda>f. s \<lparr>aAgents := f\<rparr>) (specDelete t i (aAgents s))"
| "spec_step (OpCreateMcpServer r) s = apsnd (\<lambda>f. s \<lparr>aMcpServers := f\<rparr>) (specCreate (msvTenantID r) (msvID r) r (aMcpServers s))"
| "spec_step (OpUpdateMcpServer r) s = apsnd (\<lambda>f. s \<lparr>aMcpServers := f\<rparr>) (specUpdate (msvTenantID r) (msvID r) r (aMcpServers s))"
| "spec_step (OpDeleteMcpServer t i) s = apsnd (\<lambda>f. s \<lparr>aMcpServers := f\<rparr>) (specDelete t i (aMcpServers s))"
| "spec_step (OpCreateFlow r) s = apsnd (\<lambda>f. s \<lparr>aFlows := f\<rparr>) (specCreate (flTenantID r) (flID r) r (aFlows s))"
| "spec_step (OpUpdateFlow r) s = apsnd (\<lambda>f. s \<lparr>aFlows := f\<rparr>) (specUpdate (flTenantID r) (flID r) r (aFlows s))"
| "spec_step (OpDeleteFlow t i) s = apsnd (\<lambda>f. s \<lparr>aFlows := f\<rparr>) (specDelete t i (aFlows s))"
| "spec_step (OpCreateRun r) s = apsnd (\<lambda>f. s \<lparr>aRuns := f\<rparr>) (specCreate (ruTenantID r) (ruID r) r (aRuns s))"
| "spec_step (OpUpdateRun r) s = apsnd (\<lambda>f. s \<lparr>aRuns := f\<rparr>) (specUpdate (ruTenantID r) (ruID r) r (aRuns s))"
| "spec_step (OpCreateTask r) s = apsnd (\<lambda>f. s \<lparr>aTasks := f\<rparr>) (specCreate (taTenantID r) (taID r) r (aTasks s))"
| "spec_step (OpUpdateTask r) s = apsnd (\<lambda>f. s \<lparr>aTasks := f\<rparr>) (specUpdate (taTenantID r) (taID r) r (aTasks s))"
| "spec_step (OpCreateUser r) s = apsnd (\<lambda>f. s \<lparr>aUsers := f\<rparr>) (specCreate (usTenantID r) (usID r) r (aUsers s))"
| "spec_step (OpUpdateUser r) s = apsnd (\<lambda>f. s \<lparr>aUsers := f\<rparr>) (specUpdate (usTenantID r) (usID r) r (aUsers s))"
| "spec_step (OpDeleteUser t i) s = apsnd (\<lambda>f. s \<lparr>aUsers := f\<rparr>) (specDelete t i (aUsers s))"
| "spec_step (OpCreateTenant t) s =
     (if teID t = '''' then (Some ErrInvalid, s)
      else if aTenants s (teID t) \<noteq> None then (Some ErrConflict, s)
      else (None, s \<lparr>aTenants := (aTenants s)(teID t \<mapsto> t)\<rparr>))"

text \<open>The tenant an operation acts for; creating a tenant acts for none.\<close>

fun op_tenant :: "store_op \<Rightarrow> string option" where
  "op_tenant (OpCreateAgent r) = Some (agTenantID r)"
| "op_tenant (OpUpdateAgent r) = Some (agTenantID r)"
| "op_tenant (OpDeleteAgent t i) = Some t"
| "op_tenant (OpCreateMcpServer r) = Some (msvTenantID r)"
| "op_tenant (OpUpdateMcpServer r) = Some (msvTenantID r)"
| "op_tenant (OpDeleteMcpServer t i) = Some t"
| "op_tenant (OpCreateFlow r) = Some (flTenantID r)"
| "op_tenant (OpUpdateFlow r) = Some (flTenantID r)"
| "op_tenant (OpDeleteFlow t i) = Some t"
| "op_tenant (OpCreateRun r) = Some (ruTenantID r)"
| "op_tenant (OpUpdateRun r) = Some (ruTenantID r)"
| "op_tenant (OpCreateTask r) = Some (taTenantID r)"
| "op_tenant (OpUpdateTask r) = Some (taTenantID r)"
| "op_tenant (OpCreateUser r) = Some (usTenantID r)"
| "op_tenant (OpUpdateUser r) = Some (usTenantID r)"
| "op_tenant (OpDeleteUser t i) = Some t"
| "op_tenant (OpCreateTenant t) = None"

lemma absTable_None: "absTable tab t i = None \<longleftrightarrow> \<not> is_ok (tableGet t i tab)"
  by (cases "tableGet t i tab") (simp_all add: absTable_def)

lemma absTable_eqI: "(\<And>t i. tableGet t i tab' = (if P t i then r t i else tableGet t i tab)) \<Longrightarrow>
    (\<And>t i. f t i = (if P t i then (case r t i of Inr x \<Rightarrow> Some x | Inl _ \<Rightarrow> None) else absTable tab t i)) \<Longrightarrow>
    absTable tab' = f"
  by (intro ext) (simp add: absTable_def)

lemma spec_table_create:
  "apsnd absTable (apfst err_of (tableCreate t i r tab)) = specCreate t i r (absTable tab)"
proof (rule prod_eqI)
  show "fst (apsnd absTable (apfst err_of (tableCreate t i r tab))) = fst (specCreate t i r (absTable tab))"
    by (simp add: tableCreate_result specCreate_def absTable_None err_of_def)
  show "snd (apsnd absTable (apfst err_of (tableCreate t i r tab))) = snd (specCreate t i r (absTable tab))"
    by simp (rule absTable_eqI [OF tableCreate_get], auto simp: tableCreate_result specCreate_def absTable_None)
qed

lemma spec_table_update:
  "apsnd absTable (apfst err_of (tableUpdate t i r tab)) = specUpdate t i r (absTable tab)"
proof (rule prod_eqI)
  show "fst (apsnd absTable (apfst err_of (tableUpdate t i r tab))) = fst (specUpdate t i r (absTable tab))"
    by (simp add: tableUpdate_result specUpdate_def absTable_None err_of_def)
  show "snd (apsnd absTable (apfst err_of (tableUpdate t i r tab))) = snd (specUpdate t i r (absTable tab))"
    by simp (rule absTable_eqI [OF tableUpdate_get], auto simp: tableUpdate_result specUpdate_def absTable_None)
qed

lemma spec_table_delete:
  "apsnd absTable (apfst err_of (tableDelete t i tab)) = specDelete t i (absTable tab)"
proof (rule prod_eqI)
  show "fst (apsnd absTable (apfst err_of (tableDelete t i tab))) = fst (specDelete t i (absTable tab))"
    by (simp add: tableDelete_result specDelete_def absTable_None err_of_def)
  show "snd (apsnd absTable (apfst err_of (tableDelete t i tab))) = snd (specDelete t i (absTable tab))"
    by simp (rule absTable_eqI [OF tableDelete_get], auto simp: tableDelete_result specDelete_def absTable_None)
qed

lemmas spec_tables = spec_table_create [symmetric] spec_table_update [symmetric] spec_table_delete [symmetric]

inductive store_reachable :: "Memory \<Rightarrow> bool" where
  reach_new: "store_reachable NewMemoryStore"
| reach_step: "store_reachable m \<Longrightarrow> store_reachable (snd (store_step op m))"

lemma spec_step_tenant:
  "op_tenant op \<noteq> Some t \<Longrightarrow> aAgents (snd (spec_step op s)) t = aAgents s t"
  "op_tenant op \<noteq> Some t \<Longrightarrow> aMcpServers (snd (spec_step op s)) t = aMcpServers s t"
  "op_tenant op \<noteq> Some t \<Longrightarrow> aFlows (snd (spec_step op s)) t = aFlows s t"
  "op_tenant op \<noteq> Some t \<Longrightarrow> aRuns (snd (spec_step op s)) t = aRuns s t"
  "op_tenant op \<noteq> Some t \<Longrightarrow> aTasks (snd (spec_step op s)) t = aTasks s t"
  "op_tenant op \<noteq> Some t \<Longrightarrow> aUsers (snd (spec_step op s)) t = aUsers s t"
  by (cases op; simp add: specCreate_def specUpdate_def specDelete_def)+

lemma store_step_refines:
  "apsnd absStore (store_step op m) = spec_step op (absStore m)"
  by (cases op)
    (simp_all add: spec_tables absStore_def agents_defs servers_defs flows_defs runs_defs tasks_defs users_defs
      CreateTenant_def err_of_def apfst_def apsnd_def map_prod_def fun_upd_def glookup_gput ext)

lemma memoryOk_new: "memoryOk NewMemoryStore"
  by (simp add: memoryOk_def NewMemoryStore_def)

lemma memoryOk_step: "memoryOk m \<Longrightarrow> memoryOk (snd (store_step op m))"
  by (cases op)
    (simp_all add: memoryOk_def agents_defs servers_defs flows_defs runs_defs tasks_defs users_defs
      CreateTenant_def table_laws)

fun run_store :: "store_op list \<Rightarrow> Memory \<Rightarrow> store_error option list \<times> Memory" where
  "run_store [] m = ([], m)"
| "run_store (op # ops) m =
     (let (e, m') = store_step op m; (es, m'') = run_store ops m' in (e # es, m''))"

fun run_spec :: "store_op list \<Rightarrow> AbsStore \<Rightarrow> store_error option list \<times> AbsStore" where
  "run_spec [] s = ([], s)"
| "run_spec (op # ops) s =
     (let (e, s') = spec_step op s; (es, s'') = run_spec ops s' in (e # es, s''))"

lemma gget_other:
  "t' \<noteq> t \<Longrightarrow> gget [] (snd (tableCreate t i r tab)) t' = gget [] tab t'"
  "t' \<noteq> t \<Longrightarrow> gget [] (snd (tableUpdate t i r tab)) t' = gget [] tab t'"
  "t' \<noteq> t \<Longrightarrow> gget [] (snd (tableDelete t i tab)) t' = gget [] tab t'"
  by (simp_all add: tableCreate_def tableUpdate_def tableDelete_def Let_def)

lemma store_step_other:
  assumes "op_tenant op \<noteq> Some t"
  shows "gget [] (mAgents (snd (store_step op m))) t = gget [] (mAgents m) t"
    "gget [] (mServers (snd (store_step op m))) t = gget [] (mServers m) t"
    "gget [] (mFlows (snd (store_step op m))) t = gget [] (mFlows m) t"
    "gget [] (mRuns (snd (store_step op m))) t = gget [] (mRuns m) t"
    "gget [] (mTasks (snd (store_step op m))) t = gget [] (mTasks m) t"
    "gget [] (mUsers (snd (store_step op m))) t = gget [] (mUsers m) t"
  using assms
  by (cases op; simp add: agents_defs servers_defs flows_defs runs_defs tasks_defs users_defs CreateTenant_def gget_other)+

lemma reachable_memoryOk: "store_reachable m \<Longrightarrow> memoryOk m"
  by (induction rule: store_reachable.induct) (simp_all add: memoryOk_new memoryOk_step)

lemma memoryOk_tables:
  assumes "memoryOk m"
  shows "tableOk agTenantID agID (mAgents m)" "tableOk msvTenantID msvID (mServers m)"
    "tableOk flTenantID flID (mFlows m)" "tableOk ruTenantID ruID (mRuns m)"
    "tableOk taTenantID taID (mTasks m)" "tableOk usTenantID usID (mUsers m)"
  using assms by (simp_all add: memoryOk_def)

text \<open>Concrete resources, for the instances below.\<close>

definition sampleUser :: "string \<Rightarrow> string \<Rightarrow> User" where
  "sampleUser i name = \<lparr>usID = i, usTenantID = ''t1'', usUsername = name, usPasswordHash = ''h'', usRole = RoleViewer,
     usCreatedAt = 0, usUpdatedAt = 0\<rparr>"

definition sampleStoredFlow :: "string \<Rightarrow> string \<Rightarrow> Flow" where
  "sampleStoredFlow t i = \<lparr>flID = i, flTenantID = t, flName = i, flFlowJSON = '''',
     flPermissions = \<lparr>fpResources = [], fpFiles = [], fpDatabases = []\<rparr>, flEnabled = True, flCreatedAt = 0, flUpdatedAt = 0\<rparr>"

definition sampleMemory :: Memory where
  "sampleMemory = snd (store_step (OpCreateUser (sampleUser ''u1'' ''ann'')) (snd (store_step (OpCreateFlow (sampleStoredFlow ''t1'' ''f1'')) NewMemoryStore)))"

lemma sampleMemory_reachable: "store_reachable sampleMemory"
  unfolding sampleMemory_def by (intro reach_step reach_new)

section \<open>Properties\<close>

text \<open>C16: The in-memory store refines its specification: along every sequence of creates, updates and deletes of
  all resources, with all their errors, the store returns the errors that the partial maps from tenant and id
  prescribe and its contents stay equal to them.\<close>

theorem store_refines_spec: "apsnd absStore (run_store ops m) = run_spec ops (absStore m)"
proof (induction ops arbitrary: m)
  case (Cons op ops)
  obtain e m' where s: "store_step op m = (e, m')" by force
  then have "spec_step op (absStore m) = (e, absStore m')" using store_step_refines [of op m] by simp
  with s Cons.IH [of m'] show ?case by (simp add: Let_def case_prod_beta prod_eq_iff)
qed simp

text \<open>Tenants are isolated: an operation on behalf of another tenant (or the creation of a tenant) changes nothing that
  a tenant can read, neither by id nor in a listing nor by user name.\<close>

theorem store_isolation:
  assumes "op_tenant op \<noteq> Some t" and "m' = snd (store_step op m)"
  shows "GetAgent t i m' = GetAgent t i m \<and> GetMcpServer t i m' = GetMcpServer t i m \<and> GetFlow t i m' = GetFlow t i m
    \<and> GetRun t i m' = GetRun t i m \<and> GetTask t i m' = GetTask t i m \<and> GetUser t i m' = GetUser t i m
    \<and> ListAgents rng t m' = ListAgents rng t m \<and> ListMcpServers rng t m' = ListMcpServers rng t m
    \<and> ListFlows rng t m' = ListFlows rng t m \<and> ListRuns rng t f m' = ListRuns rng t f m
    \<and> ListTasks rng t m' = ListTasks rng t m \<and> ListUsers rng t m' = ListUsers rng t m
    \<and> GetUserByUsername rng t n m' = GetUserByUsername rng t n m"
  using store_step_other [OF assms(1), of m] unfolding assms(2)
  by (simp add: agents_defs servers_defs flows_defs runs_defs tasks_defs users_defs GetUserByUsername_def
      tableGet_def tableValues_def)

theorem store_isolation_witness:
  "GetFlow ''t1'' ''f1'' (snd (store_step (OpDeleteFlow ''t2'' ''f1'') sampleMemory)) = Inr (sampleStoredFlow ''t1'' ''f1'')"
proof -
  have "GetFlow ''t1'' ''f1'' (snd (store_step (OpDeleteFlow ''t2'' ''f1'') sampleMemory)) = GetFlow ''t1'' ''f1'' sampleMemory"
    using store_isolation [of "OpDeleteFlow ''t2'' ''f1''" "''t1''" _ sampleMemory "''f1''"] by simp
  moreover have "GetFlow ''t1'' ''f1'' sampleMemory = Inr (sampleStoredFlow ''t1'' ''f1'')" by code_simp
  ultimately show ?thesis by simp
qed

text \<open>Every store that operations can reach from the empty one is well formed: each resource is filed under its own
  tenant and non-empty id.\<close>

theorem store_invariant:
  assumes "store_reachable m"
  shows "memoryOk m"
  using assms by (rule reachable_memoryOk)

theorem store_invariant_witness: "memoryOk sampleMemory"
  by (rule store_invariant [OF sampleMemory_reachable])

text \<open>C23: A listing is exact: in every reachable store it holds each resource of the tenant once, nothing else, in the
  order of its sort key, whatever order Go visits the map in; \<open>ListRuns\<close> holds the runs of the given flow, or
  all of them for the empty flow id.\<close>

theorem listings_exact:
  assumes "store_reachable m" and "go_range_order rng"
  shows "set (ListAgents rng t m) = {a. agTenantID a = t \<and> GetAgent t (agID a) m = Inr a}
      \<and> distinct (ListAgents rng t m) \<and> sorted (map agName (ListAgents rng t m))
    \<and> set (ListMcpServers rng t m) = {a. msvTenantID a = t \<and> GetMcpServer t (msvID a) m = Inr a}
      \<and> distinct (ListMcpServers rng t m) \<and> sorted (map msvName (ListMcpServers rng t m))
    \<and> set (ListFlows rng t m) = {a. flTenantID a = t \<and> GetFlow t (flID a) m = Inr a}
      \<and> distinct (ListFlows rng t m) \<and> sorted (map flName (ListFlows rng t m))
    \<and> set (ListTasks rng t m) = {a. taTenantID a = t \<and> GetTask t (taID a) m = Inr a}
      \<and> distinct (ListTasks rng t m) \<and> sorted (map taCreatedAt (ListTasks rng t m))
    \<and> set (ListUsers rng t m) = {a. usTenantID a = t \<and> GetUser t (usID a) m = Inr a}
      \<and> distinct (ListUsers rng t m) \<and> sorted (map usUsername (ListUsers rng t m))
    \<and> set (ListRuns rng t f m) = {r. ruTenantID r = t \<and> GetRun t (ruID r) m = Inr r \<and> (f = '''' \<or> ruFlowID r = f)}
      \<and> distinct (ListRuns rng t f m) \<and> sorted (map ruStartedAt (ListRuns rng t f m))"
proof -
  note ok = memoryOk_tables [OF reachable_memoryOk [OF assms(1)]]
  have runs: "ListRuns rng t f m = sort_key ruStartedAt (filter (\<lambda>r. f = '''' \<or> ruFlowID r = f) (tableValues rng t (mRuns m)))"
    by (auto simp: ListRuns_def intro: arg_cong [where f = "sort_key ruStartedAt"] filter_cong)
  have all: "ListRuns rng t '''' m = sort_key ruStartedAt (tableValues rng t (mRuns m))" by (simp add: ListRuns_def)
  have r1: "set (ListRuns rng t f m) = {r. ruTenantID r = t \<and> GetRun t (ruID r) m = Inr r \<and> (f = '''' \<or> ruFlowID r = f)}"
    using runs_list.list_own [OF assms(2) ok(4), of _ t] unfolding runs all by (auto simp del: filter_True)
  have r2: "distinct (ListRuns rng t f m)" "sorted (map ruStartedAt (ListRuns rng t f m))"
    using distinct_tableValues [OF assms(2) ok(4), of t] by (simp_all add: runs)
  note own = agents_list.list_own [OF assms(2) ok(1), of _ t] servers_list.list_own [OF assms(2) ok(2), of _ t]
    flows_list.list_own [OF assms(2) ok(3), of _ t] tasks_list.list_own [OF assms(2) ok(5), of _ t]
    users_list.list_own [OF assms(2) ok(6), of _ t]
  note dist = agents_list.list_distinct [OF assms(2) ok(1)] servers_list.list_distinct [OF assms(2) ok(2)]
    flows_list.list_distinct [OF assms(2) ok(3)] tasks_list.list_distinct [OF assms(2) ok(5)]
    users_list.list_distinct [OF assms(2) ok(6)]
  show ?thesis
    by (intro conjI r1 r2 dist agents_list.list_sorted servers_list.list_sorted flows_list.list_sorted
        tasks_list.list_sorted users_list.list_sorted; simp only: set_eq_iff own mem_Collect_eq simp_thms)
qed

theorem listings_exact_witness: "sampleStoredFlow ''t1'' ''f1'' \<in> set (ListFlows rev ''t1'' sampleMemory)"
proof -
  have "set (ListFlows rev ''t1'' sampleMemory) = {a. flTenantID a = ''t1'' \<and> GetFlow ''t1'' (flID a) sampleMemory = Inr a}"
    using listings_exact [OF sampleMemory_reachable go_range_order_rev, of "''t1''" "''''"] by (elim conjE)
  moreover have "GetFlow ''t1'' ''f1'' sampleMemory = Inr (sampleStoredFlow ''t1'' ''f1'')" by code_simp
  ultimately show ?thesis by (simp add: sampleStoredFlow_def)
qed

text \<open>The life of a resource, here a flow: after a successful create it can be read back and not be created again,
  an update replaces it, after a delete it is not found, and its id can be used again.\<close>

theorem flow_lifecycle:
  assumes "CreateFlow x m = (Inr y, m1)"
    and "flTenantID z = flTenantID x" and "flID z = flID x"
  shows "y = x \<and> GetFlow (flTenantID x) (flID x) m1 = Inr x \<and> fst (CreateFlow z m1) = Inl ErrConflict
    \<and> fst (UpdateFlow z m1) = Inr z \<and> GetFlow (flTenantID x) (flID x) (snd (UpdateFlow z m1)) = Inr z
    \<and> GetFlow (flTenantID x) (flID x) (snd (DeleteFlow (flTenantID x) (flID x) m1)) = Inl ErrNotFound
    \<and> fst (CreateFlow x (snd (DeleteFlow (flTenantID x) (flID x) m1))) = Inr x"
proof -
  have c: "fst (CreateFlow x m) = Inr y" "snd (CreateFlow x m) = m1" using assms(1) by simp_all
  have i: "flID x \<noteq> ''''" "y = x" using c(1) flows.create_result [of x m] by (auto split: if_splits)
  note upd = flows.create_then_update [OF c(1) assms(2,3), unfolded c(2)]
  show ?thesis
    using i(2) flows.create_then_get [OF c(1), unfolded c(2)] flows.create_twice [OF c(1) assms(2,3), unfolded c(2)]
      upd flows.delete_then_get flows.delete_then_create [OF i(1)]
    by (intro conjI) (simp_all only: simp_thms)
qed

theorem flow_lifecycle_witness:
  "GetFlow ''t1'' ''f2'' (snd (CreateFlow (sampleStoredFlow ''t1'' ''f2'') sampleMemory)) = Inr (sampleStoredFlow ''t1'' ''f2'')"
proof -
  let ?x = "sampleStoredFlow ''t1'' ''f2''"
  have "fst (CreateFlow ?x sampleMemory) = Inr ?x" by code_simp
  then have c: "CreateFlow ?x sampleMemory = (Inr ?x, snd (CreateFlow ?x sampleMemory))" by (metis prod.collapse)
  have "flTenantID ?x = ''t1''" "flID ?x = ''f2''" by (simp_all add: sampleStoredFlow_def)
  with flow_lifecycle [OF c refl refl] show ?thesis by (simp only: simp_thms)
qed

text \<open>Logging in by name is well defined as long as names are: a user whose name no other user of the tenant has
  is found by it, whatever order Go visits the map in.\<close>

theorem GetUserByUsername_unique:
  assumes "go_range_order rng" and "GetUser t i m = Inr u"
    and "\<forall>j v. GetUser t j m = Inr v \<longrightarrow> usUsername v = usUsername u \<longrightarrow> v = u"
  shows "GetUserByUsername rng t (usUsername u) m = Inr u"
proof -
  have vals: "set (tableValues rng t (mUsers m)) = {v. \<exists>j. GetUser t j m = Inr v}"
    using set_tableValues [OF assms(1)] by (simp add: GetUser_def)
  with assms(2) have "u \<in> set (tableValues rng t (mUsers m))" by blast
  from find_witness [OF this, of "\<lambda>v. usUsername v = usUsername u"] obtain v where
    v: "find (\<lambda>v. usUsername v = usUsername u) (tableValues rng t (mUsers m)) = Some v"
      "v \<in> set (tableValues rng t (mUsers m))" "usUsername v = usUsername u" by blast
  with vals assms(3) have "v = u" by blast
  with v(1) show ?thesis by (simp add: GetUserByUsername_def)
qed

theorem GetUserByUsername_unique_witness:
  "GetUserByUsername rev ''t1'' ''ann'' sampleMemory = Inr (sampleUser ''u1'' ''ann'')"
proof -
  have g: "GetUser ''t1'' ''u1'' sampleMemory = Inr (sampleUser ''u1'' ''ann'')" by code_simp
  have "mUsers sampleMemory = [(''t1'', [(''u1'', sampleUser ''u1'' ''ann'')])]" by code_simp
  then have "\<forall>j v. GetUser ''t1'' j sampleMemory = Inr v \<longrightarrow> v = sampleUser ''u1'' ''ann''"
    by (auto simp: GetUser_def tableGet_def gget_def glookup_def split: if_splits option.splits)
  then have "\<forall>j v. GetUser ''t1'' j sampleMemory = Inr v \<longrightarrow> usUsername v = usUsername (sampleUser ''u1'' ''ann'') \<longrightarrow> v = sampleUser ''u1'' ''ann''"
    by blast
  from GetUserByUsername_unique [OF go_range_order_rev g this] show ?thesis by (simp add: sampleUser_def)
qed

text \<open>The in-memory store does not keep user names unique: it accepts a second user of the same name, and the user
  found by that name then depends on the order in which Go visits the map.\<close>

theorem duplicate_usernames:
  "(let (e1, m1) = store_step (OpCreateUser (sampleUser ''u2'' ''ann'')) sampleMemory
    in e1 = None \<and> GetUserByUsername id ''t1'' ''ann'' m1 = Inr (sampleUser ''u1'' ''ann'')
       \<and> GetUserByUsername rev ''t1'' ''ann'' m1 = Inr (sampleUser ''u2'' ''ann''))"
  by code_simp

end
