(* ===== verification/Mcp.thy ===== *)
theory Mcp
  imports Values
begin

text \<open>
  Types of the MCP client (\<open>internal/mcp/client.go\<close>), the text of a tool result, and the mock client of
  \<open>internal/mcp/mock.go\<close>.

  The clients of a tool call see it as a function \<open>callTool\<close> from a transport, a tool name, arguments and a client
  state to an error or result and the next client state. \<open>json.Unmarshal\<close> into \<open>Transport\<close> and
  \<open>json.Marshal\<close> are parameters.
\<close>

record Transport =
  trType :: string
  trCommand :: string
  trArgs :: "string list"
  trURL :: string

record Tool =
  toName :: string
  toDescription :: string
  toInputSchema :: string

record ContentBlock =
  cbType :: string
  cbText :: string
  cbData :: string
  cbMimeType :: string

record ToolResult =
  trContent :: "ContentBlock list"
  trIsError :: bool

type_synonym args = "(string, any) gomap"

type_synonym 'c callTool = "Transport \<Rightarrow> string \<Rightarrow> args \<Rightarrow> 'c \<Rightarrow> (string, ToolResult) result \<times> 'c"

definition TransportFromServer :: "(string \<Rightarrow> (string, Transport) result) \<Rightarrow> string \<Rightarrow> (string, Transport) result" where
  "TransportFromServer unmarshal raw = unmarshal raw"

abbreviation newline :: string where
  "newline \<equiv> [CHR 0x0A]"

text \<open>The loop of \<open>CallToolResult\<close>, from index \<open>i\<close> with \<open>out\<close> so far.\<close>

fun textLoop :: "nat \<Rightarrow> string \<Rightarrow> ContentBlock list \<Rightarrow> string" where
  "textLoop i out [] = out"
| "textLoop i out (b # bs) = textLoop (Suc i) ((if 0 < i then out @ newline else out) @ cbText b) bs"

definition CallToolResult :: "ToolResult \<Rightarrow> string" where
  "CallToolResult r = textLoop 0 '''' (trContent r)"

lemma textLoop_Suc: "textLoop (Suc i) out bs = out @ concat (map (\<lambda>b. newline @ cbText b) bs)"
  by (induction bs arbitrary: i out) auto

lemma Join_concat: "Join (x # xs) sep = x @ concat (map (\<lambda>y. sep @ y) xs)"
  by (induction xs arbitrary: x) auto

lemma CallToolResult_Join: "CallToolResult r = Join (map cbText (trContent r)) newline"
  by (cases "trContent r") (simp_all add: CallToolResult_def textLoop_Suc Join_concat comp_def)

section \<open>The mock client\<close>

record CallRecord =
  crServer :: Transport
  crName :: string
  crArgs :: args

record MockClient =
  mcTools :: "Tool list"
  mcHandler :: "(Transport \<Rightarrow> string \<Rightarrow> args \<Rightarrow> (string, string) result) option"
  mcCalls :: "CallRecord list"

definition NewMockClient :: MockClient where
  "NewMockClient = \<lparr>mcTools = [], mcHandler = None, mcCalls = []\<rparr>"

definition Calls :: "MockClient \<Rightarrow> CallRecord list" where
  "Calls m = mcCalls m"

definition textBlock :: "string \<Rightarrow> ToolResult" where
  "textBlock s = \<lparr>trContent = [\<lparr>cbType = ''text'', cbText = s, cbData = '''', cbMimeType = ''''\<rparr>], trIsError = False\<rparr>"

definition mockCallTool :: "(any \<Rightarrow> (string, string) result) \<Rightarrow> MockClient callTool" where
  "mockCallTool marshal s name args m =
     (let m' = m \<lparr>mcCalls := mcCalls m @ [\<lparr>crServer = s, crName = name, crArgs = args\<rparr>]\<rparr>
      in (case mcHandler m of
            Some handler \<Rightarrow> map_res textBlock (handler s name args)
          | None \<Rightarrow> map_res (\<lambda>b. textBlock (name @ ''('' @ b @ '')'')) (marshal (VMap args)), m'))"

end
