(* ===== verification/Flow_Engine.thy ===== *)
theory Flow_Engine
  imports Expr_Parser Flow_Graph Side_Effects Memory_Store Mcp
begin

text \<open>
  The flow engine (\<open>internal/flow/engine.go\<close>, \<open>internal/flow/nodes.go\<close>): the node executors and \<open>Execute\<close>.

  \<open>execContext\<close> is the state of one execution together with what the engine shares: the side-effect store and the state
  of the MCP client. What the engine calls outside of its package is in \<open>Env\<close>: the look-ups of the resource store (it
  only reads it), the JSON decoders and encoder, the MCP client, the side-effect store, the clock, the
  uuid generator and the text of an error. The clock is read once per log entry, so a reading is numbered by
  \<open>seq\<close>; uuids are numbered by the effects applied.

  An index panic of the expression evaluator is not an error value: it unwinds \<open>Execute\<close>, \<open>Panicked\<close>.
\<close>

section \<open>Types\<close>

datatype flow_err =
    GraphErr graph_error
  | AgentLookup string store_error
  | AgentServer string string store_error
  | AgentTransport string string
  | AgentCall string string string
  | ToolLookup string store_error
  | ToolTransport string string
  | ToolCall string string string
  | ConditionErr expr_error
  | EffectErr string
  | ErrPermissionDenied string string
  | UnknownNodeType string

datatype exec_fail = Failed flow_err | Panic

record ('s, 'c) Env =
  enGetAgent :: "string \<Rightarrow> string \<Rightarrow> (store_error, Agent) result"
  enGetMcpServer :: "string \<Rightarrow> string \<Rightarrow> (store_error, McpServer) result"
  enDecodeFlow :: "string \<Rightarrow> (string, FlowDef) result"
  enDecodeTransport :: "string \<Rightarrow> (string, Transport) result"
  enMarshal :: "any \<Rightarrow> (string, string) result"
  enCallTool :: "'c callTool"
  enEffects :: "'s SideEffectStore"
  enNow :: "nat \<Rightarrow> time"
  enUuid :: "nat \<Rightarrow> string"
  enErrText :: "flow_err \<Rightarrow> string"
  enRange :: range_order

record ('s, 'c) execContext =
  ecRecords :: "EffectRecord list"
  ecStore :: 's
  ecClient :: 'c
  ecOutputs :: "(string, any) gomap"
  ecLogs :: "LogEntry list"
  ecSeq :: nat

record ExecutionResult =
  xrStatus :: string
  xrResult :: raw
  xrLogs :: "LogEntry list"
  xrErr :: "flow_err option"

section \<open>Node executors\<close>

definition ec_log :: "('s, 'c) Env \<Rightarrow> string \<Rightarrow> string \<Rightarrow> ('s, 'c) execContext \<Rightarrow> ('s, 'c) execContext" where
  "ec_log env level message ec =
     ec \<lparr>ecSeq := ecSeq ec + 1,
         ecLogs := ecLogs ec @ [\<lparr>leTimestamp = enNow env (ecSeq ec), leLevel = level, leMessage = message, leSource = ''flow''\<rparr>]\<rparr>"

text \<open>\<open>ec.rb.apply\<close>\<close>

definition applyEffect :: "('s, 'c) Env \<Rightarrow> Effect \<Rightarrow> ('s, 'c) execContext \<Rightarrow> string option \<times> ('s, 'c) execContext" where
  "applyEffect env e ec =
     (case rb_apply (enEffects env) (enUuid env (length (ecRecords ec))) e (ecRecords ec, ecStore ec) of
        (err, records, s) \<Rightarrow> (err, ec \<lparr>ecRecords := records, ecStore := s\<rparr>))"

definition triggerTypeOr :: "string \<Rightarrow> string" where
  "triggerTypeOr t = (if t = '''' then TriggerManual else t)"

text \<open>The loop of \<open>runAgent\<close> over the skills, with the texts so far.\<close>

fun runSkills :: "('s, 'c) Env \<Rightarrow> Flow \<Rightarrow> Node \<Rightarrow> Agent \<Rightarrow> any \<Rightarrow> Skill list \<Rightarrow> string list \<Rightarrow> 'c
    \<Rightarrow> (exec_fail, string list) result \<times> 'c" where
  "runSkills env fl node agent input [] outputs c = (Inr outputs, c)"
| "runSkills env fl node agent input (sk # sks) outputs c =
     (case enGetMcpServer env (flTenantID fl) (skServerID sk) of
        Inl e \<Rightarrow> (Inl (Failed (AgentServer (nID node) (skServerID sk) e)), c)
      | Inr server \<Rightarrow>
          (case TransportFromServer (enDecodeTransport env) (msvTransport server) of
             Inl e \<Rightarrow> (Inl (Failed (AgentTransport (nID node) e)), c)
           | Inr transport \<Rightarrow>
               (case enCallTool env transport (skTool sk)
                       [(''input'', input), (''prompt'', VString (agSystemPrompt agent))] c of
                  (Inl e, c') \<Rightarrow> (Inl (Failed (AgentCall (nID node) (skTool sk) e)), c')
                | (Inr res, c') \<Rightarrow> runSkills env fl node agent input sks (outputs @ [CallToolResult res]) c')))"

definition runAgent :: "('s, 'c) Env \<Rightarrow> Flow \<Rightarrow> Node \<Rightarrow> any \<Rightarrow> ('s, 'c) execContext
    \<Rightarrow> (exec_fail, any) result \<times> ('s, 'c) execContext" where
  "runAgent env fl node input ec =
     (case enGetAgent env (flTenantID fl) (nAgentID node) of
        Inl e \<Rightarrow> (Inl (Failed (AgentLookup (nID node) e)), ec)
      | Inr agent \<Rightarrow>
          let ec1 = ec_log env ''info'' (''agent node '' @ nID node @ '' -> agent '' @ agName agent) ec;
              (res, c) = runSkills env fl node agent input (agSkills agent) [] (ecClient ec1)
          in (map_res (\<lambda>outs. VMap [(''agent'', VString (agName agent)), (''output'', VString (Join outs newline))]) res,
              ec1 \<lparr>ecClient := c\<rparr>))"

definition runMcpTool :: "('s, 'c) Env \<Rightarrow> Flow \<Rightarrow> Node \<Rightarrow> any \<Rightarrow> ('s, 'c) execContext
    \<Rightarrow> (exec_fail, any) result \<times> ('s, 'c) execContext" where
  "runMcpTool env fl node input ec =
     (case enGetMcpServer env (flTenantID fl) (nServerID node) of
        Inl e \<Rightarrow> (Inl (Failed (ToolLookup (nID node) e)), ec)
      | Inr server \<Rightarrow>
          (case TransportFromServer (enDecodeTransport env) (msvTransport server) of
             Inl e \<Rightarrow> (Inl (Failed (ToolTransport (nID node) e)), ec)
           | Inr transport \<Rightarrow>
               let args = (if glookup (nArguments node) ''input'' = None
                           then gput ''input'' input (nArguments node) else nArguments node)
               in (case enCallTool env transport (nTool node) args (ecClient ec) of
                     (Inl e, c) \<Rightarrow> (Inl (Failed (ToolCall (nID node) (nTool node) e)), ec \<lparr>ecClient := c\<rparr>)
                   | (Inr res, c) \<Rightarrow>
                       let txt = CallToolResult res;
                           ec1 = ec_log env ''info''
                                   (''mcp_tool node '' @ nID node @ '' -> '' @ nServerID node @ ''/'' @ nTool node)
                                   (ec \<lparr>ecClient := c\<rparr>);
                           (err, ec2) = applyEffect env
                                   \<lparr>efKind = ''mcp_tool'', efTarget = nServerID node @ ''/'' @ nTool node, efValue = VString txt,
                                     efMeta = [(''server_id'', VString (nServerID node)), (''tool'', VString (nTool node)),
                                               (''args'', VMap args)]\<rparr> ec1
                       in (case err of
                             Some e \<Rightarrow> (Inl (Failed (EffectErr e)), ec2)
                           | None \<Rightarrow> (Inr (VMap [(''server_id'', VString (nServerID node)), (''tool'', VString (nTool node)),
                                               (''output'', VString txt)]), ec2)))))"

definition containsString :: "string list \<Rightarrow> string \<Rightarrow> bool" where
  "containsString list target = list_ex (\<lambda>s. s = target) list"

definition checkOutputPermission :: "Flow \<Rightarrow> Node \<Rightarrow> (flow_err, unit) result" where
  "checkOutputPermission fl node =
     (if nKind node = OutputDatabase \<and> containsString (fpDatabases (flPermissions fl)) (nTarget node) then Inr ()
      else if nKind node = OutputFile \<and> containsString (fpFiles (flPermissions fl)) (nTarget node) then Inr ()
      else if nKind node = OutputModbus \<and> containsString (fpResources (flPermissions fl)) (nTarget node) then Inr ()
      else if nKind node = OutputHTTP then Inr ()
      else Inl (ErrPermissionDenied (nKind node) (nTarget node)))"

definition resolveValue :: "any \<Rightarrow> any \<Rightarrow> any" where
  "resolveValue v input = (if v = VString ''$input'' \<or> v = VString ''$result'' then input else v)"

definition runOutput :: "('s, 'c) Env \<Rightarrow> Flow \<Rightarrow> Node \<Rightarrow> any \<Rightarrow> ('s, 'c) execContext
    \<Rightarrow> (exec_fail, any) result \<times> ('s, 'c) execContext" where
  "runOutput env fl node input ec =
     (case checkOutputPermission fl node of
        Inl e \<Rightarrow> (Inl (Failed e), ec)
      | Inr _ \<Rightarrow>
          let value = resolveValue (nValue node) input;
              (err, ec1) = applyEffect env \<lparr>efKind = nKind node, efTarget = nTarget node, efValue = value,
                                             efMeta = [(''node'', VString (nID node))]\<rparr> ec
          in (case err of
                Some e \<Rightarrow> (Inl (Failed (EffectErr e)), ec1)
              | None \<Rightarrow>
                  (Inr (VMap [(''kind'', VString (nKind node)), (''target'', VString (nTarget node)), (''value'', value)]),
                   ec_log env ''info'' (''output node '' @ nID node @ '' -> '' @ nKind node @ '':'' @ nTarget node) ec1)))"

definition runTrigger :: "Node \<Rightarrow> any" where
  "runTrigger node =
     (if nValue node \<noteq> VNil then nValue node
      else VMap [(''triggered'', VBool True), (''type'', VString (triggerTypeOr (nTriggerType node)))])"

definition runCondition :: "Node \<Rightarrow> any \<Rightarrow> (exec_fail, any) result" where
  "runCondition node input = (case evalExpression (nExpression node) [(''result'', input)] of
      Inl (ExprErr e) \<Rightarrow> Inl (Failed (ConditionErr e))
    | Inl _ \<Rightarrow> Inl Panic
    | Inr v \<Rightarrow> Inr v)"

definition executeNode :: "('s, 'c) Env \<Rightarrow> Flow \<Rightarrow> Node \<Rightarrow> any \<Rightarrow> ('s, 'c) execContext
    \<Rightarrow> (exec_fail, any) result \<times> ('s, 'c) execContext" where
  "executeNode env fl node input ec =
     (if nType node = NodeTypeTrigger then (Inr (runTrigger node), ec)
      else if nType node = NodeTypeAgent then runAgent env fl node input ec
      else if nType node = NodeTypeMcpTool then runMcpTool env fl node input ec
      else if nType node = NodeTypeCondition then (runCondition node input, ec)
      else if nType node = NodeTypeOutput then runOutput env fl node input ec
      else (Inl (Failed (UnknownNodeType (nType node))), ec))"

definition emittedHandles :: "Node \<Rightarrow> any \<Rightarrow> string list" where
  "emittedHandles node output =
     (if nType node = NodeTypeCondition then (if truthy output then [''true''] else [''false'']) else [''''])"

definition marshalResult :: "('s, 'c) Env \<Rightarrow> any \<Rightarrow> raw" where
  "marshalResult env v = (case enMarshal env v of Inl _ \<Rightarrow> ''{}'' | Inr b \<Rightarrow> b)"

section \<open>Execute\<close>

text \<open>The variables of the loop of \<open>Execute\<close>.\<close>

record ('s, 'c) walkState =
  wkQueue :: "string list"
  wkVisited :: "(string, bool) gomap"
  wkOrder :: "string list"
  wkCtx :: "('s, 'c) execContext"

text \<open>The body of the innermost loop for an edge whose target is not visited yet.\<close>

definition visitTarget :: "('s, 'c) Env \<Rightarrow> Flow \<Rightarrow> Graph \<Rightarrow> string \<Rightarrow> Edge \<Rightarrow> ('s, 'c) walkState
    \<Rightarrow> exec_fail option \<times> ('s, 'c) walkState" where
  "visitTarget env fl g cur edge w =
     (let w1 = w \<lparr>wkVisited := gput (eTarget edge) True (wkVisited w)\<rparr>;
          targetNode = gget emptyNode (gNodes g) (eTarget edge);
          (out, ec) = executeNode env fl targetNode (gget VNil (ecOutputs (wkCtx w)) cur) (wkCtx w)
      in (case out of
            Inl f \<Rightarrow> (Some f, w1 \<lparr>wkCtx := ec\<rparr>)
          | Inr v \<Rightarrow>
              (None, w1 \<lparr>wkCtx := ec_log env ''info'' (''node '' @ eTarget edge @ '' executed'')
                                   (ec \<lparr>ecOutputs := gput (eTarget edge) v (ecOutputs ec)\<rparr>),
                         wkOrder := wkOrder w @ [eTarget edge],
                         wkQueue := wkQueue w @ [eTarget edge]\<rparr>)))"

fun followEdges :: "('s, 'c) Env \<Rightarrow> Flow \<Rightarrow> Graph \<Rightarrow> string \<Rightarrow> Edge list \<Rightarrow> ('s, 'c) walkState
    \<Rightarrow> exec_fail option \<times> ('s, 'c) walkState" where
  "followEdges env fl g cur [] w = (None, w)"
| "followEdges env fl g cur (edge # es) w =
     (if gget False (wkVisited w) (eTarget edge) then followEdges env fl g cur es w
      else case visitTarget env fl g cur edge w of
        (Some f, w') \<Rightarrow> (Some f, w')
      | (None, w') \<Rightarrow> followEdges env fl g cur es w')"

fun followHandles :: "('s, 'c) Env \<Rightarrow> Flow \<Rightarrow> Graph \<Rightarrow> string \<Rightarrow> string list \<Rightarrow> ('s, 'c) walkState
    \<Rightarrow> exec_fail option \<times> ('s, 'c) walkState" where
  "followHandles env fl g cur [] w = (None, w)"
| "followHandles env fl g cur (h # hs) w =
     (case followEdges env fl g cur (OutgoingEdges g cur h) w of
        (Some f, w') \<Rightarrow> (Some f, w')
      | (None, w') \<Rightarrow> followHandles env fl g cur hs w')"

text \<open>The targets of the graph that are not visited yet: each pass of the loop takes one node off the queue, and puts
  on it only nodes that leave this set.\<close>

definition openTargets :: "Graph \<Rightarrow> (string, bool) gomap \<Rightarrow> string set" where
  "openTargets g vis = {t \<in> (\<Union>(k, es)\<in>set (gAdj g). eTarget ` set es). \<not> gget False vis t}"

lemma finite_openTargets [simp]: "finite (openTargets g vis)"
  by (auto simp: openTargets_def split: prod.splits)

lemma openTargets_visit:
  assumes "t \<in> openTargets g vis"
  shows "card (openTargets g (gput t True vis)) + 1 = card (openTargets g vis)"
proof -
  have "openTargets g (gput t True vis) = openTargets g vis - {t}" by (auto simp: openTargets_def)
  with card_Suc_Diff1 [OF finite_openTargets assms] show ?thesis by simp
qed

lemma visitTarget_fields:
  assumes "visitTarget env fl g cur edge w = (f, w')"
  shows "wkVisited w' = gput (eTarget edge) True (wkVisited w)"
    and "f = None \<Longrightarrow> wkQueue w' = wkQueue w @ [eTarget edge] \<and> wkOrder w' = wkOrder w @ [eTarget edge]"
    and "f \<noteq> None \<Longrightarrow> wkQueue w' = wkQueue w \<and> wkOrder w' = wkOrder w"
  using assms by (auto simp: visitTarget_def Let_def split: prod.splits sum.splits)

definition walkSize :: "Graph \<Rightarrow> ('s, 'c) walkState \<Rightarrow> nat" where
  "walkSize g w = length (wkQueue w) + card (openTargets g (wkVisited w))"

lemma visitTarget_size:
  assumes "visitTarget env fl g cur edge w = (f, w')" "eTarget edge \<in> openTargets g (wkVisited w)"
  shows "walkSize g w' \<le> walkSize g w"
  using visitTarget_fields [OF assms(1)] openTargets_visit [OF assms(2)]
  by (cases f) (simp_all add: walkSize_def)

lemma followEdges_size:
  "set es \<subseteq> (\<Union>(k, es)\<in>set (gAdj g). set es) \<Longrightarrow> followEdges env fl g cur es w = (f, w') \<Longrightarrow> walkSize g w' \<le> walkSize g w"
proof (induction env fl g cur es w rule: followEdges.induct)
  case (2 env fl g cur edge es w)
  show ?case
  proof (cases "gget False (wkVisited w) (eTarget edge)")
    case True
    with 2 show ?thesis by simp
  next
    case False
    with "2.prems" have o: "eTarget edge \<in> openTargets g (wkVisited w)" by (auto simp: openTargets_def)
    obtain f1 w1 where v: "visitTarget env fl g cur edge w = (f1, w1)" by force
    from visitTarget_size [OF v o] 2 v False show ?thesis by (cases f1) fastforce+
  qed
qed auto

lemma OutgoingEdges_adj: "set (OutgoingEdges g cur h) \<subseteq> (\<Union>(k, es)\<in>set (gAdj g). set es)"
proof
  fix e
  assume "e \<in> set (OutgoingEdges g cur h)"
  then obtain es where "glookup (gAdj g) cur = Some es" "e \<in> set es"
    by (cases "glookup (gAdj g) cur") (auto simp: OutgoingEdges_def gget_def)
  then show "e \<in> (\<Union>(k, es)\<in>set (gAdj g). set es)" by (force dest: glookup_in_set)
qed

lemma followHandles_size:
  "followHandles env fl g cur hs w = (f, w') \<Longrightarrow> walkSize g w' \<le> walkSize g w"
proof (induction env fl g cur hs w rule: followHandles.induct)
  case (2 env fl g cur h hs w)
  obtain f1 w1 where s: "followEdges env fl g cur (OutgoingEdges g cur h) w = (f1, w1)" by force
  from followEdges_size [OF OutgoingEdges_adj s] 2 s show ?case by (cases f1) fastforce+
qed auto

function walk :: "('s, 'c) Env \<Rightarrow> Flow \<Rightarrow> Graph \<Rightarrow> ('s, 'c) walkState \<Rightarrow> exec_fail option \<times> ('s, 'c) walkState" where
  "walk env fl g w = (case wkQueue w of
      [] \<Rightarrow> (None, w)
    | cur # queue \<Rightarrow>
        (case followHandles env fl g cur
                (emittedHandles (gget emptyNode (gNodes g) cur) (gget VNil (ecOutputs (wkCtx w)) cur))
                (w \<lparr>wkQueue := queue\<rparr>) of
           (Some f, w') \<Rightarrow> (Some f, w')
         | (None, w') \<Rightarrow> walk env fl g w'))"
  by pat_completeness auto
termination
proof (relation "measure (\<lambda>(env, fl, g, w). walkSize g w)", goal_cases)
  case (2 env fl g w cur queue p w')
  then have "walkSize g w' \<le> walkSize g (w \<lparr>wkQueue := queue\<rparr>)" by (metis followHandles_size)
  with 2 show ?case by (simp add: walkSize_def)
qed simp

declare walk.simps [simp del]

datatype outcome = Returned ExecutionResult | Panicked

definition rollbackAndFail :: "('s, 'c) Env \<Rightarrow> ('s, 'c) execContext \<Rightarrow> flow_err \<Rightarrow> ExecutionResult \<times> ('s, 'c) execContext" where
  "rollbackAndFail env ec err =
     (case rollback (enEffects env) (ecRecords ec, ecStore ec) of
        (errs, records, s) \<Rightarrow>
          let ec1 = ec_log env ''error'' (''execution failed: '' @ enErrText env err) (ec \<lparr>ecRecords := records, ecStore := s\<rparr>)
          in (\<lparr>xrStatus = RunStatusRolledBack,
               xrResult = marshalResult env (VMap [(''error'', VString (enErrText env err)),
                                                   (''rollback_errors'', VInt (int (length errs)))]),
               xrLogs = ecLogs ec1, xrErr = Some err\<rparr>, ec1))"

text \<open>What becomes of a failed execution: an error is rolled back, a panic is not.\<close>

definition finishFailed :: "('s, 'c) Env \<Rightarrow> exec_fail \<Rightarrow> ('s, 'c) execContext \<Rightarrow> outcome \<times> ('s, 'c) execContext" where
  "finishFailed env f ec = (case f of
      Panic \<Rightarrow> (Panicked, ec)
    | Failed err \<Rightarrow> apfst Returned (rollbackAndFail env ec err))"

definition resultMap :: "string \<Rightarrow> string list \<Rightarrow> (string, any) gomap \<Rightarrow> (string, any) gomap" where
  "resultMap trigger order outputs =
     fold (\<lambda>i m. gput i (gget VNil outputs i) m) order (gput trigger (gget VNil outputs trigger) [])"

definition Execute :: "('s, 'c) Env \<Rightarrow> Flow \<Rightarrow> 's \<Rightarrow> 'c \<Rightarrow> outcome \<times> ('s, 'c) execContext" where
  "Execute env fl s c =
     (let ec = \<lparr>ecRecords = [], ecStore = s, ecClient = c, ecOutputs = [], ecLogs = [], ecSeq = 0\<rparr> in
      case ParseAndValidate (enDecodeFlow env) (flFlowJSON fl) of
        Inl e \<Rightarrow>
          (Returned \<lparr>xrStatus = RunStatusFailed, xrResult = '''',
             xrLogs = [\<lparr>leTimestamp = enNow env 0, leLevel = ''error'', leMessage = enErrText env (GraphErr e), leSource = ''flow''\<rparr>],
             xrErr = Some (GraphErr e)\<rparr>, ec)
      | Inr g \<Rightarrow>
          (case Trigger (enRange env) g of
             Inl e \<Rightarrow> (Returned \<lparr>xrStatus = RunStatusFailed, xrResult = '''', xrLogs = [], xrErr = Some (GraphErr e)\<rparr>, ec)
           | Inr trigger \<Rightarrow>
               (case executeNode env fl trigger VNil ec of
                  (Inl f, ec1) \<Rightarrow> finishFailed env f ec1
                | (Inr out, ec1) \<Rightarrow>
                    let ec2 = ec_log env ''info'' (''node '' @ nID trigger @ '' executed'')
                                (ec1 \<lparr>ecOutputs := gput (nID trigger) out (ecOutputs ec1)\<rparr>)
                    in (case walk env fl g \<lparr>wkQueue = [nID trigger], wkVisited = gput (nID trigger) True [], wkOrder = [], wkCtx = ec2\<rparr> of
                          (Some f, w) \<Rightarrow> finishFailed env f (wkCtx w)
                        | (None, w) \<Rightarrow>
                            (Returned \<lparr>xrStatus = RunStatusSuccess,
                               xrResult = marshalResult env (VMap (resultMap (nID trigger) (wkOrder w) (ecOutputs (wkCtx w)))),
                               xrLogs = ecLogs (wkCtx w), xrErr = None\<rparr>, wkCtx w)))))"

definition Validate :: "('s, 'c) Env \<Rightarrow> raw \<Rightarrow> graph_error option" where
  "Validate env flowJSON = (case ParseAndValidate (enDecodeFlow env) flowJSON of Inl e \<Rightarrow> Some e | Inr _ \<Rightarrow> None)"
section \<open>What a node may do to the side-effect store\<close>

text \<open>The effects that a node is allowed: an output within the permissions of the flow, or the result of a tool call.\<close>

definition nodeEffect :: "Flow \<Rightarrow> Node \<Rightarrow> Effect \<Rightarrow> bool" where
  "nodeEffect fl node e \<longleftrightarrow>
     nType node = NodeTypeOutput \<and> checkOutputPermission fl node = Inr () \<and> efKind e = nKind node \<and> efTarget e = nTarget node
     \<or> nType node = NodeTypeMcpTool \<and> efKind e = ''mcp_tool''"

definition effectStep :: "('s, 'c) Env \<Rightarrow> Flow \<Rightarrow> Node \<Rightarrow> ('s, 'c) execContext \<Rightarrow> ('s, 'c) execContext \<Rightarrow> bool" where
  "effectStep env fl node ec ec' \<longleftrightarrow> ecOutputs ec' = ecOutputs ec \<and>
     ((ecRecords ec', ecStore ec') = (ecRecords ec, ecStore ec)
      \<or> (\<exists>uid e. nodeEffect fl node e
            \<and> (ecRecords ec', ecStore ec') = snd (rb_apply (enEffects env) uid e (ecRecords ec, ecStore ec))))"

lemma ec_log_fields [simp]:
  "ecRecords (ec_log env l m ec) = ecRecords ec" "ecStore (ec_log env l m ec) = ecStore ec"
  "ecOutputs (ec_log env l m ec) = ecOutputs ec" "ecClient (ec_log env l m ec) = ecClient ec"
  by (simp_all add: ec_log_def)

lemma applyEffect_fields:
  assumes "applyEffect env e ec = (err, ec')"
  shows "ecOutputs ec' = ecOutputs ec" "ecClient ec' = ecClient ec"
    "(ecRecords ec', ecStore ec') = snd (rb_apply (enEffects env) (enUuid env (length (ecRecords ec))) e (ecRecords ec, ecStore ec))"
  using assms by (auto simp: applyEffect_def split: prod.splits)

lemma runOutput_step:
  assumes "nType node = NodeTypeOutput" "runOutput env fl node input ec = (res, ec')"
  shows "effectStep env fl node ec ec'"
proof (cases "checkOutputPermission fl node")
  case (Inl e)
  with assms show ?thesis by (simp add: runOutput_def effectStep_def)
next
  case (Inr u)
  let ?e = "\<lparr>efKind = nKind node, efTarget = nTarget node, efValue = resolveValue (nValue node) input,
               efMeta = [(''node'', VString (nID node))]\<rparr>"
  obtain err ec1 where a: "applyEffect env ?e ec = (err, ec1)" by force
  have n: "nodeEffect fl node ?e" using assms(1) Inr by (simp add: nodeEffect_def)
  have "ecOutputs ec' = ecOutputs ec1" "ecRecords ec' = ecRecords ec1" "ecStore ec' = ecStore ec1"
    using assms(2) a Inr by (auto simp: runOutput_def Let_def split: option.splits)
  with applyEffect_fields [OF a] n show ?thesis unfolding effectStep_def by metis
qed

lemma runMcpTool_step:
  assumes "nType node = NodeTypeMcpTool" "runMcpTool env fl node input ec = (res, ec')"
  shows "effectStep env fl node ec ec'"
proof (cases "\<exists>server transport r c. enGetMcpServer env (flTenantID fl) (nServerID node) = Inr server
    \<and> TransportFromServer (enDecodeTransport env) (msvTransport server) = Inr transport
    \<and> enCallTool env transport (nTool node)
        (if glookup (nArguments node) ''input'' = None then gput ''input'' input (nArguments node) else nArguments node)
        (ecClient ec) = (Inr r, c)")
  case False
  then have "ecOutputs ec' = ecOutputs ec" "ecRecords ec' = ecRecords ec" "ecStore ec' = ecStore ec"
    using assms(2) by (auto simp: runMcpTool_def Let_def split: sum.split_asm prod.split_asm)
  then show ?thesis by (simp add: effectStep_def)
next
  case True
  then obtain server transport r c where c:
    "enGetMcpServer env (flTenantID fl) (nServerID node) = Inr server"
    "TransportFromServer (enDecodeTransport env) (msvTransport server) = Inr transport"
    "enCallTool env transport (nTool node)
        (if glookup (nArguments node) ''input'' = None then gput ''input'' input (nArguments node) else nArguments node)
        (ecClient ec) = (Inr r, c)" by blast
  define args where "args = (if glookup (nArguments node) ''input'' = None then gput ''input'' input (nArguments node) else nArguments node)"
  define e where "e = \<lparr>efKind = ''mcp_tool'', efTarget = nServerID node @ ''/'' @ nTool node, efValue = VString (CallToolResult r),
      efMeta = [(''server_id'', VString (nServerID node)), (''tool'', VString (nTool node)), (''args'', VMap args)]\<rparr>"
  define ec1 where "ec1 = ec_log env ''info'' (''mcp_tool node '' @ nID node @ '' -> '' @ nServerID node @ ''/'' @ nTool node) (ec \<lparr>ecClient := c\<rparr>)"
  obtain err ec2 where a: "applyEffect env e ec1 = (err, ec2)" by force
  have "ec' = ec2"
    using assms(2) c a unfolding args_def [symmetric] e_def ec1_def
    by (simp add: runMcpTool_def Let_def args_def [symmetric] split: option.splits)
  moreover have "nodeEffect fl node e" using assms(1) by (simp add: nodeEffect_def e_def)
  moreover have "ecRecords ec1 = ecRecords ec" "ecStore ec1 = ecStore ec" "ecOutputs ec1 = ecOutputs ec" by (simp_all add: ec1_def)
  ultimately show ?thesis using applyEffect_fields [OF a] unfolding effectStep_def by metis
qed

lemma effectStep_same:
  "ecOutputs ec' = ecOutputs ec \<Longrightarrow> ecRecords ec' = ecRecords ec \<Longrightarrow> ecStore ec' = ecStore ec \<Longrightarrow> effectStep env fl node ec ec'"
  by (simp add: effectStep_def)

lemma runAgent_step: "runAgent env fl node input ec = (res, ec') \<Longrightarrow> effectStep env fl node ec ec'"
  by (rule effectStep_same) (auto simp: runAgent_def Let_def split: sum.splits prod.splits)

lemma executeNode_step:
  assumes "executeNode env fl node input ec = (res, ec')"
  shows "effectStep env fl node ec ec'"
proof -
  consider (out) "nType node = NodeTypeOutput" | (tool) "nType node = NodeTypeMcpTool" | (agent) "nType node = NodeTypeAgent"
    | (none) "nType node \<noteq> NodeTypeOutput" "nType node \<noteq> NodeTypeMcpTool" "nType node \<noteq> NodeTypeAgent" by blast
  then show ?thesis
  proof cases
    case none
    with assms have "ec' = ec" by (simp add: executeNode_def split: if_split_asm)
    then show ?thesis by (simp add: effectStep_same)
  qed (use assms runOutput_step runMcpTool_step runAgent_step in \<open>simp_all add: executeNode_def\<close>)
qed

section \<open>Invariants of an execution\<close>

text \<open>A predicate on the execution context that every node of the graph keeps, and that does not look at outputs
  and logs, holds all along the walk.\<close>

definition keeps :: "('s, 'c) Env \<Rightarrow> Flow \<Rightarrow> Node set \<Rightarrow> (('s, 'c) execContext \<Rightarrow> bool) \<Rightarrow> bool" where
  "keeps env fl N I \<longleftrightarrow>
     (\<forall>node ec ec'. node \<in> N \<longrightarrow> effectStep env fl node ec ec' \<longrightarrow> I ec \<longrightarrow> I ec')
     \<and> (\<forall>ec ec'. ecRecords ec' = ecRecords ec \<longrightarrow> ecStore ec' = ecStore ec \<longrightarrow> I ec \<longrightarrow> I ec')"

definition graphNodes :: "Graph \<Rightarrow> Node set" where
  "graphNodes g = insert emptyNode (snd ` set (gNodes g))"

lemma gget_graphNodes: "gget emptyNode (gNodes g) t \<in> graphNodes g"
  by (force simp: gget_def graphNodes_def split: option.splits dest: glookup_in_set)

lemma visitTarget_keeps:
  assumes "keeps env fl (graphNodes g) I" "I (wkCtx w)" "visitTarget env fl g cur edge w = (f, w')"
  shows "I (wkCtx w')"
proof -
  obtain res ec where x: "executeNode env fl (gget emptyNode (gNodes g) (eTarget edge)) (gget VNil (ecOutputs (wkCtx w)) cur) (wkCtx w) = (res, ec)"
    by force
  from executeNode_step [OF x] assms(1,2) gget_graphNodes have "I ec" unfolding keeps_def by blast
  moreover have "ecRecords (wkCtx w') = ecRecords ec" "ecStore (wkCtx w') = ecStore ec"
    using assms(3) x by (auto simp: visitTarget_def Let_def split: sum.splits)
  ultimately show ?thesis using assms(1) unfolding keeps_def by blast
qed

lemma followEdges_keeps:
  assumes "keeps env fl (graphNodes g) I"
  shows "I (wkCtx w) \<Longrightarrow> followEdges env fl g cur es w = (f, w') \<Longrightarrow> I (wkCtx w')"
proof (induction es arbitrary: w)
  case (Cons edge es)
  show ?case
  proof (cases "gget False (wkVisited w) (eTarget edge)")
    case True
    with Cons show ?thesis by simp
  next
    case False
    obtain f1 w1 where v: "visitTarget env fl g cur edge w = (f1, w1)" by force
    from visitTarget_keeps [OF assms Cons.prems(1) v] Cons v False show ?thesis by (cases f1) auto
  qed
qed simp

lemma followHandles_keeps:
  assumes "keeps env fl (graphNodes g) I"
  shows "I (wkCtx w) \<Longrightarrow> followHandles env fl g cur hs w = (f, w') \<Longrightarrow> I (wkCtx w')"
proof (induction hs arbitrary: w)
  case (Cons h hs)
  obtain f1 w1 where v: "followEdges env fl g cur (OutgoingEdges g cur h) w = (f1, w1)" by force
  from followEdges_keeps [OF assms Cons.prems(1) v] Cons v show ?case by (cases f1) auto
qed simp

lemma walk_keeps:
  "keeps env fl (graphNodes g) I \<Longrightarrow> I (wkCtx w) \<Longrightarrow> walk env fl g w = (f, w') \<Longrightarrow> I (wkCtx w')"
proof (induction env fl g w rule: walk.induct)
  case (1 env fl g w)
  show ?case
  proof (cases "wkQueue w")
    case Nil
    with 1 show ?thesis by (simp add: walk.simps [of env fl g w])
  next
    case (Cons cur queue)
    let ?hs = "emittedHandles (gget emptyNode (gNodes g) cur) (gget VNil (ecOutputs (wkCtx w)) cur)"
    obtain f1 w1 where h: "followHandles env fl g cur ?hs (w \<lparr>wkQueue := queue\<rparr>) = (f1, w1)" by force
    have "I (wkCtx w1)" using followHandles_keeps [OF "1.prems"(1) _ h] "1.prems"(2) by simp
    with "1.IH" [OF Cons h [symmetric]] "1.prems" Cons h show ?thesis
      by (cases f1) (simp_all add: walk.simps [of env fl g w])
  qed
qed

text \<open>The invariant holds when \<open>Execute\<close> ends, and, where it ends in a rollback, it held before.\<close>

definition startCtx :: "'s \<Rightarrow> 'c \<Rightarrow> ('s, 'c) execContext" where
  "startCtx s c = \<lparr>ecRecords = [], ecStore = s, ecClient = c, ecOutputs = [], ecLogs = [], ecSeq = 0\<rparr>"

text \<open>How an execution ends: \<open>endsAt r ec res ec'\<close> relates the failure or success of the walk, the context at that
  moment, and the outcome and context that \<open>Execute\<close> returns.\<close>

definition endsAt :: "('s, 'c) Env \<Rightarrow> exec_fail option \<Rightarrow> ('s, 'c) execContext \<Rightarrow> outcome \<Rightarrow> ('s, 'c) execContext \<Rightarrow> bool" where
  "endsAt env r ec out ec' \<longleftrightarrow> (case r of
      None \<Rightarrow> ec' = ec \<and> (\<exists>res. out = Returned res \<and> xrStatus res = RunStatusSuccess)
    | Some f \<Rightarrow> finishFailed env f ec = (out, ec'))"

lemma Execute_cases:
  assumes "Execute env fl s c = (out, ec')"
  obtains (refused) e res where "out = Returned res" "xrStatus res = RunStatusFailed" "ec' = startCtx s c" "xrErr res = Some (GraphErr e)"
  | (ran) g trigger r ec where "ParseAndValidate (enDecodeFlow env) (flFlowJSON fl) = Inr g"
      "Trigger (enRange env) g = Inr trigger" "endsAt env r ec out ec'"
      "executeNode env fl trigger VNil (startCtx s c) = (Inl (the r), ec) \<and> r \<noteq> None
       \<or> (\<exists>v ec1 w. executeNode env fl trigger VNil (startCtx s c) = (Inr v, ec1) \<and> wkCtx w = ec
            \<and> walk env fl g \<lparr>wkQueue = [nID trigger], wkVisited = gput (nID trigger) True [], wkOrder = [],
                 wkCtx = ec_log env ''info'' (''node '' @ nID trigger @ '' executed'')
                           (ec1 \<lparr>ecOutputs := gput (nID trigger) v (ecOutputs ec1)\<rparr>)\<rparr> = (r, w))"
proof (cases "ParseAndValidate (enDecodeFlow env) (flFlowJSON fl)")
  case (Inl e)
  with assms show ?thesis by (intro refused) (auto simp: Execute_def startCtx_def)
next
  case (Inr g)
  show ?thesis
  proof (cases "Trigger (enRange env) g")
    case (Inl e)
    with Inr assms show ?thesis by (intro refused) (auto simp: Execute_def startCtx_def)
  next
    case t: (Inr trigger)
    obtain x ec1 where x: "executeNode env fl trigger VNil (startCtx s c) = (x, ec1)" by force
    show ?thesis
    proof (cases x)
      case (Inl f)
      with Inr t x assms have "endsAt env (Some f) ec1 out ec'" by (simp add: Execute_def startCtx_def endsAt_def)
      with Inr t x Inl show ?thesis by (intro ran) auto
    next
      case v: (Inr v)
      let ?w = "\<lparr>wkQueue = [nID trigger], wkVisited = gput (nID trigger) True [], wkOrder = [],
                 wkCtx = ec_log env ''info'' (''node '' @ nID trigger @ '' executed'')
                           (ec1 \<lparr>ecOutputs := gput (nID trigger) v (ecOutputs ec1)\<rparr>)\<rparr>"
      obtain r w where w: "walk env fl g ?w = (r, w)" by force
      from Inr t x v w assms have "endsAt env r (wkCtx w) out ec'"
        by (cases r) (auto simp: Execute_def startCtx_def [symmetric] endsAt_def)
      with Inr t x v w show ?thesis by (intro ran) auto
    qed
  qed
qed

lemma Trigger_node: "Trigger rng g = Inr n \<Longrightarrow> go_range_order rng \<Longrightarrow> n \<in> graphNodes g"
proof -
  assume "Trigger rng g = Inr n" "go_range_order rng"
  then have "n \<in> set (gvalues rng (gNodes g))"
    by (auto simp: Trigger_def find_Some_iff split: option.splits)
  with \<open>go_range_order rng\<close> show ?thesis
    by (force simp: set_gvalues graphNodes_def dest: glookup_in_set)
qed

lemma Execute_keeps:
  assumes "Execute env fl s c = (out, ec')" "go_range_order (enRange env)"
    and "\<And>g. ParseAndValidate (enDecodeFlow env) (flFlowJSON fl) = Inr g \<Longrightarrow> keeps env fl (graphNodes g) I"
    and "I (startCtx s c)"
  shows "(\<exists>res. out = Returned res \<and> xrStatus res = RunStatusFailed \<and> ec' = startCtx s c)
    \<or> (\<exists>r ec. endsAt env r ec out ec' \<and> I ec)"
  using assms(1)
proof (cases rule: Execute_cases)
  case (refused e res)
  then show ?thesis by blast
next
  case (ran g trigger r ec)
  note k = assms(3) [OF ran(1)]
  from ran(4) show ?thesis
  proof
    assume "executeNode env fl trigger VNil (startCtx s c) = (Inl (the r), ec) \<and> r \<noteq> None"
    then have "I ec" using executeNode_step k assms(4) Trigger_node [OF ran(2) assms(2)] unfolding keeps_def by blast
    with ran(3) show ?thesis by blast
  next
    assume "\<exists>v ec1 w. executeNode env fl trigger VNil (startCtx s c) = (Inr v, ec1) \<and> wkCtx w = ec
            \<and> walk env fl g \<lparr>wkQueue = [nID trigger], wkVisited = gput (nID trigger) True [], wkOrder = [],
                 wkCtx = ec_log env ''info'' (''node '' @ nID trigger @ '' executed'')
                           (ec1 \<lparr>ecOutputs := gput (nID trigger) v (ecOutputs ec1)\<rparr>)\<rparr> = (r, w)"
    then obtain v ec1 w where x: "executeNode env fl trigger VNil (startCtx s c) = (Inr v, ec1)" and c: "wkCtx w = ec"
      and w: "walk env fl g \<lparr>wkQueue = [nID trigger], wkVisited = gput (nID trigger) True [], wkOrder = [],
                 wkCtx = ec_log env ''info'' (''node '' @ nID trigger @ '' executed'')
                           (ec1 \<lparr>ecOutputs := gput (nID trigger) v (ecOutputs ec1)\<rparr>)\<rparr> = (r, w)" by blast
    from executeNode_step [OF x] k assms(4) Trigger_node [OF ran(2) assms(2)] have "I ec1" unfolding keeps_def by blast
    moreover have "ecRecords (ec_log env l t (ec1 \<lparr>ecOutputs := o'\<rparr>)) = ecRecords ec1"
      "ecStore (ec_log env l t (ec1 \<lparr>ecOutputs := o'\<rparr>)) = ecStore ec1" for l t o' by simp_all
    ultimately have "I (ec_log env ''info'' (''node '' @ nID trigger @ '' executed'') (ec1 \<lparr>ecOutputs := gput (nID trigger) v (ecOutputs ec1)\<rparr>))"
      using k unfolding keeps_def by blast
    with walk_keeps [OF k _ w] c ran(3) show ?thesis by auto
  qed
qed

context side_effect_store
begin

lemma keeps_reversible:
  assumes "enEffects env = ops"
  shows "keeps env fl N (\<lambda>ec. reversible ops view s0 (ecRecords ec) (ecStore ec))"
  unfolding keeps_def
proof (intro conjI allI impI)
  fix node ec ec'
  assume e: "effectStep env fl node ec ec'" and r: "reversible ops view s0 (ecRecords ec) (ecStore ec)"
  show "reversible ops view s0 (ecRecords ec') (ecStore ec')"
  proof (cases "(ecRecords ec', ecStore ec') = (ecRecords ec, ecStore ec)")
    case False
    with e assms obtain uid x where "snd (rb_apply ops uid x (ecRecords ec, ecStore ec)) = (ecRecords ec', ecStore ec')"
      by (auto simp: effectStep_def)
    then have "rb_apply ops uid x (ecRecords ec, ecStore ec)
        = (fst (rb_apply ops uid x (ecRecords ec, ecStore ec)), ecRecords ec', ecStore ec')" by (metis prod.collapse)
    from reversible_apply [OF r this] show ?thesis .
  qed (use r in simp)
qed simp

lemma finishFailed_store:
  assumes "enEffects env = ops" "reversible ops view s0 (ecRecords ec) (ecStore ec)" "finishFailed env (Failed err) ec = (out, ec')"
  shows "view (ecStore ec') = view s0 \<and> ecRecords ec' = []
    \<and> (\<exists>res. out = Returned res \<and> xrStatus res = RunStatusRolledBack \<and> xrErr res = Some err)"
proof -
  from rollback_reversible [OF assms(2)] obtain t where
    "rollback ops (ecRecords ec, ecStore ec) = ([], [], t)" "view t = view s0" by blast
  with assms(1,3) show ?thesis by (auto simp: finishFailed_def rollbackAndFail_def Let_def)
qed

lemma Execute_rolls_back:
  assumes "enEffects env = ops" "go_range_order (enRange env)" "Execute env fl s c = (Returned res, ec')"
    and "xrStatus res \<noteq> RunStatusSuccess"
  shows "view (ecStore ec') = view s"
proof -
  let ?I = "\<lambda>ec. reversible ops view s (ecRecords ec) (ecStore ec)"
  have "?I (startCtx s c)" by (simp add: startCtx_def reversible_refl)
  from Execute_keeps [OF assms(3,2) keeps_reversible [OF assms(1)], of s, OF this]
  show ?thesis
  proof
    assume "\<exists>r ec. endsAt env r ec (Returned res) ec' \<and> ?I ec"
    then obtain r ec where e: "endsAt env r ec (Returned res) ec'" and i: "?I ec" by blast
    from e assms(4) obtain f where f: "finishFailed env f ec = (Returned res, ec')"
      by (cases r) (auto simp: endsAt_def)
    then obtain err where "f = Failed err" by (cases f) (auto simp: finishFailed_def)
    with finishFailed_store [OF assms(1) i] f show ?thesis by blast
  qed (auto simp: startCtx_def)
qed

end

lemma keeps_logCovers:
  assumes "enEffects env = memorySideEffects"
  shows "keeps env fl N (\<lambda>ec. logCovers m0 (ecRecords ec) (ecStore ec))"
  unfolding keeps_def
proof (intro conjI allI impI)
  fix node ec ec'
  assume e: "effectStep env fl node ec ec'" and r: "logCovers m0 (ecRecords ec) (ecStore ec)"
  show "logCovers m0 (ecRecords ec') (ecStore ec')"
  proof (cases "(ecRecords ec', ecStore ec') = (ecRecords ec, ecStore ec)")
    case False
    with e assms obtain uid x where "snd (rb_apply memorySideEffects uid x (ecRecords ec, ecStore ec)) = (ecRecords ec', ecStore ec')"
      by (auto simp: effectStep_def)
    then have "rb_apply memorySideEffects uid x (ecRecords ec, ecStore ec)
        = (fst (rb_apply memorySideEffects uid x (ecRecords ec, ecStore ec)), ecRecords ec', ecStore ec')" by (metis prod.collapse)
    from logCovers_apply [OF r this] show ?thesis .
  qed (use r in simp)
qed simp

lemma keeps_conj: "keeps env fl N P \<Longrightarrow> keeps env fl N Q \<Longrightarrow> keeps env fl N (\<lambda>ec. P ec \<and> Q ec)"
  unfolding keeps_def by blast

section \<open>Which nodes an execution reaches\<close>

text \<open>The edges that a node with an output takes.\<close>

definition taken :: "Graph \<Rightarrow> (string, any) gomap \<Rightarrow> (string \<times> string) set" where
  "taken g outs = {(a, b). glookup outs a \<noteq> None
     \<and> (\<exists>h\<in>set (emittedHandles (gget emptyNode (gNodes g) a) (gget VNil outs a)). b \<in> eTarget ` set (OutgoingEdges g a h))}"

definition walkInv :: "Graph \<Rightarrow> string \<Rightarrow> ('s, 'c) walkState \<Rightarrow> bool" where
  "walkInv g tr w \<longleftrightarrow>
     (let X = tr # wkOrder w; outs = ecOutputs (wkCtx w) in
        distinct X \<and> wf_gomap outs \<and> (\<forall>t. gget False (wkVisited w) t \<longleftrightarrow> t \<in> set X) \<and> set (wkQueue w) \<subseteq> set X
        \<and> (\<forall>t. t \<in> set X \<longleftrightarrow> glookup outs t \<noteq> None) \<and> set X \<subseteq> (taken g outs)\<^sup>* `` {tr})"

text \<open>\<open>extends w w'\<close>: the walk has gone on from \<open>w\<close> to \<open>w'\<close>, appending the nodes \<open>new\<close>.\<close>

definition extends :: "('s, 'c) walkState \<Rightarrow> string list \<Rightarrow> ('s, 'c) walkState \<Rightarrow> bool" where
  "extends w new w' \<longleftrightarrow> wkOrder w' = wkOrder w @ new \<and> wkQueue w' = wkQueue w @ new
     \<and> (\<forall>t. glookup (ecOutputs (wkCtx w)) t \<noteq> None \<longrightarrow> glookup (ecOutputs (wkCtx w')) t = glookup (ecOutputs (wkCtx w)) t)"

lemma extends_refl: "extends w [] w"
  by (simp add: extends_def)

lemma extends_trans: "extends w n w1 \<Longrightarrow> extends w1 n' w2 \<Longrightarrow> extends w (n @ n') w2"
  by (auto simp: extends_def)

lemma taken_dom: "(a, b) \<in> taken g outs \<Longrightarrow> glookup outs a \<noteq> None"
  by (simp add: taken_def)

lemma taken_extends:
  assumes "extends w new w'" "glookup (ecOutputs (wkCtx w)) a \<noteq> None"
  shows "(a, b) \<in> taken g (ecOutputs (wkCtx w')) \<longleftrightarrow> (a, b) \<in> taken g (ecOutputs (wkCtx w))"
proof -
  have "glookup (ecOutputs (wkCtx w')) a = glookup (ecOutputs (wkCtx w)) a" using assms by (auto simp: extends_def)
  then show ?thesis by (simp add: taken_def gget_def)
qed

lemma visit_taken:
  assumes "visitTarget env fl g cur edge w = (None, w')" "walkInv g tr w" "\<not> gget False (wkVisited w) (eTarget edge)"
  shows "extends w [eTarget edge] w'"
    and "\<exists>v. ecOutputs (wkCtx w') = gput (eTarget edge) v (ecOutputs (wkCtx w))"
proof -
  obtain res ec where x: "executeNode env fl (gget emptyNode (gNodes g) (eTarget edge)) (gget VNil (ecOutputs (wkCtx w)) cur) (wkCtx w) = (res, ec)"
    by force
  from executeNode_step [OF x] have "ecOutputs ec = ecOutputs (wkCtx w)" by (simp add: effectStep_def)
  with assms(1) x show o: "\<exists>v. ecOutputs (wkCtx w') = gput (eTarget edge) v (ecOutputs (wkCtx w))"
    by (auto simp: visitTarget_def Let_def split: sum.split_asm)
  from assms(2,3) have "glookup (ecOutputs (wkCtx w)) (eTarget edge) = None" by (auto simp: walkInv_def Let_def)
  with o visitTarget_fields(2) [OF assms(1)] show "extends w [eTarget edge] w'" by (auto simp: extends_def)
qed

lemma visit_walkInv:
  assumes v: "visitTarget env fl g cur edge w = (None, w')" and inv: "walkInv g tr w"
    and new: "\<not> gget False (wkVisited w) (eTarget edge)"
    and cur: "glookup (ecOutputs (wkCtx w)) cur \<noteq> None" and tk: "(cur, eTarget edge) \<in> taken g (ecOutputs (wkCtx w))"
  shows "walkInv g tr w'"
proof -
  let ?t = "eTarget edge" and ?outs = "ecOutputs (wkCtx w)" and ?outs' = "ecOutputs (wkCtx w')" and ?X = "set (tr # wkOrder w)"
  note ex = visit_taken(1) [OF v inv new]
  obtain x where o: "?outs' = gput ?t x ?outs" using visit_taken(2) [OF v inv new] by blast
  from inv have t: "?t \<notin> ?X" "cur \<in> ?X" using new cur by (auto simp: walkInv_def Let_def)
  have sub: "taken g ?outs \<subseteq> taken g ?outs'"
  proof (rule subrelI)
    fix a b
    assume ab: "(a, b) \<in> taken g ?outs"
    from taken_extends [OF ex taken_dom [OF ab]] ab show "(a, b) \<in> taken g ?outs'" by simp
  qed
  have "?X \<subseteq> (taken g ?outs')\<^sup>* `` {tr}"
    using inv rtrancl_mono [OF sub] by (auto simp: walkInv_def Let_def)
  moreover have "(cur, ?t) \<in> taken g ?outs'" using sub tk by blast
  ultimately have "set (tr # wkOrder w @ [?t]) \<subseteq> (taken g ?outs')\<^sup>* `` {tr}"
    using t(2) by (auto intro: rtrancl_into_rtrancl)
  moreover have "tr \<noteq> ?t" "?t \<notin> set (wkOrder w)" using t(1) by auto
  ultimately show ?thesis using inv o visitTarget_fields(1,2) [OF v]
    by (auto simp: walkInv_def Let_def)
qed

lemma followEdges_reach:
  assumes "walkInv g tr w" "glookup (ecOutputs (wkCtx w)) cur \<noteq> None"
    and "\<forall>e\<in>set es. (cur, eTarget e) \<in> taken g (ecOutputs (wkCtx w))"
    and "followEdges env fl g cur es w = (None, w')"
  shows "walkInv g tr w' \<and> (\<exists>new. extends w new w') \<and> eTarget ` set es \<subseteq> set (tr # wkOrder w')"
  using assms
proof (induction es arbitrary: w)
  case Nil
  then show ?case using extends_refl by fastforce
next
  case (Cons edge es)
  show ?case
  proof (cases "gget False (wkVisited w) (eTarget edge)")
    case True
    with Cons.prems have "eTarget edge \<in> set (tr # wkOrder w)" by (simp add: walkInv_def Let_def)
    moreover have step: "followEdges env fl g cur es w = (None, w')" using Cons.prems(4) True by simp
    ultimately show ?thesis using Cons.IH [OF Cons.prems(1,2) _ step] Cons.prems(3) by (auto simp: extends_def)
  next
    case False
    with Cons.prems(4) obtain w1 where v: "visitTarget env fl g cur edge w = (None, w1)"
      and step: "followEdges env fl g cur es w1 = (None, w')" by (auto split: prod.split_asm option.split_asm)
    note ex = visit_taken(1) [OF v Cons.prems(1) False]
    have inv1: "walkInv g tr w1"
      using visit_walkInv [OF v Cons.prems(1) False Cons.prems(2)] Cons.prems(3) by simp
    have cur1: "glookup (ecOutputs (wkCtx w1)) cur \<noteq> None" using ex Cons.prems(2) by (simp add: extends_def)
    have tk1: "\<forall>e\<in>set es. (cur, eTarget e) \<in> taken g (ecOutputs (wkCtx w1))"
      using Cons.prems(3) taken_extends [OF ex Cons.prems(2)] by simp
    from Cons.IH [OF inv1 cur1 tk1 step] obtain new where i: "walkInv g tr w'" and n: "extends w1 new w'"
      and t: "eTarget ` set es \<subseteq> set (tr # wkOrder w')" by blast
    from extends_trans [OF ex n] i t ex n show ?thesis by (auto simp: extends_def)
  qed
qed

lemma followHandles_reach:
  assumes "walkInv g tr w" "glookup (ecOutputs (wkCtx w)) cur \<noteq> None"
    and "\<forall>h\<in>set hs. \<forall>e\<in>set (OutgoingEdges g cur h). (cur, eTarget e) \<in> taken g (ecOutputs (wkCtx w))"
    and "followHandles env fl g cur hs w = (None, w')"
  shows "walkInv g tr w' \<and> (\<exists>new. extends w new w') \<and> (\<forall>h\<in>set hs. eTarget ` set (OutgoingEdges g cur h) \<subseteq> set (tr # wkOrder w'))"
  using assms
proof (induction hs arbitrary: w)
  case Nil
  then show ?case using extends_refl by fastforce
next
  case (Cons h hs)
  from Cons.prems(4) obtain w1 where v: "followEdges env fl g cur (OutgoingEdges g cur h) w = (None, w1)"
    and step: "followHandles env fl g cur hs w1 = (None, w')" by (auto split: prod.split_asm option.split_asm)
  from followEdges_reach [OF Cons.prems(1,2) _ v] Cons.prems(3) obtain new where inv1: "walkInv g tr w1"
    and ex: "extends w new w1" and t1: "eTarget ` set (OutgoingEdges g cur h) \<subseteq> set (tr # wkOrder w1)" by auto
  have cur1: "glookup (ecOutputs (wkCtx w1)) cur \<noteq> None" using ex Cons.prems(2) by (simp add: extends_def)
  have tk1: "\<forall>h\<in>set hs. \<forall>e\<in>set (OutgoingEdges g cur h). (cur, eTarget e) \<in> taken g (ecOutputs (wkCtx w1))"
    using Cons.prems(3) taken_extends [OF ex Cons.prems(2)] by simp
  from Cons.IH [OF inv1 cur1 tk1 step] obtain new' where i: "walkInv g tr w'" and n: "extends w1 new' w'"
    and t: "\<forall>h\<in>set hs. eTarget ` set (OutgoingEdges g cur h) \<subseteq> set (tr # wkOrder w')" by blast
  have "set (tr # wkOrder w1) \<subseteq> set (tr # wkOrder w')" using n by (auto simp: extends_def)
  with extends_trans [OF ex n] i t t1 show ?case by auto
qed

text \<open>A node that is off the queue has all its taken edges followed.\<close>

definition walkClosed :: "Graph \<Rightarrow> string \<Rightarrow> ('s, 'c) walkState \<Rightarrow> bool" where
  "walkClosed g tr w \<longleftrightarrow>
     (\<forall>a b. a \<in> set (tr # wkOrder w) - set (wkQueue w) \<longrightarrow> (a, b) \<in> taken g (ecOutputs (wkCtx w)) \<longrightarrow> b \<in> set (tr # wkOrder w))"

lemma walk_reach:
  "walkInv g tr w \<Longrightarrow> walkClosed g tr w \<Longrightarrow> walk env fl g w = (None, w') \<Longrightarrow> walkInv g tr w' \<and> walkClosed g tr w' \<and> wkQueue w' = []"
proof (induction env fl g w rule: walk.induct)
  case (1 env fl g w)
  show ?case
  proof (cases "wkQueue w")
    case Nil
    with 1 show ?thesis by (auto simp: walk.simps [of env fl g w])
  next
    case (Cons cur queue)
    let ?w = "w \<lparr>wkQueue := queue\<rparr>" and ?outs = "ecOutputs (wkCtx w)"
    let ?hs = "emittedHandles (gget emptyNode (gNodes g) cur) (gget VNil ?outs cur)"
    from "1.prems"(3) Cons obtain w1 where h: "followHandles env fl g cur ?hs ?w = (None, w1)"
      and next': "walk env fl g w1 = (None, w')"
      by (auto simp: walk.simps [of env fl g w] split: prod.split_asm option.split_asm)
    have inv: "walkInv g tr ?w" using "1.prems"(1) Cons by (auto simp: walkInv_def Let_def)
    have cur: "glookup (ecOutputs (wkCtx ?w)) cur \<noteq> None" "cur \<in> set (tr # wkOrder w)"
      using "1.prems"(1) Cons by (auto simp: walkInv_def Let_def)
    have tk: "\<forall>h\<in>set ?hs. \<forall>e\<in>set (OutgoingEdges g cur h). (cur, eTarget e) \<in> taken g (ecOutputs (wkCtx ?w))"
      using cur(1) by (auto simp: taken_def)
    from followHandles_reach [OF inv cur(1) tk h] obtain new where i1: "walkInv g tr w1" and ex: "extends ?w new w1"
      and t: "\<forall>h\<in>set ?hs. eTarget ` set (OutgoingEdges g cur h) \<subseteq> set (tr # wkOrder w1)" by blast
    have dom: "a \<in> set (tr # wkOrder w) \<Longrightarrow> glookup (ecOutputs (wkCtx ?w)) a \<noteq> None" for a
      using "1.prems"(1) by (auto simp: walkInv_def Let_def)
    have "b \<in> set (tr # wkOrder w1)"
      if a: "a \<in> set (tr # wkOrder w1) - set (wkQueue w1)" and ab: "(a, b) \<in> taken g (ecOutputs (wkCtx w1))" for a b
    proof -
      from a ex have a': "a \<in> set (tr # wkOrder w)" "a \<notin> set queue" by (auto simp: extends_def)
      from ab taken_extends [OF ex dom [OF a'(1)]] have ab': "(a, b) \<in> taken g ?outs" by simp
      show ?thesis
      proof (cases "a = cur")
        case True
        with ab' t show ?thesis by (auto simp: taken_def)
      next
        case False
        with a' ab' "1.prems"(2) Cons have "b \<in> set (tr # wkOrder w)" by (auto simp: walkClosed_def)
        with ex show ?thesis by (auto simp: extends_def)
      qed
    qed
    then have "walkClosed g tr w1" by (simp add: walkClosed_def)
    with "1.IH" [OF Cons h [symmetric] refl i1 _ next'] show ?thesis by blast
  qed
qed

lemma walk_reach_all:
  assumes "walkInv g tr w" "walkClosed g tr w" "walk env fl g w = (None, w')"
  shows "wf_gomap (ecOutputs (wkCtx w'))"
    and "set (gkeys (ecOutputs (wkCtx w'))) = (taken g (ecOutputs (wkCtx w')))\<^sup>* `` {tr}"
    and "distinct (tr # wkOrder w') \<and> set (gkeys (ecOutputs (wkCtx w'))) = set (tr # wkOrder w')"
proof -
  from walk_reach [OF assms] have i: "walkInv g tr w'" and c: "walkClosed g tr w'" and q: "wkQueue w' = []" by simp_all
  have X: "set (gkeys (ecOutputs (wkCtx w'))) = set (tr # wkOrder w')"
    using i by (auto simp: walkInv_def Let_def set_gkeys)
  with i show "wf_gomap (ecOutputs (wkCtx w'))"
    and "distinct (tr # wkOrder w') \<and> set (gkeys (ecOutputs (wkCtx w'))) = set (tr # wkOrder w')"
    by (simp_all add: walkInv_def Let_def)
  have "b \<in> set (tr # wkOrder w')" if "(tr, b) \<in> (taken g (ecOutputs (wkCtx w')))\<^sup>*" for b
    using that
  proof (induction rule: rtrancl_induct)
    case (step y z)
    with c q show ?case by (auto simp: walkClosed_def)
  qed simp
  with i X show "set (gkeys (ecOutputs (wkCtx w'))) = (taken g (ecOutputs (wkCtx w')))\<^sup>* `` {tr}"
    by (auto simp: walkInv_def Let_def)
qed

lemma keeps_untouched:
  assumes "enEffects env = memorySideEffects"
    and "\<And>node e. node \<in> N \<Longrightarrow> nodeEffect fl node e \<Longrightarrow> key (efKind e) (efTarget e) \<noteq> k"
  shows "keeps env fl N (\<lambda>ec. k \<notin> recKey ` set (ecRecords ec) \<and> glookup (msData (ecStore ec)) k = x)"
  unfolding keeps_def
proof (intro conjI allI impI)
  fix node ec ec'
  assume n: "node \<in> N" and e: "effectStep env fl node ec ec'"
    and r: "k \<notin> recKey ` set (ecRecords ec) \<and> glookup (msData (ecStore ec)) k = x"
  have "k \<notin> recKey ` set (ecRecords ec') \<and> glookup (msData (ecStore ec')) k = x"
  proof (cases "(ecRecords ec', ecStore ec') = (ecRecords ec, ecStore ec)")
    case False
    with e assms(1) obtain uid y where y: "nodeEffect fl node y"
      and s: "(ecRecords ec', ecStore ec') = snd (rb_apply memorySideEffects uid y (ecRecords ec, ecStore ec))"
      by (auto simp: effectStep_def)
    from assms(2) [OF n y] s r show ?thesis by (auto simp: Apply_def Let_def recKey_def)
  qed (use r in simp)
  then show "k \<notin> recKey ` set (ecRecords ec')" "glookup (msData (ecStore ec')) k = x" by simp_all
qed simp_all

lemma finishFailed_untouched:
  assumes "enEffects env = memorySideEffects" "k \<notin> recKey ` set (ecRecords ec)" "finishFailed env f ec = (out, ec')"
  shows "glookup (msData (ecStore ec')) k = glookup (msData (ecStore ec)) k"
  using assms undoAll_frame [of k "rev (ecRecords ec)" "ecStore ec"]
  by (cases f) (auto simp: finishFailed_def rollbackAndFail_def Let_def split: prod.splits)

text \<open>The kinds that the engine writes have no colon, so a protected target is not the key of another kind.\<close>

lemma nodeEffect_protected:
  assumes "nodeEffect fl node e"
    and "kind = OutputDatabase \<and> target \<notin> set (fpDatabases (flPermissions fl))
       \<or> kind = OutputFile \<and> target \<notin> set (fpFiles (flPermissions fl))
       \<or> kind = OutputModbus \<and> target \<notin> set (fpResources (flPermissions fl))"
  shows "key (efKind e) (efTarget e) \<noteq> key kind target"
proof
  assume k: "key (efKind e) (efTarget e) = key kind target"
  have c: "CHR '':'' \<notin> set kind" "kind \<noteq> ''mcp_tool''" "kind \<noteq> OutputHTTP" using assms(2) by auto
  from assms(1) consider "nType node = NodeTypeOutput" "checkOutputPermission fl node = Inr ()" "efKind e = nKind node" "efTarget e = nTarget node"
    | "efKind e = ''mcp_tool''" by (auto simp: nodeEffect_def)
  then show False
  proof cases
    case 1
    then have "nKind node = OutputDatabase \<or> nKind node = OutputFile \<or> nKind node = OutputModbus \<or> nKind node = OutputHTTP"
      by (auto simp: checkOutputPermission_def split: if_split_asm)
    then have "CHR '':'' \<notin> set (nKind node)" by auto
    with key_inj [OF _ c(1), of "efKind e" "efTarget e" target] k 1 have "nKind node = kind" "nTarget node = target" by simp_all
    with 1(2) c(3) assms(2) show False
      by (auto simp: checkOutputPermission_def containsString_def list_ex_iff split: if_split_asm)
  next
    case 2
    with key_inj [OF _ c(1), of "efKind e" "efTarget e" target] k c(2) show False by simp
  qed
qed

text \<open>The same edges, read off the document.\<close>

definition takenEdges :: "FlowDef \<Rightarrow> (string, any) gomap \<Rightarrow> (string \<times> string) set" where
  "takenEdges def outs = {(eSource e, eTarget e) |e n. e \<in> set (fdEdges def) \<and> n \<in> set (fdNodes def) \<and> nID n = eSource e
     \<and> glookup outs (eSource e) \<noteq> None \<and> eSourceHandle e \<in> set (emittedHandles n (gget VNil outs (eSource e)))}"

lemma gget_nodes:
  assumes "validFlow def" "graphOf def g" "n \<in> set (fdNodes def)"
  shows "gget emptyNode (gNodes g) (nID n) = n"
  using glookup_nodes [OF _ assms(3)] assms(1,2) by (simp add: gget_def graphOf_def validFlow_def)

lemma taken_takenEdges:
  assumes "validFlow def" "graphOf def g"
  shows "taken g outs = takenEdges def outs"
proof (intro set_eqI iffI; clarify)
  fix a b
  assume "(a, b) \<in> taken g outs"
  then obtain h e where h: "h \<in> set (emittedHandles (gget emptyNode (gNodes g) a) (gget VNil outs a))" "glookup outs a \<noteq> None"
    and e: "e \<in> set (fdEdges def)" "eSource e = a" "eSourceHandle e = h" "b = eTarget e"
    using graphOf_edges [OF assms(2)] by (auto simp: taken_def)
  from e(1,2) assms(1) obtain n where n: "n \<in> set (fdNodes def)" "nID n = a"
    by (auto simp: validFlow_def nodeIDs_def)
  have "gget emptyNode (gNodes g) a = n" using gget_nodes [OF assms n(1)] n(2) by simp
  with h e n show "(a, b) \<in> takenEdges def outs"
    unfolding takenEdges_def by (simp only: mem_Collect_eq prod.inject) (rule exI [of _ e], rule exI [of _ n], simp)
next
  fix a b
  assume "(a, b) \<in> takenEdges def outs"
  then obtain e n where e: "e \<in> set (fdEdges def)" "a = eSource e" "b = eTarget e" and n: "n \<in> set (fdNodes def)" "nID n = eSource e"
    and o: "glookup outs (eSource e) \<noteq> None" "eSourceHandle e \<in> set (emittedHandles n (gget VNil outs (eSource e)))"
    unfolding takenEdges_def by blast
  from e have "e \<in> set (OutgoingEdges g a (eSourceHandle e))" using graphOf_edges [OF assms(2)] by simp
  with gget_nodes [OF assms n(1)] n(2) e(2,3) o show "(a, b) \<in> taken g outs"
    unfolding taken_def by auto
qed

lemma glookup_resultMap:
  "glookup (resultMap tr order outs) i = (if i \<in> set (tr # order) then Some (gget VNil outs i) else None)"
proof -
  have "glookup (fold (\<lambda>i m. gput i (gget VNil outs i) m) order m) i
      = (if i \<in> set order then Some (gget VNil outs i) else glookup m i)" for m
    by (induction order arbitrary: m) auto
  then show ?thesis by (simp add: resultMap_def)
qed

lemma start_walkInv:
  assumes "ecOutputs ec1 = []"
  shows "walkInv g tr \<lparr>wkQueue = [tr], wkVisited = gput tr True [], wkOrder = [],
      wkCtx = ec_log env l m (ec1 \<lparr>ecOutputs := gput tr v (ecOutputs ec1)\<rparr>)\<rparr>"
    and "walkClosed g tr \<lparr>wkQueue = [tr], wkVisited = gput tr True [], wkOrder = [],
      wkCtx = ec_log env l m (ec1 \<lparr>ecOutputs := gput tr v (ecOutputs ec1)\<rparr>)\<rparr>"
  using assms by (auto simp: walkInv_def walkClosed_def Let_def)

text \<open>An environment for the concrete instances: a store without resources, and a decoder that gives the document \<open>def\<close>.\<close>

definition sampleEnv :: "FlowDef \<Rightarrow> (MemorySideEffectStore, unit) Env" where
  "sampleEnv def = \<lparr>enGetAgent = (\<lambda>t i. Inl ErrNotFound), enGetMcpServer = (\<lambda>t i. Inl ErrNotFound),
     enDecodeFlow = (\<lambda>j. Inr def), enDecodeTransport = (\<lambda>j. Inl ''''), enMarshal = (\<lambda>v. Inr ''{}''),
     enCallTool = (\<lambda>t n a c. (Inl '''', c)), enEffects = memorySideEffects, enNow = (\<lambda>n. int n), enUuid = (\<lambda>n. ''u''),
     enErrText = (\<lambda>e. ''error''), enRange = id\<rparr>"

definition fileFlow :: Flow where
  "fileFlow = (sampleStoredFlow ''t1'' ''f1'') \<lparr>flPermissions := \<lparr>fpResources = [], fpFiles = [''/tmp/a''], fpDatabases = []\<rparr>\<rparr>"

text \<open>A document that writes a file and then does something else: a database that the flow may not write, or a condition
  that panics.\<close>

definition thenFlow :: "Node \<Rightarrow> FlowDef" where
  "thenFlow n = \<lparr>fdID = '''', fdName = '''',
     fdNodes = [emptyNode \<lparr>nID := ''t'', nType := NodeTypeTrigger\<rparr>,
                emptyNode \<lparr>nID := ''o'', nType := NodeTypeOutput, nKind := OutputFile, nTarget := ''/tmp/a'', nValue := VString ''v''\<rparr>,
                n \<lparr>nID := ''x''\<rparr>],
     fdEdges = [mkEdge ''t'' '''' ''o'', mkEdge ''o'' '''' ''x'']\<rparr>"

definition deniedFlow :: FlowDef where
  "deniedFlow = thenFlow (emptyNode \<lparr>nType := NodeTypeOutput, nKind := OutputDatabase, nTarget := ''users'', nValue := VString ''v''\<rparr>)"

definition panicFlow :: FlowDef where
  "panicFlow = thenFlow (emptyNode \<lparr>nType := NodeTypeCondition, nExpression := ''true || (''\<rparr>)"

definition outcomeStatus :: "outcome \<Rightarrow> string option" where
  "outcomeStatus out = (case out of Returned res \<Rightarrow> Some (xrStatus res) | Panicked \<Rightarrow> None)"

section \<open>Properties\<close>



text \<open>C2: The permission boundary holds: whatever the document and however the execution ends (success, rollback, refusal or
  panic), a database, file or Modbus resource that the permissions of the flow do not list keeps its value.\<close>

theorem Execute_permissions:
  assumes "enEffects env = memorySideEffects" and "go_range_order (enRange env)"
    and "Execute env fl s c = (out, ec')"
    and "kind = OutputDatabase \<and> target \<notin> set (fpDatabases (flPermissions fl))
       \<or> kind = OutputFile \<and> target \<notin> set (fpFiles (flPermissions fl))
       \<or> kind = OutputModbus \<and> target \<notin> set (fpResources (flPermissions fl))"
  shows "Value (ecStore ec') kind target = Value s kind target"
proof -
  let ?k = "key kind target"
  let ?I = "\<lambda>ec. ?k \<notin> recKey ` set (ecRecords ec) \<and> glookup (msData (ecStore ec)) ?k = glookup (msData s) ?k"
  have "?I (startCtx s c)" by (simp add: startCtx_def)
  moreover have "keeps env fl N ?I" for N
    by (rule keeps_untouched [OF assms(1)]) (rule nodeEffect_protected [OF _ assms(4)])
  ultimately have "(\<exists>res. out = Returned res \<and> xrStatus res = RunStatusFailed \<and> ec' = startCtx s c)
    \<or> (\<exists>r ec. endsAt env r ec out ec' \<and> ?I ec)" using Execute_keeps [OF assms(3,2), of ?I] by blast
  then consider "ec' = startCtx s c" | r ec where "endsAt env r ec out ec'" "?I ec" by blast
  then show ?thesis
  proof cases
    case 2
    show ?thesis
    proof (cases r)
      case None
      with 2 show ?thesis by (simp add: endsAt_def Value_def)
    next
      case (Some f)
      with 2(1) have "finishFailed env f ec = (out, ec')" by (simp add: endsAt_def)
      from finishFailed_untouched [OF assms(1) conjunct1 [OF 2(2)] this] 2(2) show ?thesis by (simp add: Value_def)
    qed
  qed (simp add: startCtx_def)
qed

theorem Execute_permissions_witness:
  "Value (ecStore (snd (Execute (sampleEnv deniedFlow) fileFlow NewMemorySideEffectStore ()))) ''database'' ''users''
   = Value NewMemorySideEffectStore ''database'' ''users''"
proof -
  have p: "''users'' \<notin> set (fpDatabases (flPermissions fileFlow))" by (simp add: fileFlow_def)
  have "enEffects (sampleEnv deniedFlow) = memorySideEffects" "go_range_order (enRange (sampleEnv deniedFlow))"
    by (simp_all add: sampleEnv_def)
  from Execute_permissions [OF this prod.collapse [symmetric]] p show ?thesis by blast
qed



text \<open>The statuses of an execution that returns: \<open>failed\<close> exactly when the document is not valid, and then neither the
  side-effect store nor the MCP client has been touched; \<open>success\<close> without an error; and otherwise \<open>rolled_back\<close>
  with the error of the node.\<close>

theorem Execute_status:
  assumes "enDecodeFlow env (flFlowJSON fl) = Inr def" and "go_range_order (enRange env)"
    and "Execute env fl s c = (Returned res, ec')"
  shows "(if validFlow def
          then xrStatus res = RunStatusSuccess \<or> xrStatus res = RunStatusRolledBack \<and> xrErr res \<noteq> None
          else xrStatus res = RunStatusFailed \<and> ecStore ec' = s \<and> ecClient ec' = c)"
proof (cases "validFlow def")
  case False
  then obtain e where "buildGraph def = Inl e" using buildGraph_ok by (cases "buildGraph def") auto
  with assms(1,3) False show ?thesis by (auto simp: Execute_def ParseAndValidate_def)
next
  case True
  then obtain g where g: "buildGraph def = Inr g" using buildGraph_accepts by blast
  from Trigger_exists [OF True] obtain tr where "tr \<in> set (fdNodes def)" "nType tr = NodeTypeTrigger" by (elim bexE)
  from Trigger_graph [OF True _ assms(2) this] buildGraph_ok [OF g] have t: "Trigger (enRange env) g = Inr tr" by simp
  from assms(3) show ?thesis
  proof (cases rule: Execute_cases)
    case (refused e res')
    with assms(1,3) g t show ?thesis
      by (auto simp: Execute_def ParseAndValidate_def Let_def finishFailed_def rollbackAndFail_def
          split: prod.splits sum.splits option.splits exec_fail.splits)
  next
    case (ran g' trigger r ec)
    with True show ?thesis
      by (auto simp: endsAt_def finishFailed_def rollbackAndFail_def Let_def split: option.splits exec_fail.splits prod.splits)
  qed
qed

theorem Execute_status_witness:
  "\<exists>res ec. Execute (sampleEnv (sampleFlow \<lparr>fdNodes := []\<rparr>)) fileFlow NewMemorySideEffectStore () = (Returned res, ec)
     \<and> xrStatus res = RunStatusFailed"
proof -
  let ?d = "sampleFlow \<lparr>fdNodes := []\<rparr>"
  let ?x = "Execute (sampleEnv ?d) fileFlow NewMemorySideEffectStore ()"
  have "outcomeStatus (fst ?x) \<noteq> None" by code_simp
  then obtain res where r: "fst ?x = Returned res" by (cases "fst ?x") (simp_all add: outcomeStatus_def)
  then have x: "?x = (Returned res, snd ?x)" by (metis prod.collapse)
  have v: "\<not> validFlow ?d" by (simp add: validFlow_def)
  have "enDecodeFlow (sampleEnv ?d) (flFlowJSON fileFlow) = Inr ?d" "go_range_order (enRange (sampleEnv ?d))"
    by (simp_all add: sampleEnv_def)
  from Execute_status [OF this x] v x show ?thesis by (simp only: if_False) blast
qed


end
