(* ===== verification/Auth.thy ===== *)
theory Auth
  imports Store_Models
begin

text \<open>
  Authentication and authorisation (\<open>internal/auth/rbac.go\<close>, \<open>auth.go\<close>, \<open>middleware.go\<close>).

  An HTTP handler is a function from a request and the state of the server to a response and the next state; a
  middleware maps handlers to handlers. The request context holds the claims, if any. The JWT library
  (\<open>github.com/golang-jwt/jwt\<close>) is the record \<open>Jwt\<close> of the calls the sources make; what the properties need of it is a
  hypothesis of theirs. \<open>Header.Get("Authorization")\<close> is the field \<open>rqAuthorization\<close>.
\<close>

section \<open>Roles\<close>

definition roleRank :: "string \<Rightarrow> nat" where
  "roleRank role =
     (if role = RoleOwner then 3 else if role = RoleOperator then 2 else if role = RoleViewer then 1 else 0)"

definition HasRole :: "string \<Rightarrow> string \<Rightarrow> bool" where
  "HasRole actor required \<longleftrightarrow> roleRank required \<le> roleRank actor"

definition RequiredRole :: "string \<Rightarrow> string \<Rightarrow> string" where
  "RequiredRole method path0 =
     (let path = takeWhile (\<lambda>c. c \<noteq> CHR ''?'') path0 in
        if \<not> HasPrefix path ''/api/v1/'' then RoleViewer
        else if method = ''POST'' \<and> path = ''/api/v1/auth/login'' then RoleViewer
        else if method = ''POST'' \<and> path = ''/api/v1/tasks'' then RoleOperator
        else if method = ''POST'' \<and> HasSuffix path ''/run'' \<and> HasPrefix path ''/api/v1/flows/'' then RoleOperator
        else if method = ''GET'' \<or> method = ''HEAD'' then RoleViewer
        else RoleOwner)"

definition Allowed :: "string \<Rightarrow> string \<Rightarrow> string \<Rightarrow> bool" where
  "Allowed method path role = HasRole role (RequiredRole method path)"

section \<open>Tokens\<close>

record Claims =
  clTenantID :: string
  clRole :: string
  clUserID :: string
  clSubject :: string
  clIssuedAt :: time
  clExpiresAt :: time
  clIssuer :: string

datatype jwt_error = JwtExpired | JwtOther

text \<open>
  \<open>jwDate\<close> is \<open>jwt.NewNumericDate\<close>; \<open>jwSign\<close> signs claims with HS256 and a key; \<open>jwParse\<close> is \<open>ParseWithClaims\<close> at a moment: it
  asks the key function, which is told whether the signing method of the token is an HMAC, for the key, and gives
  the claims and the flag \<open>Valid\<close>.
\<close>

record Jwt =
  jwDate :: "time \<Rightarrow> time"
  jwSign :: "string \<Rightarrow> Claims \<Rightarrow> (string, string) result"
  jwParse :: "(bool \<Rightarrow> (string, string) result) \<Rightarrow> time \<Rightarrow> string \<Rightarrow> (jwt_error, Claims \<times> bool) result"

record Manager =
  mgSecret :: string
  mgExpiry :: time

datatype auth_error = ErrInvalidToken | ErrExpiredToken

definition NewManager :: "string \<Rightarrow> time \<Rightarrow> Manager" where
  "NewManager secret expiry = \<lparr>mgSecret = secret, mgExpiry = expiry\<rparr>"

definition issuedClaims :: "Jwt \<Rightarrow> Manager \<Rightarrow> time \<Rightarrow> string \<Rightarrow> string \<Rightarrow> string \<Rightarrow> string \<Rightarrow> Claims" where
  "issuedClaims jwt m now subject userID tenantID role =
     \<lparr>clTenantID = tenantID, clRole = role, clUserID = userID, clSubject = subject,
      clIssuedAt = jwDate jwt now, clExpiresAt = jwDate jwt (now + mgExpiry m), clIssuer = ''agent-hub-core''\<rparr>"

definition Issue :: "Jwt \<Rightarrow> Manager \<Rightarrow> time \<Rightarrow> string \<Rightarrow> string \<Rightarrow> string \<Rightarrow> string \<Rightarrow> (string, string) result" where
  "Issue jwt m now subject userID tenantID role =
     jwSign jwt (mgSecret m) (issuedClaims jwt m now subject userID tenantID role)"

definition keyFunc :: "Manager \<Rightarrow> bool \<Rightarrow> (string, string) result" where
  "keyFunc m hmac = (if hmac then Inr (mgSecret m) else Inl ''auth: unexpected signing method'')"

definition Verify :: "Jwt \<Rightarrow> Manager \<Rightarrow> time \<Rightarrow> string \<Rightarrow> (auth_error, Claims) result" where
  "Verify jwt m now token = (case jwParse jwt (keyFunc m) now token of
      Inl JwtExpired \<Rightarrow> Inl ErrExpiredToken
    | Inl JwtOther \<Rightarrow> Inl ErrInvalidToken
    | Inr (claims, valid) \<Rightarrow>
        (if \<not> valid then Inl ErrInvalidToken
         else if clTenantID claims = '''' \<or> clRole claims = '''' then Inl ErrInvalidToken
         else Inr claims))"

section \<open>Middleware\<close>

record Request =
  rqMethod :: string
  rqPath :: string
  rqAuthorization :: string
  rqClaims :: "Claims option"

record Response =
  rsStatus :: int
  rsBody :: string

type_synonym 'w handler = "Request \<Rightarrow> 'w \<Rightarrow> Response \<times> 'w"

definition http_Error :: "string \<Rightarrow> int \<Rightarrow> Response" where
  "http_Error body code = \<lparr>rsStatus = code, rsBody = body\<rparr>"

definition WithClaims :: "Request \<Rightarrow> Claims \<Rightarrow> Request" where
  "WithClaims r c = r \<lparr>rqClaims := Some c\<rparr>"

definition ClaimsFrom :: "Request \<Rightarrow> Claims option" where
  "ClaimsFrom r = rqClaims r"

definition TenantIDFrom :: "Request \<Rightarrow> string" where
  "TenantIDFrom r = (case ClaimsFrom r of Some c \<Rightarrow> clTenantID c | None \<Rightarrow> '''')"

definition RoleFrom :: "Request \<Rightarrow> string" where
  "RoleFrom r = (case ClaimsFrom r of Some c \<Rightarrow> clRole c | None \<Rightarrow> '''')"

definition requiresAuth :: "string \<Rightarrow> bool" where
  "requiresAuth path \<longleftrightarrow>
     \<not> (path = ''/healthz'' \<or> path = ''/readyz'' \<or> path = ''/metrics'') \<and> path \<noteq> ''/api/v1/auth/login''"

text \<open>\<open>strings.SplitN(h, " ", 2)\<close> has two parts exactly when there is a space; the parts are what is before and after the
  first one.\<close>

definition bearerToken :: "Request \<Rightarrow> string" where
  "bearerToken r =
     (let h = rqAuthorization r; scheme = takeWhile (\<lambda>c. c \<noteq> CHR '' '') h; rest = dropWhile (\<lambda>c. c \<noteq> CHR '' '') h in
        if h = '''' then ''''
        else if rest = [] \<or> \<not> EqualFold_ascii scheme ''Bearer'' then ''''
        else TrimSpace (tl rest))"

definition Authenticator :: "Jwt \<Rightarrow> Manager \<Rightarrow> time \<Rightarrow> 'w handler \<Rightarrow> 'w handler" where
  "Authenticator jwt m now handler = (\<lambda>r w.
     if \<not> requiresAuth (rqPath r) then handler r w
     else let token = bearerToken r in
       if token = '''' then (http_Error ''{\"error\":\"missing bearer token\"}'' 401, w)
       else (case Verify jwt m now token of
         Inl _ \<Rightarrow> (http_Error ''{\"error\":\"invalid or expired token\"}'' 401, w)
       | Inr claims \<Rightarrow> handler (WithClaims r claims) w))"

definition Authorizer :: "'w handler \<Rightarrow> 'w handler" where
  "Authorizer handler = (\<lambda>r w.
     if \<not> requiresAuth (rqPath r) then handler r w
     else (case ClaimsFrom r of
         None \<Rightarrow> (http_Error ''{\"error\":\"unauthorized\"}'' 401, w)
       | Some claims \<Rightarrow>
           (if \<not> Allowed (rqMethod r) (rqPath r) (clRole claims)
            then (http_Error ''{\"error\":\"forbidden\"}'' 403, w)
            else handler r w)))"

section \<open>Levels of privilege\<close>

text \<open>The order of the roles, as a linear order; a string that names no role is below all of them.\<close>

datatype role_level = LNone | LViewer | LOperator | LOwner

instantiation role_level :: linorder
begin

fun level_rank :: "role_level \<Rightarrow> nat" where
  "level_rank LNone = 0"
| "level_rank LViewer = 1"
| "level_rank LOperator = 2"
| "level_rank LOwner = 3"

definition less_eq_role_level :: "role_level \<Rightarrow> role_level \<Rightarrow> bool" where
  "less_eq_role_level a b \<longleftrightarrow> level_rank a \<le> level_rank b"

definition less_role_level :: "role_level \<Rightarrow> role_level \<Rightarrow> bool" where
  "less_role_level a b \<longleftrightarrow> level_rank a < level_rank b"

lemma level_rank_inj: "level_rank a = level_rank b \<Longrightarrow> a = b"
  by (cases a; cases b) simp_all

instance
  by standard (auto simp: less_eq_role_level_def less_role_level_def intro: level_rank_inj)

end

definition levelOf :: "string \<Rightarrow> role_level" where
  "levelOf role =
     (if role = RoleOwner then LOwner else if role = RoleOperator then LOperator
      else if role = RoleViewer then LViewer else LNone)"

lemma roleRank_level: "roleRank role = level_rank (levelOf role)"
  by (simp add: roleRank_def levelOf_def)

lemma HasRole_level: "HasRole actor required \<longleftrightarrow> levelOf required \<le> levelOf actor"
  by (simp add: HasRole_def roleRank_level less_eq_role_level_def)

lemma levels [simp]: "levelOf RoleOwner = LOwner" "levelOf RoleOperator = LOperator" "levelOf RoleViewer = LViewer"
  by (simp_all add: levelOf_def)

lemma level_le:
  "LOwner \<le> l \<longleftrightarrow> l = LOwner" "LOperator \<le> l \<longleftrightarrow> l = LOperator \<or> l = LOwner"
  "LViewer \<le> l \<longleftrightarrow> l \<noteq> LNone" "LNone \<le> l"
  by (cases l; simp add: less_eq_role_level_def)+

definition runPath :: "string \<Rightarrow> bool" where
  "runPath path \<longleftrightarrow> HasPrefix path ''/api/v1/flows/'' \<and> HasSuffix path ''/run''"

definition isRead :: "string \<Rightarrow> bool" where
  "isRead method \<longleftrightarrow> method = ''GET'' \<or> method = ''HEAD''"

text \<open>What a level may do under \<open>/api/v1/\<close>.\<close>

definition mayDo :: "role_level \<Rightarrow> string \<Rightarrow> string \<Rightarrow> bool" where
  "mayDo level method path = (case level of
      LNone \<Rightarrow> False
    | LViewer \<Rightarrow> isRead method \<or> method = ''POST'' \<and> path = ''/api/v1/auth/login''
    | LOperator \<Rightarrow> isRead method \<or> method = ''POST'' \<and> (path = ''/api/v1/auth/login'' \<or> path = ''/api/v1/tasks'' \<or> runPath path)
    | LOwner \<Rightarrow> True)"

definition requestTo :: "string \<Rightarrow> string \<Rightarrow> string \<Rightarrow> Request" where
  "requestTo method path header = \<lparr>rqMethod = method, rqPath = path, rqAuthorization = header, rqClaims = None\<rparr>"

text \<open>A library for the concrete instances: it signs one set of claims with one key.\<close>

definition sampleClaims :: Claims where
  "sampleClaims = \<lparr>clTenantID = ''t1'', clRole = RoleOperator, clUserID = ''u1'', clSubject = ''ann'',
     clIssuedAt = 100, clExpiresAt = 160, clIssuer = ''agent-hub-core''\<rparr>"

definition sampleJwt :: Jwt where
  "sampleJwt = \<lparr>jwDate = (\<lambda>t. t),
     jwSign = (\<lambda>k c. if k = ''secret'' \<and> c = sampleClaims then Inr ''token'' else Inl ''unsupported''),
     jwParse = (\<lambda>kf t tok. if tok = ''token'' \<and> kf True = Inr ''secret''
        then (if t < 160 then Inr (sampleClaims, True) else Inl JwtExpired) else Inl JwtOther)\<rparr>"

section \<open>Properties\<close>



text \<open>The access matrix under \<open>/api/v1/\<close>, by role: owners may do everything, operators may read, create tasks and run flows,
  viewers may only read, and anyone may log in; a role that is none of these may do nothing.\<close>

theorem rbac_matrix:
  assumes "HasPrefix path ''/api/v1/''" and "CHR ''?'' \<notin> set path"
  shows "Allowed method path role \<longleftrightarrow> mayDo (levelOf role) method path"
proof -
  have tw: "takeWhile (\<lambda>c. c \<noteq> CHR ''?'') path = path"
    unfolding takeWhile_eq_all_conv using assms(2) by blast
  have "RequiredRole method path =
      (if method = ''POST'' \<and> path = ''/api/v1/auth/login'' then RoleViewer
       else if method = ''POST'' \<and> path = ''/api/v1/tasks'' then RoleOperator
       else if method = ''POST'' \<and> runPath path then RoleOperator
       else if isRead method then RoleViewer else RoleOwner)"
    unfolding RequiredRole_def Let_def tw runPath_def isRead_def using assms(1) by (simp add: conj_commute)
  then show ?thesis
    by (cases "levelOf role") (auto simp: Allowed_def HasRole_level level_le mayDo_def isRead_def)
qed

theorem rbac_matrix_witness:
  "Allowed ''POST'' ''/api/v1/flows/f1/run'' RoleOperator \<and> \<not> Allowed ''POST'' ''/api/v1/flows/f1/run'' RoleViewer
   \<and> \<not> Allowed ''DELETE'' ''/api/v1/flows/f1'' RoleOperator"
proof -
  have p: "HasPrefix ''/api/v1/flows/f1/run'' ''/api/v1/''" "HasPrefix ''/api/v1/flows/f1'' ''/api/v1/''"
    by (simp_all add: HasPrefix_def)
  have "runPath ''/api/v1/flows/f1/run''" by code_simp
  then show ?thesis
    using rbac_matrix [OF p(1), of "''POST''" RoleOperator] rbac_matrix [OF p(1), of "''POST''" RoleViewer]
      rbac_matrix [OF p(2), of "''DELETE''" RoleOperator]
    by (simp add: mayDo_def isRead_def)
qed

text \<open>Privileges are monotone: what a role may do, every role at least as privileged may do, on every path.\<close>

theorem rbac_monotone:
  assumes "Allowed method path role" and "levelOf role \<le> levelOf role'"
  shows "Allowed method path role'"
  using assms by (auto simp: Allowed_def HasRole_level)

theorem rbac_monotone_witness: "Allowed ''GET'' ''/api/v1/agents'' RoleOwner"
proof (rule rbac_monotone)
  show "Allowed ''GET'' ''/api/v1/agents'' RoleViewer" by code_simp
qed (simp add: level_le)

text \<open>A token is accepted for as long as it should be: if the library gives back the claims it signed until their
  expiry and reports the expiry from then on, a token issued to a user of a tenant verifies to that tenant, role and user
  until the lifetime of the manager has passed, and is reported as expired after it.\<close>

theorem issue_verify:
  assumes "\<forall>k c tok kf t. jwSign jwt k c = Inr tok \<longrightarrow> kf True = Inr k \<longrightarrow>
      jwParse jwt kf t tok = (if t < clExpiresAt c then Inr (c, True) else Inl JwtExpired)"
    and "Issue jwt m now subject userID tenantID role = Inr tok"
    and "tenantID \<noteq> ''''" and "role \<noteq> ''''"
  shows "if t < jwDate jwt (now + mgExpiry m)
    then \<exists>c. Verify jwt m t tok = Inr c \<and> clTenantID c = tenantID \<and> clRole c = role \<and> clUserID c = userID \<and> clSubject c = subject
    else Verify jwt m t tok = Inl ErrExpiredToken"
proof -
  have "jwParse jwt (keyFunc m) t tok =
      (if t < clExpiresAt (issuedClaims jwt m now subject userID tenantID role)
       then Inr (issuedClaims jwt m now subject userID tenantID role, True) else Inl JwtExpired)"
    using assms(1,2) by (simp add: Issue_def keyFunc_def)
  with assms(3,4) show ?thesis by (simp add: Verify_def issuedClaims_def)
qed

lemma sampleJwt_laws:
  "\<forall>k c tok kf t. jwSign sampleJwt k c = Inr tok \<longrightarrow> kf True = Inr k \<longrightarrow>
      jwParse sampleJwt kf t tok = (if t < clExpiresAt c then Inr (c, True) else Inl JwtExpired)"
  by (auto simp: sampleJwt_def sampleClaims_def split: if_splits)

theorem issue_verify_witness:
  "Verify sampleJwt (NewManager ''secret'' 60) 170 ''token'' = Inl ErrExpiredToken"
proof -
  have i: "Issue sampleJwt (NewManager ''secret'' 60) 100 ''ann'' ''u1'' ''t1'' RoleOperator = Inr ''token''"
    by (simp add: Issue_def issuedClaims_def sampleJwt_def sampleClaims_def NewManager_def)
  from issue_verify [OF sampleJwt_laws i, of 170] show ?thesis by (simp add: sampleJwt_def NewManager_def)
qed

text \<open>Verified claims always name a tenant and a role, whatever the library returns.\<close>

theorem verified_claims:
  assumes "Verify jwt m t tok = Inr c"
  shows "clTenantID c \<noteq> '''' \<and> clRole c \<noteq> ''''"
  using assms by (auto simp: Verify_def split: sum.splits jwt_error.splits if_splits)

theorem verified_claims_witness: "clTenantID sampleClaims \<noteq> '''' \<and> clRole sampleClaims \<noteq> ''''"
  by (rule verified_claims [of sampleJwt "NewManager ''secret'' 60" 120 "''token''"])
    (simp add: Verify_def sampleJwt_def keyFunc_def NewManager_def sampleClaims_def)

text \<open>The user endpoints are not for owners only, as the routing table has it: a viewer may list users and read
  each of them.\<close>

theorem viewer_reads_users:
  "Allowed ''GET'' ''/api/v1/users'' RoleViewer \<and> Allowed ''GET'' ''/api/v1/users/u1'' RoleViewer"
  by code_simp

end
