(* ===== verification/History.thy ===== *)
theory History
  imports Values
begin

text \<open>
  The ring buffer of dashboard samples (\<open>internal/api/dashboard_history.go\<close>): \<open>write\<close>, \<open>index\<close>, \<open>Capture\<close>, \<open>Latest\<close>,
  \<open>Snapshot\<close>. The sample that \<open>Capture\<close> reads from the clock, the CPU sampler, the runtime and the hub is its
  argument. An index outside of the slice is a panic, \<open>None\<close>. Go's \<open>%\<close> truncates towards zero, \<open>go_rem\<close>.

  The specification is the list of all samples ever captured; the buffer shows its last \<open>capacity\<close> elements.
\<close>

section \<open>Definitions\<close>

record Sample =
  smTime :: int
  smCPU :: float64
  smMemory :: nat
  smGoroutines :: int
  smClients :: int

definition zeroSample :: Sample where
  "zeroSample = \<lparr>smTime = 0, smCPU = Fin 0, smMemory = 0, smGoroutines = 0, smClients = 0\<rparr>"

record HistoryCollector =
  hcCapacity :: int
  hcSamples :: "Sample list"
  hcHead :: int
  hcCount :: int

definition go_rem :: "int \<Rightarrow> int \<Rightarrow> int" where
  "go_rem a b = sgn a * (\<bar>a\<bar> mod \<bar>b\<bar>)"

definition NewHistoryCollector :: "int \<Rightarrow> HistoryCollector" where
  "NewHistoryCollector capacity =
     (let c = (if capacity < 1 then 1 else capacity)
      in \<lparr>hcCapacity = c, hcSamples = replicate (nat c) zeroSample, hcHead = 0, hcCount = 0\<rparr>)"

definition go_at :: "'a list \<Rightarrow> int \<Rightarrow> 'a option" where
  "go_at xs i = (if 0 \<le> i \<and> i < int (length xs) then Some (xs ! nat i) else None)"

definition hc_write :: "Sample \<Rightarrow> HistoryCollector \<Rightarrow> HistoryCollector option" where
  "hc_write s c =
     (if 0 \<le> hcHead c \<and> hcHead c < int (length (hcSamples c))
      then Some (c \<lparr>hcSamples := (hcSamples c)[nat (hcHead c) := s],
                    hcHead := go_rem (hcHead c + 1) (hcCapacity c),
                    hcCount := (if hcCount c < hcCapacity c then hcCount c + 1 else hcCount c)\<rparr>)
      else None)"

definition hc_index :: "HistoryCollector \<Rightarrow> int \<Rightarrow> int" where
  "hc_index c offset = go_rem (go_rem offset (hcCapacity c) + hcCapacity c) (hcCapacity c)"

definition Capture :: "Sample \<Rightarrow> HistoryCollector \<Rightarrow> HistoryCollector option" where
  "Capture s c = hc_write s c"

definition Latest :: "HistoryCollector \<Rightarrow> Sample option" where
  "Latest c = (if hcCount c = 0 then Some zeroSample else go_at (hcSamples c) (hc_index c (hcHead c - 1)))"

text \<open>The loop of \<open>Snapshot\<close>, from \<open>i\<close> on, for \<open>n\<close> more elements.\<close>

fun snapshotLoop :: "HistoryCollector \<Rightarrow> int \<Rightarrow> nat \<Rightarrow> Sample list option" where
  "snapshotLoop c i 0 = Some []"
| "snapshotLoop c i (Suc n) =
     (case go_at (hcSamples c) (hc_index c (hcHead c - hcCount c + i)) of
        None \<Rightarrow> None
      | Some s \<Rightarrow> map_option (Cons s) (snapshotLoop c (i + 1) n))"

definition Snapshot :: "HistoryCollector \<Rightarrow> Sample list option" where
  "Snapshot c = snapshotLoop c 0 (nat (hcCount c))"

fun captureAll :: "Sample list \<Rightarrow> HistoryCollector \<Rightarrow> HistoryCollector option" where
  "captureAll [] c = Some c"
| "captureAll (s # ss) c = Option.bind (Capture s c) (captureAll ss)"

section \<open>The buffer shows the last samples\<close>

lemma go_rem_pos: "0 \<le> a \<Longrightarrow> 0 < b \<Longrightarrow> go_rem a b = a mod b"
  by (cases "a = 0") (simp_all add: go_rem_def)

lemma go_rem_bounds: "0 < b \<Longrightarrow> - b < go_rem a b \<and> go_rem a b < b"
proof -
  assume b: "0 < b"
  then have "0 \<le> \<bar>a\<bar> mod b" "\<bar>a\<bar> mod b < b" by simp_all
  with b show ?thesis unfolding go_rem_def by (cases "a = 0"; cases "a < 0") (simp_all add: sgn_if)
qed

lemma go_rem_cong: "0 < b \<Longrightarrow> (go_rem a b) mod b = a mod b"
proof (cases "a < 0")
  case True
  assume "0 < b"
  with True have "go_rem a b = - (- a mod b)" by (simp add: go_rem_def)
  then show ?thesis by (simp add: mod_minus_eq)
next
  case False
  assume "0 < b"
  with False show ?thesis by (simp add: go_rem_pos)
qed

lemma hc_index_mod: "0 < hcCapacity c \<Longrightarrow> hc_index c i = i mod hcCapacity c"
  using go_rem_bounds [of "hcCapacity c" i] go_rem_cong [of "hcCapacity c" i]
  by (simp add: hc_index_def go_rem_pos)

text \<open>\<open>ringInv ss c\<close>: the collector has captured \<open>ss\<close>.\<close>

definition ringInv :: "Sample list \<Rightarrow> HistoryCollector \<Rightarrow> bool" where
  "ringInv ss c \<longleftrightarrow>
     0 < hcCapacity c \<and> length (hcSamples c) = nat (hcCapacity c)
     \<and> hcHead c = int (length ss) mod hcCapacity c
     \<and> hcCount c = min (hcCapacity c) (int (length ss))
     \<and> (\<forall>j < length ss. int (length ss) - hcCount c \<le> int j \<longrightarrow> hcSamples c ! nat (int j mod hcCapacity c) = ss ! j)"

lemma ringInv_new: "ringInv [] (NewHistoryCollector capacity)"
  by (simp add: ringInv_def NewHistoryCollector_def Let_def)

lemma mod_far:
  fixes i j c :: int
  assumes "0 < c" "i mod c = j mod c" "\<bar>i - j\<bar> < c"
  shows "i = j"
proof -
  have "c dvd i - j" using assms(2) by (simp add: mod_eq_dvd_iff)
  with assms(1,3) show ?thesis by (metis abs_of_nonneg dvd_imp_le_int eq_iff_diff_eq_0 less_le_not_le order_less_imp_le)
qed

lemma ringInv_capture:
  assumes "ringInv ss c"
  shows "\<exists>c'. Capture s c = Some c' \<and> ringInv (ss @ [s]) c' \<and> hcCapacity c' = hcCapacity c"
proof -
  let ?n = "int (length ss)" and ?cap = "hcCapacity c"
  from assms have cap: "0 < ?cap" and len: "length (hcSamples c) = nat ?cap" and head: "hcHead c = ?n mod ?cap"
    and count: "hcCount c = min ?cap ?n"
    and vals: "\<And>j. j < length ss \<Longrightarrow> ?n - hcCount c \<le> int j \<Longrightarrow> hcSamples c ! nat (int j mod ?cap) = ss ! j"
    by (auto simp: ringInv_def)
  have h: "0 \<le> hcHead c" "hcHead c < ?cap" using cap head by simp_all
  let ?c' = "c \<lparr>hcSamples := (hcSamples c)[nat (hcHead c) := s], hcHead := go_rem (hcHead c + 1) ?cap,
                hcCount := (if hcCount c < ?cap then hcCount c + 1 else hcCount c)\<rparr>"
  have cp: "Capture s c = Some ?c'" using h len by (simp add: Capture_def hc_write_def)
  have head': "hcHead ?c' = (?n + 1) mod ?cap" using h cap head by (simp add: go_rem_pos mod_add_left_eq)
  have count': "hcCount ?c' = min ?cap (?n + 1)" using count by auto
  have "hcSamples ?c' ! nat (int j mod ?cap) = (ss @ [s]) ! j"
    if j: "j < length (ss @ [s])" and lo: "?n + 1 - hcCount ?c' \<le> int j" for j
  proof (cases "j = length ss")
    case True
    with h len head show ?thesis by simp
  next
    case False
    with j have js: "j < length ss" by simp
    have "?n - hcCount c \<le> int j" using lo count' count by auto
    moreover have "nat (int j mod ?cap) \<noteq> nat (hcHead c)"
    proof
      assume "nat (int j mod ?cap) = nat (hcHead c)"
      then have "int j mod ?cap = ?n mod ?cap" using cap head by (simp add: eq_nat_nat_iff)
      moreover have "\<bar>int j - ?n\<bar> < ?cap" using js lo count' by auto
      ultimately show False using mod_far [OF cap] js by fastforce
    qed
    ultimately show ?thesis using vals [OF js] js by (simp add: nth_append)
  qed
  then have "ringInv (ss @ [s]) ?c'"
    using cap len head' count' by (simp add: ringInv_def add.commute)
  with cp show ?thesis by auto
qed

lemma ringInv_captureAll:
  "ringInv ss c \<Longrightarrow> \<exists>c'. captureAll ts c = Some c' \<and> ringInv (ss @ ts) c' \<and> hcCapacity c' = hcCapacity c"
proof (induction ts arbitrary: ss c)
  case (Cons t ts)
  from ringInv_capture [OF Cons.prems, of t] obtain c1 where
    c1: "Capture t c = Some c1" "ringInv (ss @ [t]) c1" "hcCapacity c1 = hcCapacity c" by blast
  from Cons.IH [OF c1(2)] c1 show ?case by auto
qed auto

lemma ringInv_at:
  assumes "ringInv ss c" "j < length ss" "int (length ss) - hcCount c \<le> int j"
    and "k mod hcCapacity c = int j mod hcCapacity c"
  shows "go_at (hcSamples c) (hc_index c k) = Some (ss ! j)"
  using assms by (auto simp: ringInv_def hc_index_mod go_at_def)

lemma ringInv_snapshotLoop:
  assumes "ringInv ss c"
  shows "n \<le> nat (hcCount c) \<Longrightarrow>
    snapshotLoop c (hcCount c - int n) n = Some (drop (length ss - n) ss)"
proof (induction n)
  case (Suc n)
  let ?j = "length ss - Suc n"
  have cnt: "hcCount c \<le> int (length ss)" "0 < hcCapacity c" "hcHead c = int (length ss) mod hcCapacity c"
    using assms by (auto simp: ringInv_def)
  with Suc.prems have sn: "int (Suc n) \<le> hcCount c" "Suc n \<le> length ss" by auto
  have "(hcHead c - hcCount c + (hcCount c - int (Suc n))) mod hcCapacity c = int ?j mod hcCapacity c"
  proof -
    have "hcHead c - hcCount c + (hcCount c - int (Suc n)) = int (length ss) mod hcCapacity c - int (Suc n)" using cnt(3) by simp
    then have "(hcHead c - hcCount c + (hcCount c - int (Suc n))) mod hcCapacity c = (int (length ss) - int (Suc n)) mod hcCapacity c"
      by (simp only: mod_diff_left_eq)
    with sn(2) show ?thesis by (simp only: of_nat_diff)
  qed
  from ringInv_at [OF assms _ _ this] sn have "go_at (hcSamples c) (hc_index c (hcHead c - hcCount c + (hcCount c - int (Suc n)))) = Some (ss ! ?j)"
    by (simp add: of_nat_diff)
  moreover have "snapshotLoop c (hcCount c - int (Suc n) + 1) n = Some (drop (length ss - n) ss)"
    using Suc sn by simp
  moreover have "ss ! ?j # drop (length ss - n) ss = drop ?j ss"
    using sn(2) by (metis Cons_nth_drop_Suc Suc_diff_Suc Suc_le_eq diff_less zero_less_Suc less_le_trans)
  ultimately show ?case by simp
qed simp

section \<open>Properties\<close>

text \<open>C34: The ring buffer is the tail of the history: for every capacity and every sequence of captures no index is out of
  range, \<open>Snapshot\<close> is the last \<open>capacity\<close> samples (at least one) in the order they were captured, and \<open>Latest\<close> is the last of them,
  or the zero sample before the first.\<close>

theorem history_is_tail:
  "\<exists>c. captureAll ss (NewHistoryCollector capacity) = Some c
     \<and> Snapshot c = Some (drop (length ss - nat (max 1 capacity)) ss)
     \<and> Latest c = Some (if ss = [] then zeroSample else last ss)"
proof -
  from ringInv_captureAll [OF ringInv_new, of ss capacity] obtain c where
    c: "captureAll ss (NewHistoryCollector capacity) = Some c" and inv: "ringInv ss c"
    and cap: "hcCapacity c = max 1 capacity" by (auto simp: NewHistoryCollector_def Let_def max_def)
  have count: "hcCount c = min (max 1 capacity) (int (length ss))" using inv cap by (simp add: ringInv_def)
  have "Snapshot c = Some (drop (length ss - nat (hcCount c)) ss)"
  proof -
    have "0 \<le> hcCount c" using count by simp
    then have "hcCount c - int (nat (hcCount c)) = 0" by simp
    with ringInv_snapshotLoop [OF inv order_refl] show ?thesis by (simp only: Snapshot_def)
  qed
  moreover have "drop (length ss - nat (hcCount c)) ss = drop (length ss - nat (max 1 capacity)) ss"
    using count by (auto simp: min_def nat_diff_distrib)
  moreover have "Latest c = Some (if ss = [] then zeroSample else last ss)"
  proof (cases "ss = []")
    case True
    with count show ?thesis by (simp add: Latest_def)
  next
    case False
    have head: "hcHead c = int (length ss) mod hcCapacity c" using inv by (simp add: ringInv_def)
    have "(hcHead c - 1) mod hcCapacity c = int (length ss - 1) mod hcCapacity c"
      using False head by (simp add: of_nat_diff mod_diff_left_eq Suc_leI)
    from ringInv_at [OF inv _ _ this] False count
    have "go_at (hcSamples c) (hc_index c (hcHead c - 1)) = Some (ss ! (length ss - 1))" by (simp add: of_nat_diff Suc_leI)
    moreover have "0 < int (length ss)" using False by simp
    then have "hcCount c \<noteq> 0" using count by linarith
    ultimately show ?thesis using False by (simp add: Latest_def last_conv_nth)
  qed
  ultimately show ?thesis using c by auto
qed

end
