(* ===== verification/Ws_Hub.thy ===== *)
theory Ws_Hub
  imports Store_Models Values
begin

text \<open>
  The WebSocket hub (\<open>internal/ws/hub.go\<close>): registration of subscribers in per-tenant rooms, and broadcasts.

  A \<open>*client\<close> is an address, a number, into a heap of clients; its buffered channel is the list of what waits in it and
  whether it is closed. Sending to a closed channel and closing one twice are panics in Go, \<open>None\<close> here. The lock makes
  every method one step; \<open>receive\<close> is the write pump taking one message. \<open>rng\<close> is the order in which Go visits a
  set of clients, and \<open>json.Marshal\<close> of the message is a parameter.
\<close>

section \<open>Definitions\<close>

record Message =
  mgType :: string
  mgTenant :: string
  mgPayload :: any
  mgTime :: time

record client =
  cnTenant :: string
  cnBuffer :: "string list"
  cnClosed :: bool

record Hub =
  hbClients :: "nat list"
  hbByTenant :: "(string, nat list) gomap"
  hbHeap :: "(nat, client) gomap"
  hbNext :: nat

definition NewHub :: Hub where
  "NewHub = \<lparr>hbClients = [], hbByTenant = [], hbHeap = [], hbNext = 0\<rparr>"

definition sendCapacity :: nat where
  "sendCapacity = 64"

definition Register :: "string \<Rightarrow> Hub \<Rightarrow> nat \<times> Hub" where
  "Register tenant h =
     (let c = hbNext h;
          room = (if glookup (hbByTenant h) tenant = None then [] else gget [] (hbByTenant h) tenant)
      in (c, h \<lparr>hbNext := Suc c,
                hbHeap := gput c \<lparr>cnTenant = tenant, cnBuffer = [], cnClosed = False\<rparr> (hbHeap h),
                hbClients := List.insert c (hbClients h),
                hbByTenant := gput tenant (List.insert c room) (hbByTenant h)\<rparr>))"

definition closeSend :: "nat \<Rightarrow> Hub \<Rightarrow> Hub option" where
  "closeSend c h = (case glookup (hbHeap h) c of
      None \<Rightarrow> None
    | Some r \<Rightarrow> (if cnClosed r then None else Some (h \<lparr>hbHeap := gput c (r \<lparr>cnClosed := True\<rparr>) (hbHeap h)\<rparr>)))"

text \<open>The function that \<open>Register tenant\<close> returned for the client \<open>c\<close>.\<close>

definition deregister :: "string \<Rightarrow> nat \<Rightarrow> Hub \<Rightarrow> Hub option" where
  "deregister tenant c h =
     (if c \<notin> set (hbClients h) then Some h
      else let room = removeAll c (gget [] (hbByTenant h) tenant) in
        closeSend c (h \<lparr>hbClients := removeAll c (hbClients h),
                        hbByTenant := (if room = [] then gdelete tenant (hbByTenant h) else gput tenant room (hbByTenant h))\<rparr>))"

definition deliver :: "string \<Rightarrow> nat \<Rightarrow> Hub \<Rightarrow> Hub option" where
  "deliver data c h = (case glookup (hbHeap h) c of
      None \<Rightarrow> None
    | Some r \<Rightarrow>
        (if cnClosed r then None
         else if length (cnBuffer r) < sendCapacity
         then Some (h \<lparr>hbHeap := gput c (r \<lparr>cnBuffer := cnBuffer r @ [data]\<rparr>) (hbHeap h)\<rparr>)
         else Some h))"

fun deliverAll :: "string \<Rightarrow> nat list \<Rightarrow> Hub \<Rightarrow> Hub option" where
  "deliverAll data [] h = Some h"
| "deliverAll data (c # cs) h = Option.bind (deliver data c h) (deliverAll data cs)"

definition Broadcast :: "(Message \<Rightarrow> (string, string) result) \<Rightarrow> (nat list \<Rightarrow> nat list) \<Rightarrow> time \<Rightarrow> string \<Rightarrow> string \<Rightarrow> any
    \<Rightarrow> Hub \<Rightarrow> Hub option" where
  "Broadcast marshal rng now tenant msgType payload h =
     (case marshal \<lparr>mgType = msgType, mgTenant = tenant, mgPayload = payload, mgTime = now\<rparr> of
        Inl _ \<Rightarrow> Some h
      | Inr data \<Rightarrow>
          (if tenant = '''' then deliverAll data (rng (hbClients h)) h
           else deliverAll data (rng (gget [] (hbByTenant h) tenant)) h))"

definition ClientCount :: "Hub \<Rightarrow> nat" where
  "ClientCount h = length (hbClients h)"

definition receive :: "nat \<Rightarrow> Hub \<Rightarrow> (string \<times> Hub) option" where
  "receive c h = (case glookup (hbHeap h) c of
      None \<Rightarrow> None
    | Some r \<Rightarrow> (case cnBuffer r of
        [] \<Rightarrow> None
      | d # ds \<Rightarrow> Some (d, h \<lparr>hbHeap := gput c (r \<lparr>cnBuffer := ds\<rparr>) (hbHeap h)\<rparr>)))"

text \<open>The states of a hub in use: \<open>deregister\<close> is called, any number of times, for clients that were registered.\<close>

definition permutes_list :: "(nat list \<Rightarrow> nat list) \<Rightarrow> bool" where
  "permutes_list rng \<longleftrightarrow> (\<forall>cs. mset (rng cs) = mset cs)"

inductive hub_reachable :: "Hub \<Rightarrow> bool" where
  hub_new: "hub_reachable NewHub"
| hub_register: "hub_reachable h \<Longrightarrow> hub_reachable (snd (Register tenant h))"
| hub_deregister: "hub_reachable h \<Longrightarrow> glookup (hbHeap h) c = Some r \<Longrightarrow> deregister (cnTenant r) c h = Some h' \<Longrightarrow> hub_reachable h'"
| hub_broadcast: "hub_reachable h \<Longrightarrow> permutes_list rng \<Longrightarrow> Broadcast marshal rng now tenant ty payload h = Some h' \<Longrightarrow> hub_reachable h'"
| hub_receive: "hub_reachable h \<Longrightarrow> receive c h = Some (d, h') \<Longrightarrow> hub_reachable h'"

section \<open>The invariant\<close>

text \<open>Exactly the registered clients have an open channel, every client is in the room of its tenant and in no other, no
  room is empty, and no channel holds more than it can.\<close>

definition hubInv :: "Hub \<Rightarrow> bool" where
  "hubInv h \<longleftrightarrow>
     distinct (hbClients h)
     \<and> (\<forall>c \<in> set (hbClients h). \<exists>r. glookup (hbHeap h) c = Some r)
     \<and> (\<forall>c r. glookup (hbHeap h) c = Some r \<longrightarrow> c < hbNext h \<and> (cnClosed r \<longleftrightarrow> c \<notin> set (hbClients h)) \<and> length (cnBuffer r) \<le> sendCapacity)
     \<and> (\<forall>t. distinct (gget [] (hbByTenant h) t)
          \<and> set (gget [] (hbByTenant h) t) = {c \<in> set (hbClients h). \<exists>r. glookup (hbHeap h) c = Some r \<and> cnTenant r = t})
     \<and> (\<forall>t. glookup (hbByTenant h) t \<noteq> Some [])"

lemma hubInv_new: "hubInv NewHub"
  by (simp add: hubInv_def NewHub_def)

lemma Register_fields:
  assumes "Register tenant h = (c, h')"
  shows "c = hbNext h" "hbNext h' = Suc (hbNext h)" "hbClients h' = List.insert (hbNext h) (hbClients h)"
    "hbHeap h' = gput (hbNext h) \<lparr>cnTenant = tenant, cnBuffer = [], cnClosed = False\<rparr> (hbHeap h)"
    "hbByTenant h' = gput tenant (List.insert (hbNext h) (gget [] (hbByTenant h) tenant)) (hbByTenant h)"
  using assms by (auto simp: Register_def Let_def gget_def)

lemma hubInv_fresh: "hubInv h \<Longrightarrow> hbNext h \<notin> set (hbClients h)"
  by (fastforce simp: hubInv_def)

lemma hubInv_register:
  assumes "hubInv h"
  shows "hubInv (snd (Register tenant h))"
proof -
  obtain c h' where r: "Register tenant h = (c, h')" by force
  note f = Register_fields [OF r] and new = hubInv_fresh [OF assms]
  have room: "set (gget [] (hbByTenant h') t) = {c \<in> set (hbClients h'). \<exists>r. glookup (hbHeap h') c = Some r \<and> cnTenant r = t}"
    and dist: "distinct (gget [] (hbByTenant h') t)" for t
    using assms new by (auto simp: f hubInv_def)
  have "glookup (hbByTenant h') t \<noteq> Some []" for t using assms by (auto simp: f hubInv_def List.insert_def)
  with room dist have "hubInv h'"
    using assms new unfolding hubInv_def by (auto simp: f less_Suc_eq)
  with r show ?thesis by simp
qed

text \<open>Changing what waits in an open channel keeps the invariant.\<close>

lemma hubInv_buffer:
  assumes "hubInv h" "glookup (hbHeap h) c = Some r" "length ds \<le> sendCapacity"
  shows "hubInv (h \<lparr>hbHeap := gput c (r \<lparr>cnBuffer := ds\<rparr>) (hbHeap h)\<rparr>)"
  using assms unfolding hubInv_def by auto

lemma deliver_ok:
  assumes "hubInv h" "c \<in> set (hbClients h)"
  shows "\<exists>r. glookup (hbHeap h) c = Some r \<and> deliver data c h =
    Some (if length (cnBuffer r) < sendCapacity then h \<lparr>hbHeap := gput c (r \<lparr>cnBuffer := cnBuffer r @ [data]\<rparr>) (hbHeap h)\<rparr> else h)"
  using assms by (fastforce simp: hubInv_def deliver_def)

text \<open>What a client finds in its channel after a delivery to a set of clients.\<close>

definition afterDelivery :: "string \<Rightarrow> nat set \<Rightarrow> nat \<Rightarrow> client \<Rightarrow> client" where
  "afterDelivery data cs c r =
     (if c \<in> cs \<and> length (cnBuffer r) < sendCapacity then r \<lparr>cnBuffer := cnBuffer r @ [data]\<rparr> else r)"

lemma deliverAll_ok:
  assumes "hubInv h" "distinct cs" "set cs \<subseteq> set (hbClients h)"
  shows "\<exists>h'. deliverAll data cs h = Some h' \<and> hubInv h' \<and> hbClients h' = hbClients h \<and> hbByTenant h' = hbByTenant h
    \<and> (\<forall>c. glookup (hbHeap h') c = map_option (afterDelivery data (set cs) c) (glookup (hbHeap h) c))"
  using assms
proof (induction cs arbitrary: h)
  case Nil
  then show ?case by (auto simp: afterDelivery_def option.map_ident)
next
  case (Cons x cs)
  let ?deliver = "\<lambda>r. h \<lparr>hbHeap := gput x (r \<lparr>cnBuffer := cnBuffer r @ [data]\<rparr>) (hbHeap h)\<rparr>"
  from Cons.prems obtain r where r: "glookup (hbHeap h) x = Some r"
    and d: "deliver data x h = Some (if length (cnBuffer r) < sendCapacity then ?deliver r else h)"
    using deliver_ok [of h x data] by auto
  define h1 where "h1 = (if length (cnBuffer r) < sendCapacity then ?deliver r else h)"
  have i1: "hubInv h1" using hubInv_buffer [OF Cons.prems(1) r] Cons.prems(1) by (simp add: h1_def)
  have f1: "hbClients h1 = hbClients h" "hbByTenant h1 = hbByTenant h" by (simp_all add: h1_def)
  have heap1: "glookup (hbHeap h1) c = map_option (afterDelivery data {x} c) (glookup (hbHeap h) c)" for c
    using r by (cases "glookup (hbHeap h) c") (auto simp: h1_def afterDelivery_def)
  from Cons.IH [OF i1] Cons.prems f1 obtain h' where h': "deliverAll data cs h1 = Some h'" "hubInv h'"
    "hbClients h' = hbClients h" "hbByTenant h' = hbByTenant h"
    and heap: "\<And>c. glookup (hbHeap h') c = map_option (afterDelivery data (set cs) c) (glookup (hbHeap h1) c)" by auto
  have "glookup (hbHeap h') c = map_option (afterDelivery data (set (x # cs)) c) (glookup (hbHeap h) c)" for c
    using heap [of c] heap1 [of c] Cons.prems(2) by (cases "glookup (hbHeap h) c") (auto simp: afterDelivery_def)
  with h' d show ?case by (simp add: h1_def)
qed

lemma permutes_listD: "permutes_list rng \<Longrightarrow> set (rng cs) = set cs" "permutes_list rng \<Longrightarrow> distinct cs \<Longrightarrow> distinct (rng cs)"
  by (metis permutes_list_def set_mset_mset, metis permutes_list_def mset_eq_imp_distinct_iff)

text \<open>The clients a broadcast is for.\<close>

definition audience :: "Hub \<Rightarrow> string \<Rightarrow> nat set" where
  "audience h tenant = {c \<in> set (hbClients h). \<exists>r. glookup (hbHeap h) c = Some r \<and> (tenant = '''' \<or> cnTenant r = tenant)}"

lemma Broadcast_ok:
  assumes "hubInv h" "permutes_list rng"
  shows "\<exists>h'. Broadcast marshal rng now tenant ty payload h = Some h' \<and> hubInv h' \<and> hbClients h' = hbClients h
    \<and> (\<forall>c. glookup (hbHeap h') c = (case marshal \<lparr>mgType = ty, mgTenant = tenant, mgPayload = payload, mgTime = now\<rparr> of
          Inl _ \<Rightarrow> glookup (hbHeap h) c
        | Inr data \<Rightarrow> map_option (afterDelivery data (audience h tenant) c) (glookup (hbHeap h) c)))"
proof (cases "marshal \<lparr>mgType = ty, mgTenant = tenant, mgPayload = payload, mgTime = now\<rparr>")
  case (Inl e)
  with assms(1) show ?thesis by (simp add: Broadcast_def)
next
  case (Inr data)
  define cs where "cs = (if tenant = '''' then hbClients h else gget [] (hbByTenant h) tenant)"
  have cs: "distinct cs" "set cs = audience h tenant"
    using assms(1) by (auto simp: cs_def hubInv_def audience_def)
  then have "distinct (rng cs)" "set (rng cs) \<subseteq> set (hbClients h)" "set (rng cs) = audience h tenant"
    using permutes_listD [OF assms(2)] by (auto simp: audience_def)
  with deliverAll_ok [OF assms(1), of "rng cs" data] Inr show ?thesis
    by (auto simp: Broadcast_def cs_def split: if_splits)
qed

lemma deregister_ok:
  assumes inv: "hubInv h" and r: "glookup (hbHeap h) c = Some r"
  shows "\<exists>h'. deregister (cnTenant r) c h = Some h' \<and> hubInv h' \<and> set (hbClients h') = set (hbClients h) - {c}"
proof (cases "c \<in> set (hbClients h)")
  case False
  with inv show ?thesis by (auto simp: deregister_def)
next
  case True
  let ?t = "cnTenant r"
  let ?room = "removeAll c (gget [] (hbByTenant h) ?t)"
  let ?bt = "if ?room = [] then gdelete ?t (hbByTenant h) else gput ?t ?room (hbByTenant h)"
  let ?h = "h \<lparr>hbClients := removeAll c (hbClients h), hbByTenant := ?bt, hbHeap := gput c (r \<lparr>cnClosed := True\<rparr>) (hbHeap h)\<rparr>"
  have open': "\<not> cnClosed r" using inv r True by (auto simp: hubInv_def)
  have d: "deregister ?t c h = Some ?h"
    using True r open' by (simp add: deregister_def closeSend_def Let_def)
  have bt: "gget [] ?bt t = removeAll c (gget [] (hbByTenant h) t)" for t
    using inv r by (auto simp: hubInv_def removeAll_id)
  have "set (gget [] ?bt t) = {x \<in> set (hbClients ?h). \<exists>r. glookup (hbHeap ?h) x = Some r \<and> cnTenant r = t}"
    and "distinct (gget [] ?bt t)" for t
    unfolding bt using inv by (auto simp: hubInv_def distinct_removeAll)
  moreover have "glookup ?bt t \<noteq> Some []" for t using inv by (auto simp: hubInv_def)
  ultimately have "hubInv ?h" using inv True r unfolding hubInv_def
    by (auto simp: distinct_removeAll)
  with d show ?thesis by auto
qed

lemma receive_inv:
  assumes "hubInv h" "receive c h = Some (d, h')"
  shows "hubInv h'"
proof -
  from assms(2) obtain r ds where r: "glookup (hbHeap h) c = Some r" "cnBuffer r = d # ds"
    and h': "h' = h \<lparr>hbHeap := gput c (r \<lparr>cnBuffer := ds\<rparr>) (hbHeap h)\<rparr>"
    by (auto simp: receive_def split: option.splits list.splits)
  from assms(1) r have "length ds \<le> sendCapacity" by (fastforce simp: hubInv_def)
  with hubInv_buffer [OF assms(1) r(1)] h' show ?thesis by simp
qed

lemma reachable_hubInv: "hub_reachable h \<Longrightarrow> hubInv h"
proof (induction rule: hub_reachable.induct)
  case (hub_deregister h c r h')
  with deregister_ok [of h c r] show ?case by auto
next
  case (hub_broadcast h rng marshal now tenant ty payload h')
  with Broadcast_ok [of h rng marshal now tenant ty payload] show ?case by auto
qed (simp_all add: hubInv_new hubInv_register receive_inv)

text \<open>A hub with two tenants, for the concrete instances.\<close>

definition sampleHub :: Hub where
  "sampleHub = snd (Register ''t2'' (snd (Register ''t1'' NewHub)))"

lemma sampleHub_reachable: "hub_reachable sampleHub"
  unfolding sampleHub_def by (intro hub_register hub_new)

section \<open>Properties\<close>

text \<open>C32: In every state that registrations, deregistrations (also repeated ones), broadcasts and receptions can reach, no
  operation panics: no message is sent to a closed channel and no channel is closed twice. Exactly the registered
  clients have an open channel.\<close>

theorem hub_never_panics:
  assumes "hub_reachable h" and "permutes_list rng" and "glookup (hbHeap h) c = Some r"
  shows "Broadcast marshal rng now tenant ty payload h \<noteq> None \<and> deregister (cnTenant r) c h \<noteq> None
    \<and> (cnClosed r \<longleftrightarrow> c \<notin> set (hbClients h))"
  using Broadcast_ok [OF reachable_hubInv [OF assms(1)] assms(2), of marshal now tenant ty payload]
    deregister_ok [OF reachable_hubInv [OF assms(1)] assms(3)] reachable_hubInv [OF assms(1)] assms(3)
  by (auto simp: hubInv_def)

theorem hub_never_panics_witness: "deregister ''t1'' 0 sampleHub \<noteq> None"
proof -
  have "glookup (hbHeap sampleHub) 0 = Some \<lparr>cnTenant = ''t1'', cnBuffer = [], cnClosed = False\<rparr>" by code_simp
  from hub_never_panics [OF sampleHub_reachable _ this, of id] show ?thesis by (simp add: permutes_list_def)
qed

text \<open>C33: A broadcast reaches its tenant and nobody else: each registered client of the tenant (each registered client, for the
  empty tenant) whose channel is not full gets the message after what it already has, in whatever order Go visits the
  room; every other client's channel is as before.\<close>

theorem broadcast_delivers:
  assumes "hub_reachable h" and "permutes_list rng"
    and "marshal \<lparr>mgType = ty, mgTenant = tenant, mgPayload = payload, mgTime = now\<rparr> = Inr data"
    and "Broadcast marshal rng now tenant ty payload h = Some h'" and "glookup (hbHeap h) c = Some r"
  shows "glookup (hbHeap h') c = Some
    (if c \<in> set (hbClients h) \<and> (tenant = '''' \<or> cnTenant r = tenant) \<and> length (cnBuffer r) < sendCapacity
     then r \<lparr>cnBuffer := cnBuffer r @ [data]\<rparr> else r)"
  using Broadcast_ok [OF reachable_hubInv [OF assms(1)] assms(2), of marshal now tenant ty payload] assms(3-5)
  by (auto simp: afterDelivery_def audience_def)

theorem broadcast_delivers_witness:
  "\<exists>h'. Broadcast (\<lambda>m. Inr (mgType m)) rev 0 ''t1'' ''run_update'' VNil sampleHub = Some h'
     \<and> glookup (hbHeap h') 0 = Some \<lparr>cnTenant = ''t1'', cnBuffer = [''run_update''], cnClosed = False\<rparr>
     \<and> glookup (hbHeap h') 1 = Some \<lparr>cnTenant = ''t2'', cnBuffer = [], cnClosed = False\<rparr>"
proof -
  let ?m = "\<lambda>m. Inr (mgType m) :: (string, string) result"
  have p: "permutes_list rev" by (simp add: permutes_list_def)
  have "Broadcast ?m rev 0 ''t1'' ''run_update'' VNil sampleHub \<noteq> None" by code_simp
  then obtain h' where h': "Broadcast ?m rev 0 ''t1'' ''run_update'' VNil sampleHub = Some h'" by blast
  have g: "glookup (hbHeap sampleHub) 0 = Some \<lparr>cnTenant = ''t1'', cnBuffer = [], cnClosed = False\<rparr>"
    "glookup (hbHeap sampleHub) 1 = Some \<lparr>cnTenant = ''t2'', cnBuffer = [], cnClosed = False\<rparr>"
    "hbClients sampleHub = [1, 0]" by code_simp+
  have m: "?m \<lparr>mgType = ''run_update'', mgTenant = ''t1'', mgPayload = VNil, mgTime = 0\<rparr> = Inr ''run_update''" by simp
  from broadcast_delivers [OF sampleHub_reachable p m h' g(1)] broadcast_delivers [OF sampleHub_reachable p m h' g(2)] g(3) h'
  show ?thesis by (simp add: sendCapacity_def)
qed

end
