(* ===== verification/Orchestrator.thy ===== *)
theory Orchestrator
  imports Memory_Store Mcp Auth "HOL-Library.Product_Lexorder"
begin

text \<open>
  The task orchestrator (\<open>internal/orchestrator/decomposer.go\<close>, \<open>task_distribution.go\<close>): decomposition by keywords, the
  bounded pool that runs the subtasks, and the aggregation.

  A pool run is a sequence of steps of the loop of \<open>execute\<close> and of the goroutines it starts (\<open>pool_step\<close>). A goroutine
  goes through the phases of \<open>runSubtask\<close>; one step makes at most one tool call, or one \<open>markStatus\<close>. The
  goroutines share the slice \<open>task.Subtasks\<close> (\<open>owSubs\<close>), the store and the MCP client. The context may be cancelled at any
  moment, and stays so; the deadline of a subtask may pass at any moment after it started. \<open>uuid.NewString\<close>, the clock and
  the JSON encoder are parameters; \<open>ulower\<close> is the Unicode part of \<open>strings.ToLower\<close>.
\<close>

section \<open>Decomposition\<close>

record SubtaskSpec =
  ssAgentID :: string
  ssDescription :: string
  ssSkills :: "Skill list"
  ssScore :: int

definition keywordMatch :: "(string \<Rightarrow> string) \<Rightarrow> string \<Rightarrow> string \<Rightarrow> bool" where
  "keywordMatch ulower lowerText keyword =
     (let k = ToLower ulower (TrimSpace keyword) in \<not> length k < 2 \<and> Contains lowerText k)"

definition buildDescription :: "string \<Rightarrow> Skill list \<Rightarrow> string" where
  "buildDescription txt skills = ''process: '' @ txt @ '' (skills: '' @ Join (map skName skills) '', '' @ '')''"

definition matchedSkills :: "(string \<Rightarrow> string) \<Rightarrow> string \<Rightarrow> Agent \<Rightarrow> Skill list" where
  "matchedSkills ulower lower a =
     filter (\<lambda>s. keywordMatch ulower lower (skName s) \<or> keywordMatch ulower lower (skTool s)) (agSkills a)"

fun agentSpecs :: "(string \<Rightarrow> string) \<Rightarrow> string \<Rightarrow> string \<Rightarrow> Agent list \<Rightarrow> SubtaskSpec list" where
  "agentSpecs ulower txt lower [] = []"
| "agentSpecs ulower txt lower (a # as) =
     (if \<not> agEnabled a then agentSpecs ulower txt lower as
      else let matched = matchedSkills ulower lower a in
        if matched = [] then agentSpecs ulower txt lower as
        else \<lparr>ssAgentID = agID a, ssDescription = buildDescription txt matched, ssSkills = matched,
              ssScore = int (length matched)\<rparr> # agentSpecs ulower txt lower as)"

definition Decompose :: "(string \<Rightarrow> string) \<Rightarrow> string \<Rightarrow> Agent list \<Rightarrow> SubtaskSpec list" where
  "Decompose ulower txt agents =
     (let specs = sort_key (\<lambda>s. (- ssScore s, ssAgentID s)) (agentSpecs ulower txt (ToLower ulower txt) agents)
      in if specs = [] then [\<lparr>ssAgentID = '''', ssDescription = txt, ssSkills = [], ssScore = 0\<rparr>] else specs)"

section \<open>Running a subtask\<close>

datatype sub_err =
    NoMatchingAgent
  | LoadAgent string store_error
  | LoadServer string store_error
  | ParseTransport string string
  | CallToolErr string string
  | CtxErr string

record subtaskOutcome =
  soIndex :: nat
  soResult :: string
  soErr :: "sub_err option"

text \<open>The loop of \<open>joinNonEmpty\<close>, from index \<open>i\<close> with \<open>out\<close> so far.\<close>

fun joinLoop :: "nat \<Rightarrow> string \<Rightarrow> string list \<Rightarrow> string" where
  "joinLoop i out [] = out"
| "joinLoop i out (p # ps) =
     (if p = '''' then joinLoop (Suc i) out ps
      else joinLoop (Suc i) ((if 0 < i \<and> out \<noteq> '''' then out @ newline else out) @ p) ps)"

definition joinNonEmpty :: "string list \<Rightarrow> string" where
  "joinNonEmpty parts = joinLoop 0 '''' parts"

record 'c OrchEnv =
  oeDecodeTransport :: "string \<Rightarrow> (string, Transport) result"
  oeCallTool :: "'c callTool"
  oeMarshal :: "any \<Rightarrow> (string, string) result"

record 'c world =
  owStore :: Memory
  owClient :: 'c
  owSubs :: "Subtask list"
  owCtx :: "string option"

definition marshalBytes :: "'c OrchEnv \<Rightarrow> any \<Rightarrow> raw" where
  "marshalBytes env v = (case oeMarshal env v of Inl _ \<Rightarrow> '''' | Inr b \<Rightarrow> b)"

definition markStatus :: "'c OrchEnv \<Rightarrow> Task \<Rightarrow> nat \<Rightarrow> string \<Rightarrow> string \<Rightarrow> time \<Rightarrow> 'c world \<Rightarrow> 'c world" where
  "markStatus env task idx status res t w =
     (if taTenantID task = '''' then w
      else let sub = (owSubs w) ! idx;
               sub1 = sub \<lparr>suStatus := status\<rparr>;
               sub2 = (if status = SubtaskStatusSuccess \<or> status = SubtaskStatusFailed
                       then sub1 \<lparr>suResult := marshalBytes env (VString res)\<rparr> else sub1);
               subs = (owSubs w)[idx := sub2];
               m = snd (UpdateTask (task \<lparr>taSubtasks := subs, taUpdatedAt := t\<rparr>) (owStore w))
           in w \<lparr>owSubs := subs, owStore := m\<rparr>)"

text \<open>Where a goroutine is: not started, at the start of \<open>runSubtask\<close>, in its loop with skills left, behind the loop, or
  returned.\<close>

datatype phase = Idle | Begin | Calling Agent "Skill list" "string list" | Finishing "string list" "sub_err option" | Ended

definition beginSubtask :: "'c OrchEnv \<Rightarrow> Task \<Rightarrow> nat \<Rightarrow> SubtaskSpec \<Rightarrow> time \<Rightarrow> 'c world
    \<Rightarrow> phase \<times> subtaskOutcome option \<times> 'c world" where
  "beginSubtask env task idx spec t w =
     (if ssAgentID spec = '''' then
        (Ended, Some \<lparr>soIndex = idx, soResult = '''', soErr = Some NoMatchingAgent\<rparr>,
         markStatus env task idx SubtaskStatusFailed '''' t w)
      else (case GetAgent (taTenantID task) (ssAgentID spec) (owStore w) of
        Inl e \<Rightarrow> (Ended, Some \<lparr>soIndex = idx, soResult = '''', soErr = Some (LoadAgent (ssAgentID spec) e)\<rparr>,
                  markStatus env task idx SubtaskStatusFailed '''' t w)
      | Inr agent \<Rightarrow> (Calling agent (ssSkills spec) [], None, markStatus env task idx SubtaskStatusRunning '''' t w)))"

text \<open>One pass of the loop over the skills; \<open>subErr\<close> is \<open>subCtx.Err()\<close>.\<close>

definition callSkill :: "'c OrchEnv \<Rightarrow> Task \<Rightarrow> SubtaskSpec \<Rightarrow> string option \<Rightarrow> Agent \<Rightarrow> Skill \<Rightarrow> Skill list \<Rightarrow> string list
    \<Rightarrow> 'c world \<Rightarrow> phase \<times> 'c world" where
  "callSkill env task spec subErr agent sk sks outs w =
     (if subErr \<noteq> None then (Finishing outs None, w)
      else (case GetMcpServer (taTenantID task) (skServerID sk) (owStore w) of
        Inl e \<Rightarrow> (Finishing outs (Some (LoadServer (skServerID sk) e)), w)
      | Inr server \<Rightarrow> (case TransportFromServer (oeDecodeTransport env) (msvTransport server) of
          Inl e \<Rightarrow> (Finishing outs (Some (ParseTransport (msvName server) e)), w)
        | Inr transport \<Rightarrow>
            (case oeCallTool env transport (skTool sk)
                [(''task'', VString (ssDescription spec)), (''agent'', VString (agName agent)),
                 (''prompt'', VString (agSystemPrompt agent))] (owClient w) of
               (Inl e, c) \<Rightarrow> (Finishing outs (Some (CallToolErr (skTool sk) e)), w \<lparr>owClient := c\<rparr>)
             | (Inr res, c) \<Rightarrow> (Calling agent sks (outs @ [CallToolResult res]), w \<lparr>owClient := c\<rparr>)))))"

definition finishSubtask :: "'c OrchEnv \<Rightarrow> Task \<Rightarrow> nat \<Rightarrow> string option \<Rightarrow> string list \<Rightarrow> sub_err option \<Rightarrow> time \<Rightarrow> 'c world
    \<Rightarrow> subtaskOutcome \<times> 'c world" where
  "finishSubtask env task idx subErr outs err t w =
     (let err' = (case err of Some e \<Rightarrow> Some e | None \<Rightarrow> map_option CtxErr subErr);
          res = joinNonEmpty outs
      in (\<lparr>soIndex = idx, soResult = res, soErr = err'\<rparr>,
          markStatus env task idx (if err' = None then SubtaskStatusSuccess else SubtaskStatusFailed) res t w))"

section \<open>The pool\<close>

record 'c pool =
  plNext :: nat
  plWaiting :: bool
  plPhases :: "phase list"
  plResults :: "subtaskOutcome option list"
  plWorld :: "'c world"

definition active :: "phase \<Rightarrow> bool" where
  "active ph \<longleftrightarrow> ph \<noteq> Idle \<and> ph \<noteq> Ended"

definition activeCount :: "'c pool \<Rightarrow> nat" where
  "activeCount p = length (filter active (plPhases p))"

text \<open>\<open>subCtx.Err()\<close> is the error of the parent context once that is cancelled; before, it is nil or the deadline.\<close>

definition subErrOf :: "'c world \<Rightarrow> string option \<Rightarrow> bool" where
  "subErrOf w e \<longleftrightarrow> (case owCtx w of Some x \<Rightarrow> e = Some x | None \<Rightarrow> True)"

text \<open>
  The steps: the loop looks at the context (\<open>check\<close>) and either records the error (\<open>skip\<close>) or waits for the semaphore and starts
  the goroutine (\<open>launch\<close>); a goroutine begins, makes a call, leaves its loop, finishes; the context is cancelled.
\<close>

inductive pool_step :: "'c OrchEnv \<Rightarrow> nat \<Rightarrow> Task \<Rightarrow> SubtaskSpec list \<Rightarrow> 'c pool \<Rightarrow> 'c pool \<Rightarrow> bool"
  for env :: "'c OrchEnv" and workers :: nat and task :: Task and specs :: "SubtaskSpec list" where
  check: "plNext p < length specs \<Longrightarrow> \<not> plWaiting p \<Longrightarrow> owCtx (plWorld p) = None \<Longrightarrow>
     pool_step env workers task specs p (p \<lparr>plWaiting := True\<rparr>)"
| skip: "plNext p = i \<Longrightarrow> i < length specs \<Longrightarrow> \<not> plWaiting p \<Longrightarrow> owCtx (plWorld p) = Some e \<Longrightarrow>
     pool_step env workers task specs p
       (p \<lparr>plNext := Suc i, plPhases := (plPhases p)[i := Ended],
           plResults := (plResults p)[i := Some \<lparr>soIndex = i, soResult = '''', soErr = Some (CtxErr e)\<rparr>]\<rparr>)"
| launch: "plNext p = i \<Longrightarrow> i < length specs \<Longrightarrow> plWaiting p \<Longrightarrow> activeCount p < workers \<Longrightarrow>
     pool_step env workers task specs p (p \<lparr>plNext := Suc i, plWaiting := False, plPhases := (plPhases p)[i := Begin]\<rparr>)"
| start: "i < length specs \<Longrightarrow> plPhases p ! i = Begin \<Longrightarrow> beginSubtask env task i (specs ! i) t (plWorld p) = (ph, res, w) \<Longrightarrow>
     pool_step env workers task specs p
       (p \<lparr>plPhases := (plPhases p)[i := ph],
           plResults := (case res of None \<Rightarrow> plResults p | Some o' \<Rightarrow> (plResults p)[i := Some o']), plWorld := w\<rparr>)"
| call: "i < length specs \<Longrightarrow> plPhases p ! i = Calling agent (sk # sks) outs \<Longrightarrow> subErrOf (plWorld p) e \<Longrightarrow>
     callSkill env task (specs ! i) e agent sk sks outs (plWorld p) = (ph, w) \<Longrightarrow>
     pool_step env workers task specs p (p \<lparr>plPhases := (plPhases p)[i := ph], plWorld := w\<rparr>)"
| leave: "i < length specs \<Longrightarrow> plPhases p ! i = Calling agent [] outs \<Longrightarrow>
     pool_step env workers task specs p (p \<lparr>plPhases := (plPhases p)[i := Finishing outs None]\<rparr>)"
| finish: "i < length specs \<Longrightarrow> plPhases p ! i = Finishing outs err \<Longrightarrow> subErrOf (plWorld p) e \<Longrightarrow>
     finishSubtask env task i e outs err t (plWorld p) = (o', w) \<Longrightarrow>
     pool_step env workers task specs p
       (p \<lparr>plPhases := (plPhases p)[i := Ended], plResults := (plResults p)[i := Some o'], plWorld := w\<rparr>)"
| cancel: "owCtx (plWorld p) = None \<Longrightarrow>
     pool_step env workers task specs p (p \<lparr>plWorld := (plWorld p) \<lparr>owCtx := Some e\<rparr>\<rparr>)"

definition poolStart :: "SubtaskSpec list \<Rightarrow> 'c world \<Rightarrow> 'c pool" where
  "poolStart specs w = \<lparr>plNext = 0, plWaiting = False, plPhases = replicate (length specs) Idle,
     plResults = replicate (length specs) None, plWorld = w\<rparr>"

text \<open>\<open>wg.Wait()\<close> returns: the loop is over and every goroutine has returned.\<close>

definition poolDone :: "SubtaskSpec list \<Rightarrow> 'c pool \<Rightarrow> bool" where
  "poolDone specs p \<longleftrightarrow> plNext p = length specs \<and> list_all (\<lambda>ph. ph = Ended) (plPhases p)"

section \<open>Distribute\<close>

fun show_nat :: "nat \<Rightarrow> string" where
  "show_nat n = (if n < 10 then [char_of (48 + n)] else show_nat (n div 10) @ [char_of (48 + n mod 10)])"

declare show_nat.simps [simp del]

text \<open>The loop of \<open>finalize\<close>: the number of failures and the lines, from index \<open>i\<close> on.\<close>

fun aggregateLoop :: "nat \<Rightarrow> subtaskOutcome list \<Rightarrow> nat \<times> string list" where
  "aggregateLoop i [] = (0, [])"
| "aggregateLoop i (r # rs) =
     (let (failed, lines) = aggregateLoop (Suc i) rs
      in ((if soErr r \<noteq> None then Suc failed else failed),
          (if soResult r \<noteq> '''' then (''subtask '' @ show_nat i @ '': '' @ soResult r) # lines else lines)))"

text \<open>\<open>ctxErr k\<close> is the \<open>k\<close>-th look at \<open>ctx.Err()\<close> in \<open>finalize\<close>. \<open>finalTask\<close> is the task that it hands to the store.\<close>

definition finalLines :: "(nat \<Rightarrow> string option) \<Rightarrow> string list \<Rightarrow> string list" where
  "finalLines ctxErr lines =
     (if ctxErr 1 \<noteq> None then lines @ [''context: '' @ (case ctxErr 2 of Some e \<Rightarrow> e | None \<Rightarrow> '''')] else lines)"

definition finalTask :: "'c OrchEnv \<Rightarrow> (nat \<Rightarrow> string option) \<Rightarrow> time \<Rightarrow> Task \<Rightarrow> subtaskOutcome list \<Rightarrow> Task" where
  "finalTask env ctxErr t task results =
     (let rs = sort_key soIndex results;
          (failed, lines) = aggregateLoop 0 rs
      in task \<lparr>taStatus := (if 0 < failed \<or> ctxErr 0 \<noteq> None then TaskStatusFailed else TaskStatusSuccess),
               taResult := marshalBytes env (VMap [(''subtasks_completed'', VInt (int (length rs) - int failed)),
                  (''subtasks_failed'', VInt (int failed)), (''results'', VList (map VString (finalLines ctxErr lines)))]),
               taUpdatedAt := t\<rparr>)"

definition finalize :: "'c OrchEnv \<Rightarrow> (nat \<Rightarrow> string option) \<Rightarrow> time \<Rightarrow> Task \<Rightarrow> subtaskOutcome list \<Rightarrow> Memory \<Rightarrow> Task \<times> Memory" where
  "finalize env ctxErr t task results m =
     (let task' = finalTask env ctxErr t task results
      in (case UpdateTask task' m of
            (Inl _, m') \<Rightarrow> (task', m')
          | (Inr updated, m') \<Rightarrow> (updated, m')))"

definition tenantFromCtx :: "Request \<Rightarrow> string" where
  "tenantFromCtx r = (if TenantIDFrom r \<noteq> '''' then TenantIDFrom r else ''default'')"

definition newTask :: "string \<Rightarrow> string \<Rightarrow> string \<Rightarrow> SubtaskSpec list \<Rightarrow> time \<Rightarrow> time \<Rightarrow> Task" where
  "newTask tid tenantID txt specs t0 t1 =
     \<lparr>taID = tid, taTenantID = tenantID, taInput = txt, taStatus = TaskStatusPending,
      taSubtasks = map (\<lambda>(i, s). \<lparr>suID = tid @ ''-'' @ show_nat i, suAgentID = ssAgentID s, suDescription = ssDescription s,
                          suStatus = SubtaskStatusPending, suResult = ''''\<rparr>) (List.enumerate 0 specs),
      taResult = '''', taCreatedAt = t0, taUpdatedAt = t1\<rparr>"

text \<open>\<open>Distribute\<close> up to the pool: the specs, the task as created and marked as running, and the store.\<close>

definition prepareTask :: "(string \<Rightarrow> string) \<Rightarrow> range_order \<Rightarrow> string \<Rightarrow> time \<Rightarrow> time \<Rightarrow> string \<Rightarrow> string \<Rightarrow> Memory
    \<Rightarrow> (store_error, SubtaskSpec list \<times> Task) result \<times> Memory" where
  "prepareTask ulower rng tid t0 t1 tenantID txt m =
     (let specs = Decompose ulower txt (ListAgents rng tenantID m) in
      case CreateTask (newTask tid tenantID txt specs t0 t1) m of
        (Inl e, m1) \<Rightarrow> (Inl e, m1)
      | (Inr task, m1) \<Rightarrow>
          (case UpdateTask (task \<lparr>taStatus := TaskStatusRunning\<rparr>) m1 of
             (Inr task2, m2) \<Rightarrow> (Inr (specs, task2), m2)
           | (Inl _, m2) \<Rightarrow> (Inr (specs, \<lparr>taID = '''', taTenantID = '''', taInput = '''', taStatus = '''', taSubtasks = [],
               taResult = '''', taCreatedAt = 0, taUpdatedAt = 0\<rparr>), m2)))"


section \<open>Decomposition and joining\<close>

lemma Join_nonempty: "q \<noteq> '''' \<Longrightarrow> Join (q # qs) sep \<noteq> ''''"
  by (simp add: Join_concat)

lemma joinLoop_Join:
  "joinLoop i (Join qs newline) ps = Join (qs @ filter (\<lambda>p. p \<noteq> '''') ps) newline"
  if "\<forall>q\<in>set qs. q \<noteq> ''''" "length qs \<le> i"
  using that
proof (induction ps arbitrary: i qs)
  case Nil
  then show ?case by simp
next
  case (Cons p ps)
  show ?case
  proof (cases "p = ''''")
    case True
    then show ?thesis using Cons.IH [of qs "Suc i"] Cons.prems by simp
  next
    case False
    have ne: "Join qs newline = '''' \<longleftrightarrow> qs = []"
      using Cons.prems(1) Join_nonempty by (cases qs) simp_all
    have "(if 0 < i \<and> Join qs newline \<noteq> '''' then Join qs newline @ newline else Join qs newline) @ p = Join (qs @ [p]) newline"
      using ne Cons.prems(2) by (cases "qs = []") (auto simp: Join_filter_append Suc_le_eq neq_Nil_conv)
    then show ?thesis
      using False Cons.IH [of "qs @ [p]" "Suc i"] Cons.prems by simp
  qed
qed

lemma joinNonEmpty_Join: "joinNonEmpty parts = Join (filter (\<lambda>p. p \<noteq> '''') parts) newline"
  using joinLoop_Join [of "[]" 0 parts] by (simp add: joinNonEmpty_def)

lemma agentSpecs_filter:
  "agentSpecs ulower txt lower as =
     map (\<lambda>a. let ms = matchedSkills ulower lower a in
            \<lparr>ssAgentID = agID a, ssDescription = buildDescription txt ms, ssSkills = ms, ssScore = int (length ms)\<rparr>)
       (filter (\<lambda>a. agEnabled a \<and> matchedSkills ulower lower a \<noteq> []) as)"
  by (induction as) (simp_all add: Let_def)

lemma Decompose_cases:
  "Decompose ulower txt agents =
     (if \<exists>a\<in>set agents. agEnabled a \<and> matchedSkills ulower (ToLower ulower txt) a \<noteq> []
      then sort_key (\<lambda>s. (- ssScore s, ssAgentID s)) (agentSpecs ulower txt (ToLower ulower txt) agents)
      else [\<lparr>ssAgentID = '''', ssDescription = txt, ssSkills = [], ssScore = 0\<rparr>])"
proof -
  have sort_nil: "sort_key f xs = [] \<longleftrightarrow> xs = []" for f :: "SubtaskSpec \<Rightarrow> int \<times> string" and xs
    by (metis set_empty set_sort)
  show ?thesis
    by (simp add: Decompose_def Let_def sort_nil agentSpecs_filter filter_empty_conv)
qed

lemma Decompose_nonempty: "Decompose ulower txt agents \<noteq> []"
  by (simp add: Decompose_def Let_def)

lemma Decompose_assigned:
  assumes "s \<in> set (Decompose ulower txt agents)" "ssAgentID s \<noteq> ''''"
  shows "\<exists>a\<in>set agents. agEnabled a \<and> ssAgentID s = agID a \<and> ssSkills s = matchedSkills ulower (ToLower ulower txt) a \<and>
     ssSkills s \<noteq> [] \<and> ssScore s = int (length (ssSkills s)) \<and> ssDescription s = buildDescription txt (ssSkills s)"
  using assms by (auto simp: Decompose_cases agentSpecs_filter Let_def split: if_splits)

text \<open>C27: the decomposition is complete, sound and ordered: when some enabled agent has a skill whose name or tool occurs in
  the text, the specs are exactly one per such agent, with all of its matching skills in their order and their number as
  the score, highest score first and equal scores by agent id; when no agent matches, the result is the one generic spec
  with no agent. A score is at least 1 on an assigned spec, so the two cases cannot be confused.\<close>

theorem Decompose_exact:
  "mset (map ssAgentID (Decompose ulower txt agents)) =
      (let hits = filter (\<lambda>a. agEnabled a \<and> (\<exists>s\<in>set (agSkills a).
              keywordMatch ulower (ToLower ulower txt) (skName s) \<or> keywordMatch ulower (ToLower ulower txt) (skTool s))) agents
       in if hits = [] then {# '''' #} else mset (map agID hits))
    \<and> sorted (map (\<lambda>s. (- ssScore s, ssAgentID s)) (Decompose ulower txt agents))
    \<and> list_all (\<lambda>s. ssScore s = int (length (ssSkills s)) \<and> 
          (if ssSkills s = [] then ssAgentID s = '''' \<and> ssDescription s = txt
           else ssDescription s = buildDescription txt (ssSkills s) \<and> list_ex (\<lambda>a. agEnabled a \<and> ssAgentID s = agID a \<and>
             ssSkills s = filter (\<lambda>k. keywordMatch ulower (ToLower ulower txt) (skName k)
                                   \<or> keywordMatch ulower (ToLower ulower txt) (skTool k)) (agSkills a)) agents))
        (Decompose ulower txt agents)"
proof -
  have hit: "(agEnabled a \<and> matchedSkills ulower (ToLower ulower txt) a \<noteq> []) = (agEnabled a \<and> (\<exists>s\<in>set (agSkills a).
      keywordMatch ulower (ToLower ulower txt) (skName s) \<or> keywordMatch ulower (ToLower ulower txt) (skTool s)))" for a
    by (simp add: matchedSkills_def filter_empty_conv)
  have 1: "mset (map ssAgentID (Decompose ulower txt agents)) =
      (let hits = filter (\<lambda>a. agEnabled a \<and> matchedSkills ulower (ToLower ulower txt) a \<noteq> []) agents
       in if hits = [] then {# '''' #} else mset (map agID hits))"
    by (simp add: Decompose_cases agentSpecs_filter Let_def filter_empty_conv multiset.map_comp comp_def)
  have 2: "sorted (map (\<lambda>s. (- ssScore s, ssAgentID s)) (Decompose ulower txt agents))"
    by (simp add: Decompose_cases)
  have 3: "list_all (\<lambda>s. ssScore s = int (length (ssSkills s)) \<and> 
          (if ssSkills s = [] then ssAgentID s = '''' \<and> ssDescription s = txt
           else ssDescription s = buildDescription txt (ssSkills s) \<and> list_ex (\<lambda>a. agEnabled a \<and> ssAgentID s = agID a \<and>
             ssSkills s = matchedSkills ulower (ToLower ulower txt) a) agents)) (Decompose ulower txt agents)"
    by (auto simp: Decompose_cases agentSpecs_filter Let_def list_all_iff list_ex_iff)
  show ?thesis
    using 1 2 3 unfolding hit by (intro conjI) (simp_all only: matchedSkills_def)
qed

section \<open>The pool: safety\<close>

lemma active_simps [simp]:
  "\<not> active Idle" "active Begin" "active (Calling a ks os)" "active (Finishing os e)" "\<not> active Ended"
  by (simp_all add: active_def)

lemma count_update:
  "i < length xs \<Longrightarrow> length (filter P (xs[i := y])) + (if P (xs ! i) then 1 else 0) = length (filter P xs) + (if P y then 1 else 0)"
proof (induction xs arbitrary: i)
  case (Cons x xs)
  then show ?case by (cases i) (auto split: if_splits)
qed simp

text \<open>What holds of every state of the pool: the slots of the specs the loop has not reached are idle, the others are not;
  a slot has a result iff its goroutine has returned (or was skipped), and that result carries the slot's index; at
  most \<open>workers\<close> goroutines are at work.\<close>

definition slotOk :: "nat \<Rightarrow> nat \<Rightarrow> phase \<Rightarrow> subtaskOutcome option \<Rightarrow> bool" where
  "slotOk nxt i ph r \<longleftrightarrow> (nxt \<le> i \<longleftrightarrow> ph = Idle) \<and> (case r of None \<Rightarrow> ph \<noteq> Ended | Some o' \<Rightarrow> ph = Ended \<and> soIndex o' = i)"

definition poolInv :: "nat \<Rightarrow> SubtaskSpec list \<Rightarrow> 'c pool \<Rightarrow> bool" where
  "poolInv workers specs p \<longleftrightarrow>
     length (plPhases p) = length specs \<and> length (plResults p) = length specs \<and> plNext p \<le> length specs \<and>
     (plWaiting p \<longrightarrow> plNext p < length specs) \<and> activeCount p \<le> workers \<and>
     (\<forall>i<length specs. slotOk (plNext p) i (plPhases p ! i) (plResults p ! i))"

lemma poolInv_start: "poolInv workers specs (poolStart specs w)"
  by (simp add: poolInv_def poolStart_def activeCount_def slotOk_def)

lemma beginSubtask_phase:
  "beginSubtask env task i spec t w = (ph, res, w') \<Longrightarrow>
     ph \<noteq> Idle \<and> (case res of None \<Rightarrow> ph \<noteq> Ended | Some o' \<Rightarrow> ph = Ended \<and> soIndex o' = i)"
  by (auto simp: beginSubtask_def split: if_splits sum.splits)

lemma callSkill_phase: "callSkill env task spec e a sk sks outs w = (ph, w') \<Longrightarrow> active ph"
  by (auto simp: callSkill_def split: if_splits sum.splits prod.splits)

text \<open>The two ways a goroutine changes its slot: it goes on, or it returns.\<close>

lemma poolInv_move:
  assumes "poolInv workers specs p" "i < length specs" "active (plPhases p ! i)" "active ph"
  shows "poolInv workers specs (p \<lparr>plPhases := (plPhases p)[i := ph], plWorld := w\<rparr>)"
  using assms count_update [of i "plPhases p" active ph]
  by (auto simp: poolInv_def activeCount_def nth_list_update slotOk_def active_def split: if_splits option.splits)

lemma poolInv_end:
  assumes "poolInv workers specs p" "i < length specs" "active (plPhases p ! i)" "soIndex o' = i"
  shows "poolInv workers specs (p \<lparr>plPhases := (plPhases p)[i := Ended], plResults := (plResults p)[i := Some o'], plWorld := w\<rparr>)"
  using assms count_update [of i "plPhases p" active Ended]
  by (auto simp: poolInv_def activeCount_def nth_list_update slotOk_def split: if_splits option.splits)

lemma poolInv_step:
  assumes "pool_step env workers task specs p p'" "poolInv workers specs p"
  shows "poolInv workers specs p'"
  using assms
proof cases
  case check
  then show ?thesis using assms(2) by (simp add: poolInv_def activeCount_def)
next
  case (skip i e)
  then show ?thesis
    using assms(2) count_update [of i "plPhases p" active Ended]
    by (auto simp: poolInv_def activeCount_def nth_list_update slotOk_def split: if_splits option.splits)
next
  case (launch i)
  then show ?thesis
    using assms(2) count_update [of i "plPhases p" active Begin]
    by (auto simp: poolInv_def activeCount_def nth_list_update slotOk_def split: if_splits option.splits)
next
  case (start i t ph res w)
  then show ?thesis
    using poolInv_move [OF assms(2), of i ph w] poolInv_end [OF assms(2), of i "the res" w] beginSubtask_phase [OF start(4)]
    by (cases res) (auto simp: active_def)
next
  case (call i agent sk sks outs e ph w)
  then show ?thesis
    using poolInv_move [OF assms(2), of i ph w] callSkill_phase [OF call(5)] by simp
next
  case (leave i agent outs)
  then show ?thesis
    using poolInv_move [OF assms(2), of i "Finishing outs None" "plWorld p"] by simp
next
  case (finish i outs err e t o' w)
  then have "soIndex o' = i"
    by (auto simp: finishSubtask_def Let_def)
  with finish show ?thesis
    using poolInv_end [OF assms(2), of i o' w] by simp
next
  case (cancel e)
  then show ?thesis using assms(2) by (simp add: poolInv_def activeCount_def)
qed

lemma poolInv_run: "(pool_step env workers task specs)\<^sup>*\<^sup>* p p' \<Longrightarrow> poolInv workers specs p \<Longrightarrow> poolInv workers specs p'"
  by (induction rule: rtranclp_induct) (auto intro: poolInv_step)


section \<open>The pool: termination\<close>

fun phaseWeight :: "SubtaskSpec \<Rightarrow> phase \<Rightarrow> nat" where
  "phaseWeight s Idle = length (ssSkills s) + 5"
| "phaseWeight s Begin = length (ssSkills s) + 3"
| "phaseWeight s (Calling a ks os) = length ks + 2"
| "phaseWeight s (Finishing os e) = 1"
| "phaseWeight s Ended = 0"

definition poolMeasure :: "SubtaskSpec list \<Rightarrow> 'c pool \<Rightarrow> nat" where
  "poolMeasure specs p = sum_list (map2 phaseWeight specs (plPhases p)) +
     (if plWaiting p then 0 else 1) + (if owCtx (plWorld p) = None then 1 else 0)"

lemma sum_weight_update:
  assumes "length phs = length specs" "i < length specs"
  shows "sum_list (map2 phaseWeight specs (phs[i := ph])) + phaseWeight (specs ! i) (phs ! i) =
    sum_list (map2 phaseWeight specs phs) + phaseWeight (specs ! i) ph"
  using assms
proof (induction specs phs arbitrary: i rule: list_induct2')
  case (4 s ss p ps)
  then show ?case by (cases i) (auto simp: add.commute add.left_commute)
qed simp_all

lemma beginSubtask_weight:
  "beginSubtask env task i spec t w = (ph, res, w') \<Longrightarrow> phaseWeight spec ph < length (ssSkills spec) + 3"
  by (auto simp: beginSubtask_def split: if_splits sum.splits)

lemma callSkill_weight:
  "callSkill env task spec e a sk sks outs w = (ph, w') \<Longrightarrow> phaseWeight spec ph < length sks + 3"
  by (auto simp: callSkill_def split: if_splits sum.splits prod.splits)

lemma markStatus_ctx [simp]: "owCtx (markStatus env task i st res t w) = owCtx w"
  by (simp add: markStatus_def Let_def)

lemma world_ctx:
  "beginSubtask env task i spec t w = (ph, res, w') \<Longrightarrow> owCtx w' = owCtx w"
  "callSkill env task spec e a sk sks outs w = (ph', w') \<Longrightarrow> owCtx w' = owCtx w"
  "finishSubtask env task i e outs err t w = (o', w') \<Longrightarrow> owCtx w' = owCtx w"
  by (auto simp: beginSubtask_def callSkill_def finishSubtask_def Let_def split: if_splits sum.splits prod.splits)

lemma poolMeasure_step:
  assumes "pool_step env workers task specs p p'" "poolInv workers specs p"
  shows "poolMeasure specs p' < poolMeasure specs p"
proof -
  have len: "length (plPhases p) = length specs" and idle: "i < length specs \<Longrightarrow> plNext p \<le> i \<Longrightarrow> plPhases p ! i = Idle" for i
    using assms(2) by (auto simp: poolInv_def slotOk_def)
  note upd = sum_weight_update [OF len]
  show ?thesis
    using assms(1)
  proof cases
    case check
    then show ?thesis by (simp add: poolMeasure_def)
  next
    case (skip i e)
    then show ?thesis using upd [of i Ended] idle [of i] by (simp add: poolMeasure_def)
  next
    case (launch i)
    then show ?thesis using upd [of i Begin] idle [of i] by (simp add: poolMeasure_def)
  next
    case (start i t ph res w)
    then show ?thesis
      using upd [of i ph] beginSubtask_weight [of env task i "specs ! i"] world_ctx(1) [of env task i "specs ! i"]
      by (fastforce simp: poolMeasure_def)
  next
    case (call i agent sk sks outs e ph w)
    then show ?thesis
      using upd [of i ph] callSkill_weight [of env task "specs ! i"] world_ctx(2) [of env task "specs ! i"]
      by (fastforce simp: poolMeasure_def)
  next
    case (leave i agent outs)
    then show ?thesis using upd [of i "Finishing outs None"] by (simp add: poolMeasure_def)
  next
    case (finish i outs err e t o' w)
    then show ?thesis using upd [of i Ended] world_ctx(3) [of env task i] by (fastforce simp: poolMeasure_def)
  next
    case (cancel e)
    then show ?thesis by (simp add: poolMeasure_def)
  qed
qed


lemma run_bound:
  "((pool_step env workers task specs) ^^ k) p p' \<Longrightarrow> poolInv workers specs p \<Longrightarrow> k + poolMeasure specs p' \<le> poolMeasure specs p"
proof (induction k arbitrary: p')
  case (Suc k)
  then obtain q where q: "((pool_step env workers task specs) ^^ k) p q" "pool_step env workers task specs q p'"
    by auto
  then have "poolInv workers specs q"
    using Suc.prems(2) by (blast intro: poolInv_run relpowp_imp_rtranclp)
  then have "poolMeasure specs p' < poolMeasure specs q"
    using q(2) by (rule poolMeasure_step [rotated])
  then show ?case using Suc.IH [OF q(1) Suc.prems(2)] by simp
qed simp

lemma active_step:
  assumes "i < length specs" "active (plPhases p ! i)"
  shows "\<exists>p'. pool_step env workers task specs p p' \<and> owCtx (plWorld p') = owCtx (plWorld p)"
proof -
  have sub: "subErrOf (plWorld p) (owCtx (plWorld p))"
    by (simp add: subErrOf_def split: option.splits)
  consider "plPhases p ! i = Begin" | a sk sks outs where "plPhases p ! i = Calling a (sk # sks) outs"
    | a outs where "plPhases p ! i = Calling a [] outs" | outs err where "plPhases p ! i = Finishing outs err"
    using assms(2) by (cases "plPhases p ! i") (auto simp: neq_Nil_conv intro: list.exhaust)
  then show ?thesis
  proof cases
    case 1
    obtain ph res w where r: "beginSubtask env task i (specs ! i) 0 (plWorld p) = (ph, res, w)"
      by (cases "beginSubtask env task i (specs ! i) 0 (plWorld p)") auto
    show ?thesis using pool_step.start [OF assms(1) 1 r] world_ctx(1) [OF r] by fastforce
  next
    case (2 a sk sks outs)
    obtain ph w where r: "callSkill env task (specs ! i) (owCtx (plWorld p)) a sk sks outs (plWorld p) = (ph, w)"
      by fastforce
    show ?thesis using pool_step.call [OF assms(1) 2 sub r] world_ctx(2) [OF r] by fastforce
  next
    case (3 a outs)
    show ?thesis using pool_step.leave [OF assms(1) 3] by fastforce
  next
    case (4 outs err)
    obtain o' w where r: "finishSubtask env task i (owCtx (plWorld p)) outs err 0 (plWorld p) = (o', w)"
      by fastforce
    show ?thesis using pool_step.finish [OF assms(1) 4 sub r] world_ctx(3) [OF r] by fastforce
  qed
qed

lemma loop_step:
  assumes "plNext p < length specs" "activeCount p < workers"
  shows "\<exists>p'. pool_step env workers task specs p p' \<and> owCtx (plWorld p') = owCtx (plWorld p)"
proof (cases "plWaiting p")
  case True
  then show ?thesis using pool_step.launch [OF refl assms(1) True assms(2)] by fastforce
next
  case False
  then show ?thesis
  proof (cases "owCtx (plWorld p)")
    case None
    then show ?thesis using pool_step.check [OF assms(1) False None] by fastforce
  next
    case (Some e)
    then show ?thesis using pool_step.skip [OF refl assms(1) False Some] by fastforce
  qed
qed

lemma pool_progress:
  assumes "poolInv workers specs p" "1 \<le> workers" "\<not> poolDone specs p"
  shows "\<exists>p'. pool_step env workers task specs p p' \<and> owCtx (plWorld p') = owCtx (plWorld p)"
proof (cases "\<exists>i<length specs. active (plPhases p ! i)")
  case True
  then show ?thesis using active_step by blast
next
  case False
  have len: "length (plPhases p) = length specs" using assms(1) by (simp add: poolInv_def)
  have "activeCount p = 0"
    using False len by (auto simp: activeCount_def filter_empty_conv in_set_conv_nth)
  moreover have "plNext p < length specs"
  proof (rule ccontr)
    assume "\<not> plNext p < length specs"
    then have "plNext p = length specs" "\<forall>i<length specs. plPhases p ! i \<noteq> Idle"
      using assms(1) by (auto simp: poolInv_def slotOk_def)
    then show False
      using False len assms(3) by (auto simp: poolDone_def list_all_length active_def)
  qed
  ultimately show ?thesis using assms(2) by (intro loop_step) simp_all
qed

lemma pool_completes:
  assumes "poolInv workers specs p" "1 \<le> workers"
  shows "\<exists>p'. (pool_step env workers task specs)\<^sup>*\<^sup>* p p' \<and> poolDone specs p' \<and> owCtx (plWorld p') = owCtx (plWorld p)"
  using assms(1)
proof (induction "poolMeasure specs p" arbitrary: p rule: less_induct)
  case less
  show ?case
  proof (cases "poolDone specs p")
    case False
    obtain q where q: "pool_step env workers task specs p q" "owCtx (plWorld q) = owCtx (plWorld p)"
      using pool_progress [OF less.prems assms(2) False] by blast
    show ?thesis
      using less.hyps [OF poolMeasure_step [OF q(1) less.prems] poolInv_step [OF q(1) less.prems]] q
      by (metis converse_rtranclp_into_rtranclp)
  qed blast
qed

text \<open>C8: with at least one worker (\<open>New\<close> sees to that) the pool always comes to an end: whatever the interleaving, a run has at most
  five steps per subtask, one per skill, and two more; and wherever it stands, it can go on, without any help from a
  cancellation, to the state where \<open>wg.Wait\<close> returns. So the semaphore never deadlocks the loop.\<close>

theorem pool_terminates:
  assumes "1 \<le> workers" "((pool_step env workers task specs) ^^ k) (poolStart specs w) p"
  shows "k \<le> sum_list (map (\<lambda>s. length (ssSkills s) + 5) specs) + 2 \<and>
    (\<exists>p'. (pool_step env workers task specs)\<^sup>*\<^sup>* p p' \<and> poolDone specs p' \<and> owCtx (plWorld p') = owCtx (plWorld p))"
proof -
  have "map2 phaseWeight specs (replicate (length specs) Idle) = map (\<lambda>s. length (ssSkills s) + 5) specs"
    by (rule nth_equalityI) simp_all
  then have "poolMeasure specs (poolStart specs w) \<le> sum_list (map (\<lambda>s. length (ssSkills s) + 5) specs) + 2"
    by (simp add: poolMeasure_def poolStart_def)
  then show ?thesis
    using run_bound [OF assms(2) poolInv_start] pool_completes [OF poolInv_run [OF relpowp_imp_rtranclp [OF assms(2)] poolInv_start] assms(1)]
    by auto
qed


section \<open>The recorded task follows the run\<close>

lemma markStatus_effect:
  assumes "taTenantID task \<noteq> ''''" "is_ok (GetTask (taTenantID task) (taID task) (owStore w))"
  shows "owSubs (markStatus env task i st res t w) = (owSubs w)[i := (if st = SubtaskStatusSuccess \<or> st = SubtaskStatusFailed
        then (owSubs w ! i) \<lparr>suStatus := st, suResult := marshalBytes env (VString res)\<rparr>
        else (owSubs w ! i) \<lparr>suStatus := st\<rparr>)]"
    and "GetTask (taTenantID task) (taID task) (owStore (markStatus env task i st res t w)) =
      Inr (task \<lparr>taSubtasks := owSubs (markStatus env task i st res t w), taUpdatedAt := t\<rparr>)"
  using assms by (simp_all add: markStatus_def Let_def tasks.update_get tasks.update_result)

text \<open>What the record of a subtask says in each phase. A subtask skipped after a cancellation keeps its status, pending.\<close>

definition subOk :: "'c OrchEnv \<Rightarrow> Subtask \<Rightarrow> phase \<Rightarrow> subtaskOutcome option \<Rightarrow> Subtask \<Rightarrow> bool" where
  "subOk env s0 ph r s \<longleftrightarrow>
     suID s = suID s0 \<and> suAgentID s = suAgentID s0 \<and> suDescription s = suDescription s0 \<and>
     (case ph of
        Ended \<Rightarrow> (case r of None \<Rightarrow> False | Some o' \<Rightarrow>
          (suStatus s = SubtaskStatusPending \<and> soResult o' = '''' \<and> soErr o' \<in> Some ` range CtxErr) \<or>
          suStatus s = (if soErr o' = None then SubtaskStatusSuccess else SubtaskStatusFailed) \<and>
          suResult s = marshalBytes env (VString (soResult o')))
      | Idle \<Rightarrow> suStatus s = SubtaskStatusPending
      | Begin \<Rightarrow> suStatus s = SubtaskStatusPending
      | _ \<Rightarrow> suStatus s = SubtaskStatusRunning)"

definition recordInv :: "'c OrchEnv \<Rightarrow> Task \<Rightarrow> SubtaskSpec list \<Rightarrow> 'c pool \<Rightarrow> bool" where
  "recordInv env task specs p \<longleftrightarrow>
     length (owSubs (plWorld p)) = length specs \<and>
     (\<exists>u. GetTask (taTenantID task) (taID task) (owStore (plWorld p)) =
        Inr (task \<lparr>taSubtasks := owSubs (plWorld p), taUpdatedAt := u\<rparr>)) \<and>
     (\<forall>i<length specs. subOk env (taSubtasks task ! i) (plPhases p ! i) (plResults p ! i) (owSubs (plWorld p) ! i))"

lemma subOk_start:
  "subOk env s0 Begin r s \<Longrightarrow> beginSubtask env task i spec t w = (ph, res, w') \<Longrightarrow> taTenantID task \<noteq> '''' \<Longrightarrow>
   is_ok (GetTask (taTenantID task) (taID task) (owStore w)) \<Longrightarrow> owSubs w ! i = s \<Longrightarrow> i < length (owSubs w) \<Longrightarrow>
   owSubs w' = (owSubs w)[i := owSubs w' ! i] \<and> subOk env s0 ph (case res of None \<Rightarrow> r | Some o' \<Rightarrow> Some o') (owSubs w' ! i) \<and>
   GetTask (taTenantID task) (taID task) (owStore w') = Inr (task \<lparr>taSubtasks := owSubs w', taUpdatedAt := t\<rparr>)"
  by (auto simp: beginSubtask_def markStatus_effect subOk_def split: if_splits sum.splits)

lemma subOk_finish:
  "subOk env s0 (Finishing outs err) r s \<Longrightarrow> finishSubtask env task i e outs err t w = (o', w') \<Longrightarrow> taTenantID task \<noteq> '''' \<Longrightarrow>
   is_ok (GetTask (taTenantID task) (taID task) (owStore w)) \<Longrightarrow> owSubs w ! i = s \<Longrightarrow> i < length (owSubs w) \<Longrightarrow>
   owSubs w' = (owSubs w)[i := owSubs w' ! i] \<and> subOk env s0 Ended (Some o') (owSubs w' ! i) \<and>
   GetTask (taTenantID task) (taID task) (owStore w') = Inr (task \<lparr>taSubtasks := owSubs w', taUpdatedAt := t\<rparr>)"
  by (auto simp: finishSubtask_def Let_def markStatus_effect subOk_def)

lemma callSkill_record:
  "callSkill env task spec e a sk sks outs w = (ph, w') \<Longrightarrow>
   owSubs w' = owSubs w \<and> owStore w' = owStore w \<and> (\<exists>a' ks outs'. ph = Calling a' ks outs' \<or> (\<exists>err. ph = Finishing outs' err))"
  by (auto simp: callSkill_def split: if_splits sum.splits prod.splits)

lemma recordInv_ok: "recordInv env task specs p \<Longrightarrow> is_ok (GetTask (taTenantID task) (taID task) (owStore (plWorld p)))"
  by (auto simp: recordInv_def)

text \<open>The effect of one slot's step on the record.\<close>

lemma recordInv_slot:
  assumes "recordInv env task specs p" "poolInv workers specs p" "i < length specs"
    and "owSubs w' = (owSubs (plWorld p))[i := owSubs w' ! i]"
    and "subOk env (taSubtasks task ! i) ph r (owSubs w' ! i)"
    and "GetTask (taTenantID task) (taID task) (owStore w') = Inr (task \<lparr>taSubtasks := owSubs w', taUpdatedAt := u\<rparr>)"
    and "plPhases p' = (plPhases p)[i := ph]" "plResults p' = (plResults p)[i := r]" "plWorld p' = w'"
  shows "recordInv env task specs p'"
proof -
  have "length (owSubs w') = length specs"
    by (subst assms(4)) (use assms(1) in \<open>simp add: recordInv_def\<close>)
  moreover have "owSubs w' ! j = owSubs (plWorld p) ! j" if "j \<noteq> i" for j
    by (subst assms(4)) (use that in simp)
  ultimately show ?thesis
    using assms by (auto simp: recordInv_def poolInv_def nth_list_update)
qed

lemma recordInv_step:
  assumes "pool_step env workers task specs p p'" "poolInv workers specs p" "recordInv env task specs p"
    and "taTenantID task \<noteq> ''''"
  shows "recordInv env task specs p'"
proof -
  note ok = recordInv_ok [OF assms(3)]
  have slot: "i < length specs \<Longrightarrow> subOk env (taSubtasks task ! i) (plPhases p ! i) (plResults p ! i) (owSubs (plWorld p) ! i)" for i
    using assms(3) by (simp add: recordInv_def)
  have len: "length (owSubs (plWorld p)) = length specs" "length (plResults p) = length specs"
    using assms(2,3) by (simp_all add: recordInv_def poolInv_def)
  obtain u where get: "GetTask (taTenantID task) (taID task) (owStore (plWorld p)) =
      Inr (task \<lparr>taSubtasks := owSubs (plWorld p), taUpdatedAt := u\<rparr>)"
    using assms(3) by (auto simp: recordInv_def)
  show ?thesis
    using assms(1)
  proof cases
    case check
    then show ?thesis using assms(3) by (simp add: recordInv_def)
  next
    case (skip i e)
    then have "plPhases p ! i = Idle"
      using assms(2) by (auto simp: poolInv_def slotOk_def)
    then show ?thesis
      using skip slot [of i] get len
      by (intro recordInv_slot [OF assms(3,2), of i "plWorld p" Ended]) (auto simp: subOk_def)
  next
    case (launch i)
    then have "plPhases p ! i = Idle"
      using assms(2) by (auto simp: poolInv_def slotOk_def)
    then show ?thesis
      using launch slot [of i] get
      by (intro recordInv_slot [OF assms(3,2), of i "plWorld p" Begin "plResults p ! i"]) (auto simp: subOk_def)
  next
    case (start i t ph res w)
    then show ?thesis
      using subOk_start [OF _ start(4) assms(4) ok refl] slot [of i] len
      by (intro recordInv_slot [OF assms(3,2), of i w ph "case res of None \<Rightarrow> plResults p ! i | Some o' \<Rightarrow> Some o'"])
         (auto split: option.splits)
  next
    case (call i agent sk sks outs e ph w)
    then show ?thesis
      using callSkill_record [OF call(5)] slot [of i] get
      by (intro recordInv_slot [OF assms(3,2), of i w ph "plResults p ! i"]) (auto simp: subOk_def)
  next
    case (leave i agent outs)
    then show ?thesis
      using slot [of i] get
      by (intro recordInv_slot [OF assms(3,2), of i "plWorld p" "Finishing outs None" "plResults p ! i"]) (auto simp: subOk_def)
  next
    case (finish i outs err e t o' w)
    then show ?thesis
      using subOk_finish [OF _ finish(5) assms(4) ok refl] slot [of i] len
      by (intro recordInv_slot [OF assms(3,2), of i w Ended "Some o'"]) auto
  next
    case (cancel e)
    then show ?thesis using assms(3) by (simp add: recordInv_def)
  qed
qed

lemma recordInv_run:
  assumes "(pool_step env workers task specs)\<^sup>*\<^sup>* p p'" "poolInv workers specs p" "recordInv env task specs p"
    and "taTenantID task \<noteq> ''''"
  shows "recordInv env task specs p'"
  using assms(1)
proof (induction rule: rtranclp_induct)
  case base
  show ?case by (rule assms(3))
next
  case (step q r)
  then show ?case using recordInv_step [OF step(2) poolInv_run [OF step(1) assms(2)] step(3) assms(4)] by simp
qed


section \<open>Distribute as a whole\<close>

text \<open>What \<open>finalize\<close> may see of the context: the error it already has, or one that comes up and then stays.\<close>

definition looksOk :: "string option \<Rightarrow> (nat \<Rightarrow> string option) \<Rightarrow> bool" where
  "looksOk ctx looks \<longleftrightarrow> (case ctx of
      Some e \<Rightarrow> looks = (\<lambda>_. Some e)
    | None \<Rightarrow> (\<forall>i j e. i \<le> j \<longrightarrow> looks i = Some e \<longrightarrow> looks j = Some e))"

definition startWorld :: "Memory \<Rightarrow> 'c \<Rightarrow> Task \<Rightarrow> string option \<Rightarrow> 'c world" where
  "startWorld m c task ctx = \<lparr>owStore = m, owClient = c, owSubs = taSubtasks task, owCtx = ctx\<rparr>"

text \<open>
  A call of \<open>Distribute\<close> for the text \<open>taskText\<close>, with the id \<open>tid\<close> from \<open>newID\<close>, in the store \<open>m\<close> and with a context in
  the state \<open>ctx\<close>: the result, the looks of \<open>finalize\<close> at the context, and the store and the client after it.
\<close>

inductive Distribute :: "'c OrchEnv \<Rightarrow> nat \<Rightarrow> (string \<Rightarrow> string) \<Rightarrow> range_order \<Rightarrow> string \<Rightarrow> Request \<Rightarrow> string \<Rightarrow> string option
    \<Rightarrow> Memory \<Rightarrow> 'c \<Rightarrow> (store_error, Task) result \<Rightarrow> (nat \<Rightarrow> string option) \<Rightarrow> Memory \<Rightarrow> 'c \<Rightarrow> bool"
  for env :: "'c OrchEnv" and workers :: nat and ulower :: "string \<Rightarrow> string" and rng :: range_order and tid :: string and req :: Request
    and taskText :: string and ctx :: "string option" and m :: Memory and c :: 'c where
  rejected: "prepareTask ulower rng tid t0 t1 (tenantFromCtx req) taskText m = (Inl e, m') \<Longrightarrow>
     Distribute env workers ulower rng tid req taskText ctx m c (Inl e) looks m' c"
| finished: "prepareTask ulower rng tid t0 t1 (tenantFromCtx req) taskText m = (Inr (specs, task), m1) \<Longrightarrow>
     (pool_step env workers task specs)\<^sup>*\<^sup>* (poolStart specs (startWorld m1 c task ctx)) p \<Longrightarrow> poolDone specs p \<Longrightarrow>
     looksOk (owCtx (plWorld p)) looks \<Longrightarrow>
     finalize env looks t (task \<lparr>taSubtasks := owSubs (plWorld p)\<rparr>) (map the (plResults p)) (owStore (plWorld p)) = (task', m') \<Longrightarrow>
     Distribute env workers ulower rng tid req taskText ctx m c (Inr task') looks m' (owClient (plWorld p))"

lemma tenantFromCtx_nonempty: "tenantFromCtx req \<noteq> ''''"
  by (simp add: tenantFromCtx_def)

lemma newTask_simps [simp]:
  "taID (newTask tid tn txt specs t0 t1) = tid" "taTenantID (newTask tid tn txt specs t0 t1) = tn"
  "taInput (newTask tid tn txt specs t0 t1) = txt" "length (taSubtasks (newTask tid tn txt specs t0 t1)) = length specs"
  by (simp_all add: newTask_def)

lemma newTask_subtask:
  "i < length specs \<Longrightarrow> taSubtasks (newTask tid tn txt specs t0 t1) ! i =
     \<lparr>suID = tid @ ''-'' @ show_nat i, suAgentID = ssAgentID (specs ! i), suDescription = ssDescription (specs ! i),
      suStatus = SubtaskStatusPending, suResult = ''''\<rparr>"
  by (simp add: newTask_def nth_enumerate_eq)

lemma prepareTask_result:
  "fst (prepareTask ulower rng tid t0 t1 tn txt m) =
     (let specs = Decompose ulower txt (ListAgents rng tn m) in
      if tid = '''' then Inl ErrInvalid else if is_ok (GetTask tn tid m) then Inl ErrConflict
      else Inr (specs, (newTask tid tn txt specs t0 t1) \<lparr>taStatus := TaskStatusRunning\<rparr>))"
  using tasks.create_result [of "newTask tid tn txt (Decompose ulower txt (ListAgents rng tn m)) t0 t1" m]
    tasks.create_get [of tn tid "newTask tid tn txt (Decompose ulower txt (ListAgents rng tn m)) t0 t1" m]
    tasks.update_result [of "(newTask tid tn txt (Decompose ulower txt (ListAgents rng tn m)) t0 t1) \<lparr>taStatus := TaskStatusRunning\<rparr>"
       "snd (CreateTask (newTask tid tn txt (Decompose ulower txt (ListAgents rng tn m)) t0 t1) m)"]
  by (auto simp: prepareTask_def Let_def split: prod.splits sum.splits if_splits)


lemma prepareTask_ok:
  assumes "prepareTask ulower rng tid t0 t1 tn inp m = (Inr (specs, task), m1)"
  shows "specs = Decompose ulower inp (ListAgents rng tn m)"
    and "task = (newTask tid tn inp specs t0 t1) \<lparr>taStatus := TaskStatusRunning\<rparr>"
    and "GetTask tn tid m1 = Inr task"
proof -
  show sp: "specs = Decompose ulower inp (ListAgents rng tn m)"
    and ta: "task = (newTask tid tn inp specs t0 t1) \<lparr>taStatus := TaskStatusRunning\<rparr>"
    using prepareTask_result [of ulower rng tid t0 t1 tn inp m] assms by (auto simp: Let_def split: if_splits)
  have "GetTask tn tid (snd (UpdateTask task (snd (CreateTask (newTask tid tn inp specs t0 t1) m)))) = Inr task"
    using prepareTask_result [of ulower rng tid t0 t1 tn inp m] assms
    by (auto simp: Let_def ta tasks.update_get tasks.update_result tasks.create_get tasks.create_result split: if_splits)
  moreover have "m1 = snd (UpdateTask task (snd (CreateTask (newTask tid tn inp specs t0 t1) m)))"
    using assms tasks.create_result [of "newTask tid tn inp specs t0 t1" m]
    by (auto simp: prepareTask_def Let_def ta simp flip: sp split: prod.splits sum.splits if_splits)
  ultimately show "GetTask tn tid m1 = Inr task" by simp
qed

lemma recordInv_start:
  assumes "prepareTask ulower rng tid t0 t1 tn inp m = (Inr (specs, task), m1)"
  shows "recordInv env task specs (poolStart specs (startWorld m1 c task ctx))"
proof -
  have "task \<lparr>taSubtasks := taSubtasks task, taUpdatedAt := taUpdatedAt task\<rparr> = task" by simp
  then show ?thesis
    using prepareTask_ok [OF assms]
    by (auto simp: recordInv_def poolStart_def startWorld_def subOk_def newTask_subtask intro!: exI [of _ "taUpdatedAt task"])
qed

lemma poolDone_results:
  assumes "poolInv workers specs p" "poolDone specs p" "i < length specs"
  shows "plResults p ! i = Some (the (plResults p ! i))" "soIndex (the (plResults p ! i)) = i" "plPhases p ! i = Ended"
  using assms by (auto simp: poolInv_def poolDone_def slotOk_def list_all_length split: option.splits)

lemma aggregateLoop_failed: "fst (aggregateLoop i rs) = length (filter (\<lambda>r. soErr r \<noteq> None) rs)"
  by (induction rs arbitrary: i) (simp_all add: Let_def case_prod_beta)

lemma finalTask_keeps [simp]:
  "taID (finalTask env looks t task rs) = taID task" "taTenantID (finalTask env looks t task rs) = taTenantID task"
  "taInput (finalTask env looks t task rs) = taInput task" "taSubtasks (finalTask env looks t task rs) = taSubtasks task"
  by (simp_all add: finalTask_def Let_def case_prod_beta)

lemma finalize_ok:
  assumes "is_ok (GetTask (taTenantID task) (taID task) m)"
  shows "fst (finalize env looks t task rs m) = finalTask env looks t task rs"
    and "GetTask (taTenantID task) (taID task) (snd (finalize env looks t task rs m)) = Inr (finalTask env looks t task rs)"
  using assms tasks.update_result [of "finalTask env looks t task rs" m]
    tasks.update_get [of "taTenantID task" "taID task" "finalTask env looks t task rs" m]
  by (auto simp: finalize_def Let_def split: prod.splits sum.splits)

lemma finalTask_ordered:
  assumes "map soIndex rs = [0..<length rs]"
  defines "failed \<equiv> length (filter (\<lambda>r. soErr r \<noteq> None) rs)"
  shows "taStatus (finalTask env looks t task rs) = (if failed = 0 \<and> looks 0 = None then TaskStatusSuccess else TaskStatusFailed)"
    and "taResult (finalTask env looks t task rs) = marshalBytes env (VMap [(''subtasks_completed'', VInt (int (length rs) - int failed)),
           (''subtasks_failed'', VInt (int failed)), (''results'', VList (map VString (finalLines looks (snd (aggregateLoop 0 rs)))))])"
proof -
  have "sort_key soIndex rs = rs"
    using assms(1) by (intro sort_key_id_if_sorted) simp
  then show "taStatus (finalTask env looks t task rs) = (if failed = 0 \<and> looks 0 = None then TaskStatusSuccess else TaskStatusFailed)"
    and "taResult (finalTask env looks t task rs) = marshalBytes env (VMap [(''subtasks_completed'', VInt (int (length rs) - int failed)),
           (''subtasks_failed'', VInt (int failed)), (''results'', VList (map VString (finalLines looks (snd (aggregateLoop 0 rs)))))])"
    using aggregateLoop_failed [of 0 rs] by (simp_all add: finalTask_def Let_def case_prod_beta failed_def)
qed


lemma done_subtask:
  assumes "poolInv workers specs p" "recordInv env task specs p" "poolDone specs p" "i < length specs"
  defines "s \<equiv> owSubs (plWorld p) ! i" and "o' \<equiv> the (plResults p ! i)"
  shows "suAgentID s = suAgentID (taSubtasks task ! i)" "suStatus s = SubtaskStatusSuccess \<longleftrightarrow> soErr o' = None"
    and "suStatus s \<in> {SubtaskStatusSuccess, SubtaskStatusFailed, SubtaskStatusPending}"
proof -
  have "subOk env (taSubtasks task ! i) Ended (Some o') s"
    using assms(2,4) poolDone_results [OF assms(1,3,4)] by (auto simp: recordInv_def s_def o'_def)
  then show "suAgentID s = suAgentID (taSubtasks task ! i)" "suStatus s = SubtaskStatusSuccess \<longleftrightarrow> soErr o' = None"
    "suStatus s \<in> {SubtaskStatusSuccess, SubtaskStatusFailed, SubtaskStatusPending}"
    by (auto simp: subOk_def split: if_splits)
qed

lemma count_id: "length (filter P xs) = length (filter id (map P xs))"
  by (induction xs) simp_all

lemma count_cong: "map P xs = map Q ys \<Longrightarrow> length (filter P xs) = length (filter Q ys)"
  by (subst count_id, subst count_id [of Q]) simp

lemma done_failed_count:
  assumes "poolInv workers specs p" "recordInv env task specs p" "poolDone specs p"
  shows "map soIndex (map the (plResults p)) = [0..<length (map the (plResults p))]"
    and "length (filter (\<lambda>r. soErr r \<noteq> None) (map the (plResults p))) =
      length (filter (\<lambda>s. suStatus s \<noteq> SubtaskStatusSuccess) (owSubs (plWorld p)))"
proof -
  have len: "length (plResults p) = length specs" "length (owSubs (plWorld p)) = length specs"
    using assms by (simp_all add: poolInv_def recordInv_def)
  show "map soIndex (map the (plResults p)) = [0..<length (map the (plResults p))]"
    using poolDone_results [OF assms(1,3)] len by (intro nth_equalityI) simp_all
  have eq: "map (\<lambda>r. soErr r \<noteq> None) (map the (plResults p)) = map (\<lambda>s. suStatus s \<noteq> SubtaskStatusSuccess) (owSubs (plWorld p))"
    using done_subtask(2) [OF assms] len by (intro nth_equalityI) (simp_all only: length_map nth_map not_False_eq_True)
  show "length (filter (\<lambda>r. soErr r \<noteq> None) (map the (plResults p))) =
      length (filter (\<lambda>s. suStatus s \<noteq> SubtaskStatusSuccess) (owSubs (plWorld p)))"
    by (rule count_cong [OF eq])
qed

text \<open>The end of a run of \<open>Distribute\<close>.\<close>

lemma finished_state:
  assumes "prepareTask ulower rng tid t0 t1 (tenantFromCtx req) inp m = (Inr (specs, task0), m1)"
    and "(pool_step env workers task0 specs)\<^sup>*\<^sup>* (poolStart specs (startWorld m1 c task0 ctx)) p" "poolDone specs p"
    and "finalize env looks t (task0 \<lparr>taSubtasks := owSubs (plWorld p)\<rparr>) (map the (plResults p)) (owStore (plWorld p)) = (task, m')"
  shows "poolInv workers specs p" "recordInv env task0 specs p"
    and "task = finalTask env looks t (task0 \<lparr>taSubtasks := owSubs (plWorld p)\<rparr>) (map the (plResults p))"
    and "GetTask (tenantFromCtx req) tid m' = Inr task"
    and "map suAgentID (taSubtasks task) = map ssAgentID specs"
proof -
  note prep = prepareTask_ok [OF assms(1)]
  have tn: "taTenantID task0 = tenantFromCtx req" "taID task0 = tid" using prep(2) by simp_all
  show pI: "poolInv workers specs p" by (rule poolInv_run [OF assms(2) poolInv_start])
  show rI: "recordInv env task0 specs p"
    by (rule recordInv_run [OF assms(2) poolInv_start recordInv_start [OF assms(1)]]) (simp add: tn tenantFromCtx_nonempty)
  have "is_ok (GetTask (taTenantID task0) (taID task0) (owStore (plWorld p)))"
    by (rule recordInv_ok [OF rI])
  then show fin: "task = finalTask env looks t (task0 \<lparr>taSubtasks := owSubs (plWorld p)\<rparr>) (map the (plResults p))"
    and "GetTask (tenantFromCtx req) tid m' = Inr task"
    using finalize_ok [of "task0 \<lparr>taSubtasks := owSubs (plWorld p)\<rparr>" "owStore (plWorld p)" env looks t "map the (plResults p)"] assms(4) tn
    by simp_all
  have "length (owSubs (plWorld p)) = length specs" using rI by (simp add: recordInv_def)
  then show "map suAgentID (taSubtasks task) = map ssAgentID specs"
    using done_subtask(1) [OF pI rI assms(3)] prep(2) by (intro nth_equalityI) (simp_all add: fin newTask_subtask)
qed

text \<open>C7: the task that a finished \<open>Distribute\<close> returns is the one the store holds. It has one subtask per spec of the
  decomposition, each in a final state or, when the context was cancelled before it started, still pending; the task is a success
  exactly when every subtask is and \<open>finalize\<close> sees no error of the context, and otherwise failed; and the result records
  the number of successful subtasks and of the others.\<close>

theorem Distribute_correct:
  assumes "Distribute env workers ulower rng tid req inp ctx m c (Inr task) looks m' c'"
  shows "GetTask (tenantFromCtx req) tid m' = Inr task
    \<and> map suAgentID (taSubtasks task) = map ssAgentID (Decompose ulower inp (ListAgents rng (tenantFromCtx req) m))
    \<and> list_all (\<lambda>s. suStatus s \<in> {SubtaskStatusSuccess, SubtaskStatusFailed, SubtaskStatusPending}) (taSubtasks task)
    \<and> taStatus task = (if list_all (\<lambda>s. suStatus s = SubtaskStatusSuccess) (taSubtasks task) \<and> looks 0 = None
                       then TaskStatusSuccess else TaskStatusFailed)
    \<and> (\<exists>lines. taResult task = marshalBytes env (VMap
         [(''subtasks_completed'', VInt (int (length (filter (\<lambda>s. suStatus s = SubtaskStatusSuccess) (taSubtasks task))))),
          (''subtasks_failed'', VInt (int (length (filter (\<lambda>s. suStatus s \<noteq> SubtaskStatusSuccess) (taSubtasks task))))),
          (''results'', VList (map VString lines))]))"
  using assms
proof cases
  case (finished t0 t1 specs task0 m1 p t)
  define task2 where "task2 = task0 \<lparr>taSubtasks := owSubs (plWorld p)\<rparr>"
  define rs where "rs = map the (plResults p)"
  note prep = prepareTask_ok [OF finished(2)]
  note fin = finished_state [OF finished(2,3,4,6), folded task2_def rs_def]
  note pI = fin(1) and rI = fin(2) and agents = fin(5)
  have subs: "taSubtasks task = owSubs (plWorld p)" by (simp add: fin(3) task2_def)
  have len: "length (owSubs (plWorld p)) = length specs" "length rs = length specs"
    using pI rI by (simp_all add: poolInv_def recordInv_def rs_def)
  note cnt = done_failed_count [OF pI rI finished(4), folded rs_def]
  have states: "list_all (\<lambda>s. suStatus s \<in> {SubtaskStatusSuccess, SubtaskStatusFailed, SubtaskStatusPending}) (taSubtasks task)"
    using done_subtask(3) [OF pI rI finished(4)] len by (simp add: subs list_all_length)
  have zero: "length (filter (\<lambda>s. suStatus s \<noteq> SubtaskStatusSuccess) (owSubs (plWorld p))) = 0
      \<longleftrightarrow> list_all (\<lambda>s. suStatus s = SubtaskStatusSuccess) (taSubtasks task)"
    by (simp add: subs list_all_iff filter_empty_conv)
  have compl: "int (length rs) - int (length (filter (\<lambda>s. suStatus s \<noteq> SubtaskStatusSuccess) (owSubs (plWorld p)))) =
      int (length (filter (\<lambda>s. suStatus s = SubtaskStatusSuccess) (taSubtasks task)))"
    using sum_length_filter_compl [of "\<lambda>s. suStatus s = SubtaskStatusSuccess" "owSubs (plWorld p)"] len by (simp add: subs)
  show ?thesis
    using fin(4) agents states finalTask_ordered(1) [OF cnt(1), of env looks t task2]
      finalTask_ordered(2) [OF cnt(1), of env looks t task2]
    unfolding cnt(2) zero compl fin(3) [symmetric] prep(1)
    by (intro conjI exI [of _ "finalLines looks (snd (aggregateLoop 0 rs))"]) (simp_all only: subs)
qed

section \<open>Isolation and totality of Distribute\<close>

text \<open>Only the task table changes, and in it only the entry of the task.\<close>

definition onlyTask :: "string \<Rightarrow> string \<Rightarrow> Memory \<Rightarrow> Memory \<Rightarrow> bool" where
  "onlyTask tn tid m m' \<longleftrightarrow> m' \<lparr>mTasks := mTasks m\<rparr> = m \<and> (\<forall>t i. (t, i) \<noteq> (tn, tid) \<longrightarrow> GetTask t i m' = GetTask t i m)"

lemma onlyTask_refl [simp]: "onlyTask tn tid m m"
  by (simp add: onlyTask_def)

lemma onlyTask_trans: "onlyTask tn tid m m' \<Longrightarrow> onlyTask tn tid m' m'' \<Longrightarrow> onlyTask tn tid m m''"
proof -
  assume a: "onlyTask tn tid m m'" "onlyTask tn tid m' m''"
  have "m'' \<lparr>mTasks := mTasks m\<rparr> = (m'' \<lparr>mTasks := mTasks m'\<rparr>) \<lparr>mTasks := mTasks m\<rparr>" by simp
  also have "\<dots> = m" using a by (simp add: onlyTask_def)
  finally show ?thesis using a by (auto simp: onlyTask_def)
qed

lemma onlyTask_write:
  "taTenantID r = tn \<Longrightarrow> taID r = tid \<Longrightarrow> onlyTask tn tid m (snd (UpdateTask r m))"
  "taTenantID r = tn \<Longrightarrow> taID r = tid \<Longrightarrow> onlyTask tn tid m (snd (CreateTask r m))"
  by (auto simp: onlyTask_def tasks.update_get tasks.create_get) (simp_all add: UpdateTask_def CreateTask_def case_prod_beta)

lemma markStatus_only: "onlyTask (taTenantID task) (taID task) (owStore w) (owStore (markStatus env task i st res t w))"
  by (simp add: markStatus_def Let_def onlyTask_write)

lemma pool_step_only:
  "pool_step env workers task specs p p' \<Longrightarrow> onlyTask (taTenantID task) (taID task) (owStore (plWorld p)) (owStore (plWorld p'))"
  by (induction rule: pool_step.induct)
     (auto simp: beginSubtask_def finishSubtask_def Let_def markStatus_only dest: callSkill_record split: if_splits sum.splits)

lemma pool_only:
  "(pool_step env workers task specs)\<^sup>*\<^sup>* p p' \<Longrightarrow> onlyTask (taTenantID task) (taID task) (owStore (plWorld p)) (owStore (plWorld p'))"
  by (induction rule: rtranclp_induct) (auto intro: onlyTask_trans pool_step_only)

lemma prepareTask_only: "onlyTask tn tid m (snd (prepareTask ulower rng tid t0 t1 tn inp m))"
proof -
  define nt where "nt = newTask tid tn inp (Decompose ulower inp (ListAgents rng tn m)) t0 t1"
  have 1: "onlyTask tn tid m (snd (CreateTask nt m))"
    by (rule onlyTask_write) (simp_all add: nt_def)
  have "onlyTask tn tid (snd (CreateTask nt m)) (snd (UpdateTask (nt \<lparr>taStatus := TaskStatusRunning\<rparr>) (snd (CreateTask nt m))))"
    by (rule onlyTask_write) (simp_all add: nt_def)
  then show ?thesis
    using onlyTask_trans [OF 1] 1 tasks.create_result [of nt m]
    by (auto simp: prepareTask_def Let_def simp flip: nt_def split: prod.splits sum.splits if_splits)
qed

lemma finalize_only:
  "onlyTask (taTenantID task) (taID task) m (snd (finalize env looks t task rs m))"
  using onlyTask_write(1) [of "finalTask env looks t task rs" "taTenantID task" "taID task" m]
  by (auto simp: finalize_def Let_def split: prod.splits sum.splits)

text \<open>C25: distributing a task stays within its tenant: each subtask that has an agent has an enabled agent of the tenant of the
  request with a matching skill, whatever other tenants' agents there are; and in the store nothing changes but the entry
  of the new task, on success and on failure.\<close>

theorem Distribute_isolated:
  assumes "Distribute env workers ulower rng tid req inp ctx m c res looks m' c'"
    and "go_range_order rng" "tableOk agTenantID agID (mAgents m)"
  shows "(\<forall>task s. res = Inr task \<and> s \<in> set (taSubtasks task) \<and> suAgentID s \<noteq> '''' \<longrightarrow>
      (\<exists>a. GetAgent (tenantFromCtx req) (suAgentID s) m = Inr a \<and> agTenantID a = tenantFromCtx req \<and> agEnabled a
         \<and> matchedSkills ulower (ToLower ulower inp) a \<noteq> []))
    \<and> m' \<lparr>mTasks := mTasks m\<rparr> = m
    \<and> (\<forall>t i. (t, i) \<noteq> (tenantFromCtx req, tid) \<longrightarrow> GetTask t i m' = GetTask t i m)"
  using assms(1)
proof cases
  case (rejected t0 t1 e)
  then show ?thesis
    using prepareTask_only [of "tenantFromCtx req" tid m ulower rng t0 t1 inp] by (auto simp: onlyTask_def)
next
  case (finished t0 t1 specs task0 m1 p t task')
  note prep = prepareTask_ok [OF finished(3)]
  have own: "\<exists>a. GetAgent (tenantFromCtx req) (suAgentID s) m = Inr a \<and> agTenantID a = tenantFromCtx req \<and> agEnabled a
      \<and> matchedSkills ulower (ToLower ulower inp) a \<noteq> []" if s: "s \<in> set (taSubtasks task')" "suAgentID s \<noteq> ''''" for s
  proof -
    have "suAgentID s \<in> set (map ssAgentID specs)"
      using s(1) by (simp flip: finished_state(5) [OF finished(3,4,5,7)])
    then obtain sp where sp: "sp \<in> set (Decompose ulower inp (ListAgents rng (tenantFromCtx req) m))" "suAgentID s = ssAgentID sp"
      using prep(1) by auto
    with s(2) have "ssAgentID sp \<noteq> ''''" by simp
    from Decompose_assigned [OF sp(1) this] obtain a where a: "a \<in> set (ListAgents rng (tenantFromCtx req) m)" "agEnabled a"
        "ssAgentID sp = agID a" "matchedSkills ulower (ToLower ulower inp) a \<noteq> []" by auto
    then show ?thesis
      using agents_list.list_own [OF assms(2,3), of a "tenantFromCtx req"] sp(2) by auto
  qed
  have key: "taTenantID task0 = tenantFromCtx req" "taID task0 = tid" using prep(2) by simp_all
  have "onlyTask (tenantFromCtx req) tid m m1"
    using prepareTask_only [of "tenantFromCtx req" tid m ulower rng t0 t1 inp] finished(3) by simp
  moreover have "onlyTask (tenantFromCtx req) tid m1 (owStore (plWorld p))"
    using pool_only [OF finished(4)] by (simp add: key poolStart_def startWorld_def)
  moreover have "onlyTask (tenantFromCtx req) tid (owStore (plWorld p)) m'"
    using finalize_only [of "task0 \<lparr>taSubtasks := owSubs (plWorld p)\<rparr>" "owStore (plWorld p)" env looks t "map the (plResults p)"]
      finished(7) by (simp add: key)
  ultimately have "onlyTask (tenantFromCtx req) tid m m'" by (blast intro: onlyTask_trans)
  then show ?thesis using own finished(1) by (auto simp: onlyTask_def)
qed

lemma Distribute_exists:
  assumes "1 \<le> workers" "tid \<noteq> ''''" "\<not> is_ok (GetTask (tenantFromCtx req) tid m)"
  shows "\<exists>task looks m' c'. Distribute env workers ulower rng tid req inp ctx m c (Inr task) looks m' c' \<and> (ctx = None \<longrightarrow> looks = (\<lambda>_. None))"
proof -
  obtain specs task m1 where prep: "prepareTask ulower rng tid 0 0 (tenantFromCtx req) inp m = (Inr (specs, task), m1)"
    using prepareTask_result [of ulower rng tid 0 0 "tenantFromCtx req" inp m] assms(2,3)
    by (cases "prepareTask ulower rng tid 0 0 (tenantFromCtx req) inp m") (auto simp: Let_def)
  obtain p where p: "(pool_step env workers task specs)\<^sup>*\<^sup>* (poolStart specs (startWorld m1 c task ctx)) p" "poolDone specs p"
      "owCtx (plWorld p) = ctx"
    using pool_completes [OF poolInv_start [of workers specs "startWorld m1 c task ctx"] assms(1), of env task]
    by (auto simp: poolStart_def startWorld_def)
  obtain task' m' where fin: "finalize env (\<lambda>_. ctx) 0 (task \<lparr>taSubtasks := owSubs (plWorld p)\<rparr>) (map the (plResults p)) (owStore (plWorld p)) = (task', m')"
    by fastforce
  have "looksOk (owCtx (plWorld p)) (\<lambda>_. ctx)" by (simp add: looksOk_def p(3) split: option.splits)
  from Distribute.finished [OF prep p(1,2) this fin] show ?thesis by blast
qed



section \<open>A run\<close>

definition demoAgent :: Agent where
  "demoAgent = \<lparr>agID = ''a1'', agTenantID = ''default'', agName = ''ann'', agProfile = '''', agSystemPrompt = ''p'',
     agSkills = [\<lparr>skName = ''news'', skServerID = ''s1'', skTool = ''search''\<rparr>], agEnabled = True, agCreatedAt = 0, agUpdatedAt = 0\<rparr>"

definition demoStore :: Memory where
  "demoStore = snd (CreateAgent demoAgent NewMemoryStore)"

definition demoOrch :: "unit OrchEnv" where
  "demoOrch = \<lparr>oeDecodeTransport = (\<lambda>_. Inr \<lparr>trType = ''http'', trCommand = '''', trArgs = [], trURL = ''''\<rparr>),
     oeCallTool = (\<lambda>_ _ _ c. (Inr (textBlock ''ok''), c)), oeMarshal = (\<lambda>_. Inr ''{}'')\<rparr>"

definition demoReq :: Request where
  "demoReq = \<lparr>rqMethod = ''POST'', rqPath = ''/api/v1/tasks'', rqAuthorization = '''', rqClaims = None\<rparr>"

definition demoTask :: Task where
  "demoTask = newTask ''t1'' ''default'' ''go'' [] 0 0"

lemma demo_facts:
  "tenantFromCtx demoReq = ''default''" "\<not> is_ok (GetTask ''default'' ''t1'' demoStore)"
  "tableOk agTenantID agID (mAgents demoStore)"
  "map ssAgentID (Decompose id ''Read the NEWS'' (ListAgents id ''default'' demoStore)) = [''a1'']"
     apply code_simp
    apply code_simp
   apply (simp add: demoStore_def agents.create_inv NewMemoryStore_def)
  apply code_simp
  done


theorem pool_terminates_witness:
  "\<exists>p'. (pool_step demoOrch 2 demoTask [\<lparr>ssAgentID = ''a'', ssDescription = '''', ssSkills = [], ssScore = 1\<rparr>])\<^sup>*\<^sup>*
       (poolStart [\<lparr>ssAgentID = ''a'', ssDescription = '''', ssSkills = [], ssScore = 1\<rparr>]
          \<lparr>owStore = NewMemoryStore, owClient = (), owSubs = [], owCtx = None\<rparr>) p'
     \<and> poolDone [\<lparr>ssAgentID = ''a'', ssDescription = '''', ssSkills = [], ssScore = 1\<rparr>] p' \<and> owCtx (plWorld p') = None"
  using pool_terminates [of 2 0 demoOrch demoTask "[\<lparr>ssAgentID = ''a'', ssDescription = '''', ssSkills = [], ssScore = 1\<rparr>]"
      "\<lparr>owStore = NewMemoryStore, owClient = (), owSubs = [], owCtx = None\<rparr>"]
  by (simp add: poolStart_def)

theorem Distribute_correct_witness:
  "\<exists>task m' c'. Distribute demoOrch 1 id id ''t1'' demoReq ''Read the NEWS'' None demoStore () (Inr task) (\<lambda>_. None) m' c'
     \<and> GetTask ''default'' ''t1'' m' = Inr task \<and> map suAgentID (taSubtasks task) = [''a1'']"
proof -
  obtain task looks m' c' where d: "Distribute demoOrch 1 id id ''t1'' demoReq ''Read the NEWS'' None demoStore () (Inr task) looks m' c'"
      "looks = (\<lambda>_. None)"
    using Distribute_exists [of 1 "''t1''" demoReq demoStore demoOrch id id "''Read the NEWS''" None "()"] demo_facts(1,2) by auto
  note r = Distribute_correct [OF d(1), unfolded demo_facts]
  show ?thesis
    by (intro exI conjI, rule d(1) [unfolded d(2)], rule r [THEN conjunct1], rule r [THEN conjunct2, THEN conjunct1])
qed

theorem Distribute_isolated_witness:
  "\<exists>task looks m' c'. Distribute demoOrch 1 id id ''t1'' demoReq ''Read the NEWS'' None demoStore () (Inr task) looks m' c'
     \<and> m' \<lparr>mTasks := mTasks demoStore\<rparr> = demoStore"
proof -
  obtain task looks m' c' where d: "Distribute demoOrch 1 id id ''t1'' demoReq ''Read the NEWS'' None demoStore () (Inr task) looks m' c'"
    using Distribute_exists [of 1 "''t1''" demoReq demoStore demoOrch id id "''Read the NEWS''" None "()"] demo_facts(1,2) by auto
  show ?thesis
    by (intro exI conjI, rule d, rule Distribute_isolated [OF d go_range_order_id(1) demo_facts(3), THEN conjunct2, THEN conjunct1])
qed


end
