(* ===== verification/Api_Handlers.thy ===== *)
theory Api_Handlers
  imports Flow_Engine Auth History Ws_Hub Orchestrator
begin

text \<open>
  The HTTP handlers (\<open>internal/api/agents.go\<close>, \<open>mcp_servers.go\<close>, \<open>flows.go\<close>, \<open>tasks.go\<close>, \<open>auth.go\<close>,
  \<open>dashboard.go\<close>, and the helpers of \<open>router.go\<close>).

  \<open>Server\<close> is the state the handlers share: the resource store, the MCP client, the side-effect store of the flow
  engine, the hub, the history and the counters of the metrics. A handler is a function from the request and the
  server to the response and the next server. \<open>ApiEnv\<close> holds what the handlers call outside of the repository: the
  JSON encoder and decoders, the JWT library, bcrypt, the MCP client, the text of errors, and the answer of the
  recovering middleware of chi to a panic. \<open>Input\<close> holds what differs from request to request: the body, the URL
  parameter, the uuid and the clock readings, the sample of the system, and the run of the orchestrator.
\<close>

section \<open>Types\<close>

text \<open>What \<open>writeJSON\<close> is given; \<open>BTools\<close> is the answer of a successful test. A user is encoded without the password hash (\<open>json:"-"\<close>).\<close>

record UserJSON =
  ujID :: string
  ujTenantID :: string
  ujUsername :: string
  ujRole :: string
  ujCreatedAt :: time
  ujUpdatedAt :: time

datatype body =
    BError string
  | BAgent Agent | BAgents "Agent list"
  | BServer McpServer | BServers "McpServer list" | BTools "Tool list"
  | BFlow Flow | BFlows "Flow list" | BRun Run | BRuns "Run list"
  | BTask Task
  | BUser UserJSON | BUsers "UserJSON list"
  | BMap "(string, any) gomap"
  | BDashboard "(string, nat) gomap" "(string, nat) gomap" nat Sample "(string, nat) gomap" "(string, nat) gomap" nat
  | BSamples "Sample list"

definition userJSON :: "User \<Rightarrow> UserJSON" where
  "userJSON u = \<lparr>ujID = usID u, ujTenantID = usTenantID u, ujUsername = usUsername u, ujRole = usRole u,
     ujCreatedAt = usCreatedAt u, ujUpdatedAt = usUpdatedAt u\<rparr>"

record loginReq =
  lrUsername :: string
  lrPassword :: string

record userReq =
  urUsername :: string
  urPassword :: string
  urRole :: string

record 'c ApiEnv =
  apEncode :: "body \<Rightarrow> string"
  apDecodeAgent :: "string \<Rightarrow> Agent option"
  apDecodeServer :: "string \<Rightarrow> McpServer option"
  apDecodeFlow :: "string \<Rightarrow> Flow option"
  apDecodeTask :: "string \<Rightarrow> string option"
  apDecodeLogin :: "string \<Rightarrow> loginReq option"
  apDecodeUser :: "string \<Rightarrow> userReq option"
  apJwt :: Jwt
  apManager :: Manager
  apHash :: "string \<Rightarrow> (string, string) result"
  apCompare :: "string \<Rightarrow> string \<Rightarrow> bool"
  apListTools :: "Transport \<Rightarrow> 'c \<Rightarrow> (string, Tool list) result \<times> 'c"
  apEngine :: "(MemorySideEffectStore, 'c) Env"
  apStoreErr :: "store_error \<Rightarrow> string"
  apGraphErr :: "graph_error \<Rightarrow> string"
  apRecovered :: Response
  apSeedUsername :: string
  apSeedPassword :: string
  apRange :: range_order
  apRooms :: "nat list \<Rightarrow> nat list"
  apMarshal :: "Message \<Rightarrow> (string, string) result"

record 'c Input =
  inBody :: string
  inID :: string
  inUuid :: string
  inNow :: "nat \<Rightarrow> time"
  inSample :: Sample
  inDistribute :: "string \<Rightarrow> Memory \<Rightarrow> 'c \<Rightarrow> (store_error, Task) result \<times> Memory \<times> 'c"

record 'c Server =
  svStore :: Memory
  svClient :: 'c
  svEffects :: MemorySideEffectStore
  svHub :: Hub
  svHistory :: HistoryCollector
  svFlowRuns :: "(string, nat) gomap"
  svTasks :: "(string, nat) gomap"

section \<open>Helpers of router.go\<close>

definition writeJSON :: "'c ApiEnv \<Rightarrow> int \<Rightarrow> body \<Rightarrow> Response" where
  "writeJSON env status v = \<lparr>rsStatus = status, rsBody = apEncode env v\<rparr>"

definition writeError :: "'c ApiEnv \<Rightarrow> int \<Rightarrow> string \<Rightarrow> Response" where
  "writeError env status msg = writeJSON env status (BError msg)"

definition tenantFrom :: "Request \<Rightarrow> string" where
  "tenantFrom r = TenantIDFrom r"

definition mapStoreError :: "store_error \<Rightarrow> int \<times> string" where
  "mapStoreError err =
     (if err = ErrNotFound then (404, ''not found'')
      else if err = ErrConflict then (409, ''conflict'')
      else if err = ErrInvalid then (400, ''invalid input'')
      else (500, ''internal error''))"

definition storeError :: "'c ApiEnv \<Rightarrow> store_error \<Rightarrow> Response" where
  "storeError env err = (case mapStoreError err of (status, msg) \<Rightarrow> writeError env status msg)"

definition noContent :: Response where
  "noContent = \<lparr>rsStatus = 204, rsBody = ''''\<rparr>"

definition handleHealthz :: "'c ApiEnv \<Rightarrow> Response" where
  "handleHealthz env = writeJSON env 200 (BMap [(''status'', VString ''ok'')])"

text \<open>The counters of the metrics: \<open>WithLabelValues(label).Inc()\<close>.\<close>

definition incCounter :: "string \<Rightarrow> (string, nat) gomap \<Rightarrow> (string, nat) gomap" where
  "incCounter label m = gput label (Suc (gget 0 m label)) m"

definition httpStatusLabel :: "int \<Rightarrow> string" where
  "httpStatusLabel code =
     (if 500 \<le> code then ''5xx'' else if 400 \<le> code then ''4xx'' else if 300 \<le> code then ''3xx'' else ''2xx'')"

section \<open>Agents\<close>

definition listAgents :: "'c ApiEnv \<Rightarrow> 'c Server handler" where
  "listAgents env r s = (writeJSON env 200 (BAgents (ListAgents (apRange env) (tenantFrom r) (svStore s))), s)"

definition getAgent :: "'c ApiEnv \<Rightarrow> 'c Input \<Rightarrow> 'c Server handler" where
  "getAgent env inp r s = (case GetAgent (tenantFrom r) (inID inp) (svStore s) of
      Inl e \<Rightarrow> (storeError env e, s)
    | Inr agent \<Rightarrow> (writeJSON env 200 (BAgent agent), s))"

definition createAgent :: "'c ApiEnv \<Rightarrow> 'c Input \<Rightarrow> 'c Server handler" where
  "createAgent env inp r s = (case apDecodeAgent env (inBody inp) of
      None \<Rightarrow> (writeError env 400 ''invalid JSON body'', s)
    | Some agent \<Rightarrow>
        (if agName agent = '''' then (writeError env 400 ''name is required'', s)
         else let agent' = agent \<lparr>agID := inUuid inp, agTenantID := tenantFrom r, agCreatedAt := inNow inp 0, agUpdatedAt := inNow inp 1\<rparr>
           in (case CreateAgent agent' (svStore s) of
                 (Inl e, m) \<Rightarrow> (storeError env e, s \<lparr>svStore := m\<rparr>)
               | (Inr created, m) \<Rightarrow> (writeJSON env 201 (BAgent created), s \<lparr>svStore := m\<rparr>))))"

definition updateAgent :: "'c ApiEnv \<Rightarrow> 'c Input \<Rightarrow> 'c Server handler" where
  "updateAgent env inp r s = (case GetAgent (tenantFrom r) (inID inp) (svStore s) of
      Inl e \<Rightarrow> (storeError env e, s)
    | Inr existing \<Rightarrow>
        (case apDecodeAgent env (inBody inp) of
           None \<Rightarrow> (writeError env 400 ''invalid JSON body'', s)
         | Some agent \<Rightarrow>
             let existing' = existing \<lparr>agName := agName agent, agProfile := agProfile agent, agSystemPrompt := agSystemPrompt agent,
                   agSkills := agSkills agent, agEnabled := agEnabled agent, agUpdatedAt := inNow inp 0\<rparr>
             in (case UpdateAgent existing' (svStore s) of
                   (Inl e, m) \<Rightarrow> (storeError env e, s \<lparr>svStore := m\<rparr>)
                 | (Inr updated, m) \<Rightarrow> (writeJSON env 200 (BAgent updated), s \<lparr>svStore := m\<rparr>))))"

definition deleteAgent :: "'c ApiEnv \<Rightarrow> 'c Input \<Rightarrow> 'c Server handler" where
  "deleteAgent env inp r s = (case DeleteAgent (tenantFrom r) (inID inp) (svStore s) of
      (Inl e, m) \<Rightarrow> (storeError env e, s \<lparr>svStore := m\<rparr>)
    | (Inr _, m) \<Rightarrow> (noContent, s \<lparr>svStore := m\<rparr>))"

section \<open>MCP servers\<close>

definition listMcpServers :: "'c ApiEnv \<Rightarrow> 'c Server handler" where
  "listMcpServers env r s = (writeJSON env 200 (BServers (ListMcpServers (apRange env) (tenantFrom r) (svStore s))), s)"

definition getMcpServer :: "'c ApiEnv \<Rightarrow> 'c Input \<Rightarrow> 'c Server handler" where
  "getMcpServer env inp r s = (case GetMcpServer (tenantFrom r) (inID inp) (svStore s) of
      Inl e \<Rightarrow> (storeError env e, s)
    | Inr server \<Rightarrow> (writeJSON env 200 (BServer server), s))"

definition createMcpServer :: "'c ApiEnv \<Rightarrow> 'c Input \<Rightarrow> 'c Server handler" where
  "createMcpServer env inp r s = (case apDecodeServer env (inBody inp) of
      None \<Rightarrow> (writeError env 400 ''invalid JSON body'', s)
    | Some server \<Rightarrow>
        (if msvName server = '''' then (writeError env 400 ''name is required'', s)
         else if msvTransport server = '''' then (writeError env 400 ''transport is required'', s)
         else let server' = server \<lparr>msvID := inUuid inp, msvTenantID := tenantFrom r, msvStatus := ''unknown'',
                              msvCreatedAt := inNow inp 0, msvUpdatedAt := inNow inp 1\<rparr>
           in (case CreateMcpServer server' (svStore s) of
                 (Inl e, m) \<Rightarrow> (storeError env e, s \<lparr>svStore := m\<rparr>)
               | (Inr created, m) \<Rightarrow> (writeJSON env 201 (BServer created), s \<lparr>svStore := m\<rparr>))))"

definition updateMcpServer :: "'c ApiEnv \<Rightarrow> 'c Input \<Rightarrow> 'c Server handler" where
  "updateMcpServer env inp r s = (case GetMcpServer (tenantFrom r) (inID inp) (svStore s) of
      Inl e \<Rightarrow> (storeError env e, s)
    | Inr existing \<Rightarrow>
        (case apDecodeServer env (inBody inp) of
           None \<Rightarrow> (writeError env 400 ''invalid JSON body'', s)
         | Some server \<Rightarrow>
             let existing' = existing \<lparr>msvName := msvName server,
                   msvTransport := (if msvTransport server \<noteq> '''' then msvTransport server else msvTransport existing),
                   msvEnabled := msvEnabled server, msvStatus := msvStatus server, msvUpdatedAt := inNow inp 0\<rparr>
             in (case UpdateMcpServer existing' (svStore s) of
                   (Inl e, m) \<Rightarrow> (storeError env e, s \<lparr>svStore := m\<rparr>)
                 | (Inr updated, m) \<Rightarrow> (writeJSON env 200 (BServer updated), s \<lparr>svStore := m\<rparr>))))"

definition deleteMcpServer :: "'c ApiEnv \<Rightarrow> 'c Input \<Rightarrow> 'c Server handler" where
  "deleteMcpServer env inp r s = (case DeleteMcpServer (tenantFrom r) (inID inp) (svStore s) of
      (Inl e, m) \<Rightarrow> (storeError env e, s \<lparr>svStore := m\<rparr>)
    | (Inr _, m) \<Rightarrow> (noContent, s \<lparr>svStore := m\<rparr>))"

definition testMcpServer :: "'c ApiEnv \<Rightarrow> 'c Input \<Rightarrow> 'c Server handler" where
  "testMcpServer env inp r s = (case GetMcpServer (tenantFrom r) (inID inp) (svStore s) of
      Inl e \<Rightarrow> (storeError env e, s)
    | Inr server \<Rightarrow>
        (case TransportFromServer (enDecodeTransport (apEngine env)) (msvTransport server) of
           Inl _ \<Rightarrow> (writeError env 400 ''invalid transport config'', s)
         | Inr transport \<Rightarrow>
             (case apListTools env transport (svClient s) of
                (Inl e, c) \<Rightarrow>
                  (writeJSON env 200 (BMap [(''ok'', VBool False), (''error'', VString e)]),
                   s \<lparr>svClient := c, svStore := snd (UpdateMcpServer (server \<lparr>msvStatus := ''error''\<rparr>) (svStore s))\<rparr>)
              | (Inr tools, c) \<Rightarrow>
                  (writeJSON env 200 (BTools tools),
                   s \<lparr>svClient := c, svStore := snd (UpdateMcpServer (server \<lparr>msvStatus := ''connected''\<rparr>) (svStore s))\<rparr>))))"

section \<open>Flows and runs\<close>

text \<open>The engine of the server: it reads the resource store and writes the side-effect store.\<close>

definition engineOf :: "'c ApiEnv \<Rightarrow> 'c Server \<Rightarrow> (MemorySideEffectStore, 'c) Env" where
  "engineOf env s = (apEngine env) \<lparr>enGetAgent := (\<lambda>t i. GetAgent t i (svStore s)),
     enGetMcpServer := (\<lambda>t i. GetMcpServer t i (svStore s)), enEffects := memorySideEffects\<rparr>"

definition listFlows :: "'c ApiEnv \<Rightarrow> 'c Server handler" where
  "listFlows env r s = (writeJSON env 200 (BFlows (ListFlows (apRange env) (tenantFrom r) (svStore s))), s)"

definition getFlow :: "'c ApiEnv \<Rightarrow> 'c Input \<Rightarrow> 'c Server handler" where
  "getFlow env inp r s = (case GetFlow (tenantFrom r) (inID inp) (svStore s) of
      Inl e \<Rightarrow> (storeError env e, s)
    | Inr fl \<Rightarrow> (writeJSON env 200 (BFlow fl), s))"

definition createFlow :: "'c ApiEnv \<Rightarrow> 'c Input \<Rightarrow> 'c Server handler" where
  "createFlow env inp r s = (case apDecodeFlow env (inBody inp) of
      None \<Rightarrow> (writeError env 400 ''invalid JSON body'', s)
    | Some fl \<Rightarrow>
        (if flName fl = '''' then (writeError env 400 ''name is required'', s)
         else (case Validate (engineOf env s) (flFlowJSON fl) of
           Some e \<Rightarrow> (writeError env 400 (apGraphErr env e), s)
         | None \<Rightarrow>
             let fl' = fl \<lparr>flID := inUuid inp, flTenantID := tenantFrom r, flCreatedAt := inNow inp 0, flUpdatedAt := inNow inp 1\<rparr>
             in (case CreateFlow fl' (svStore s) of
                   (Inl e, m) \<Rightarrow> (storeError env e, s \<lparr>svStore := m\<rparr>)
                 | (Inr created, m) \<Rightarrow> (writeJSON env 201 (BFlow created), s \<lparr>svStore := m\<rparr>)))))"

definition updateFlow :: "'c ApiEnv \<Rightarrow> 'c Input \<Rightarrow> 'c Server handler" where
  "updateFlow env inp r s = (case GetFlow (tenantFrom r) (inID inp) (svStore s) of
      Inl e \<Rightarrow> (storeError env e, s)
    | Inr existing \<Rightarrow>
        (case apDecodeFlow env (inBody inp) of
           None \<Rightarrow> (writeError env 400 ''invalid JSON body'', s)
         | Some fl \<Rightarrow>
             (case (if flFlowJSON fl \<noteq> '''' then Validate (engineOf env s) (flFlowJSON fl) else None) of
                Some e \<Rightarrow> (writeError env 400 (apGraphErr env e), s)
              | None \<Rightarrow>
                  let existing' = existing \<lparr>flFlowJSON := (if flFlowJSON fl \<noteq> '''' then flFlowJSON fl else flFlowJSON existing),
                        flName := flName fl, flPermissions := flPermissions fl, flEnabled := flEnabled fl, flUpdatedAt := inNow inp 0\<rparr>
                  in (case UpdateFlow existing' (svStore s) of
                        (Inl e, m) \<Rightarrow> (storeError env e, s \<lparr>svStore := m\<rparr>)
                      | (Inr updated, m) \<Rightarrow> (writeJSON env 200 (BFlow updated), s \<lparr>svStore := m\<rparr>)))))"

definition deleteFlow :: "'c ApiEnv \<Rightarrow> 'c Input \<Rightarrow> 'c Server handler" where
  "deleteFlow env inp r s = (case DeleteFlow (tenantFrom r) (inID inp) (svStore s) of
      (Inl e, m) \<Rightarrow> (storeError env e, s \<lparr>svStore := m\<rparr>)
    | (Inr _, m) \<Rightarrow> (noContent, s \<lparr>svStore := m\<rparr>))"

text \<open>A broadcast of a handler, and its answer; a panic of the hub is answered by the recovering middleware.\<close>

definition broadcastThen :: "'c ApiEnv \<Rightarrow> time \<Rightarrow> string \<Rightarrow> string \<Rightarrow> any \<Rightarrow> Response \<Rightarrow> 'c Server \<Rightarrow> Response \<times> 'c Server" where
  "broadcastThen env t tenant msgType payload resp s =
     (case Broadcast (apMarshal env) (apRooms env) t tenant msgType payload (svHub s) of
        None \<Rightarrow> (apRecovered env, s)
      | Some h \<Rightarrow> (resp, s \<lparr>svHub := h\<rparr>))"

definition newRun :: "'c Input \<Rightarrow> Flow \<Rightarrow> Run" where
  "newRun inp fl = \<lparr>ruID = inUuid inp, ruFlowID = flID fl, ruTenantID = flTenantID fl, ruStatus = RunStatusRunning,
     ruStartedAt = inNow inp 0, ruFinishedAt = None, ruLogs = [], ruResult = ''''\<rparr>"

text \<open>\<open>runFlow\<close> after the execution has returned.\<close>

definition finishRun :: "'c ApiEnv \<Rightarrow> 'c Input \<Rightarrow> Flow \<Rightarrow> Run \<Rightarrow> ExecutionResult \<Rightarrow> 'c Server \<Rightarrow> Response \<times> 'c Server" where
  "finishRun env inp fl run res s =
     (case UpdateRun (run \<lparr>ruStatus := xrStatus res, ruFinishedAt := Some (inNow inp 1), ruLogs := xrLogs res,
                           ruResult := xrResult res\<rparr>) (svStore s) of
        (Inl e, m) \<Rightarrow> (writeError env 500 (apStoreErr env e), s \<lparr>svStore := m\<rparr>)
      | (Inr run', m) \<Rightarrow>
          broadcastThen env (inNow inp 2) (flTenantID fl) ''run_update''
            (VMap [(''run_id'', VString (ruID run')), (''flow_id'', VString (flID fl)), (''status'', VString (xrStatus res))])
            (writeJSON env 200 (BMap [(''run_id'', VString (ruID run'))]))
            (s \<lparr>svStore := m, svFlowRuns := incCounter (xrStatus res) (svFlowRuns s)\<rparr>))"

definition runFlow :: "'c ApiEnv \<Rightarrow> 'c Input \<Rightarrow> 'c Server handler" where
  "runFlow env inp r s = (case GetFlow (tenantFrom r) (inID inp) (svStore s) of
      Inl e \<Rightarrow> (storeError env e, s)
    | Inr fl \<Rightarrow>
        (if \<not> flEnabled fl then (writeError env 400 ''flow is disabled'', s)
         else (case CreateRun (newRun inp fl) (svStore s) of
           (Inl e, m) \<Rightarrow> (writeError env 500 (apStoreErr env e), s \<lparr>svStore := m\<rparr>)
         | (Inr run, m) \<Rightarrow>
             let s1 = s \<lparr>svStore := m\<rparr> in
             (case Execute (engineOf env s1) fl (svEffects s1) (svClient s1) of
                (Panicked, ec) \<Rightarrow> (apRecovered env, s1 \<lparr>svEffects := ecStore ec, svClient := ecClient ec\<rparr>)
              | (Returned res, ec) \<Rightarrow> finishRun env inp fl run res (s1 \<lparr>svEffects := ecStore ec, svClient := ecClient ec\<rparr>)))))"

definition listFlowRuns :: "'c ApiEnv \<Rightarrow> 'c Input \<Rightarrow> 'c Server handler" where
  "listFlowRuns env inp r s = (writeJSON env 200 (BRuns (ListRuns (apRange env) (tenantFrom r) (inID inp) (svStore s))), s)"

definition getRun :: "'c ApiEnv \<Rightarrow> 'c Input \<Rightarrow> 'c Server handler" where
  "getRun env inp r s = (case GetRun (tenantFrom r) (inID inp) (svStore s) of
      Inl e \<Rightarrow> (storeError env e, s)
    | Inr run \<Rightarrow> (writeJSON env 200 (BRun run), s))"

section \<open>Tasks\<close>

definition createTask :: "'c ApiEnv \<Rightarrow> 'c Input \<Rightarrow> 'c Server handler" where
  "createTask env inp r s = (case apDecodeTask env (inBody inp) of
      None \<Rightarrow> (writeError env 400 ''invalid JSON body'', s)
    | Some taskText \<Rightarrow>
        (if taskText = '''' then (writeError env 400 ''task text is required'', s)
         else (case inDistribute inp taskText (svStore s) (svClient s) of
           (Inl e, m, c) \<Rightarrow> (writeError env 500 (apStoreErr env e), s \<lparr>svStore := m, svClient := c\<rparr>)
         | (Inr task, m, c) \<Rightarrow>
             broadcastThen env (inNow inp 0) (taTenantID task) ''task_update''
               (VMap [(''task_id'', VString (taID task)), (''status'', VString (taStatus task))])
               (writeJSON env 200 (BMap [(''task_id'', VString (taID task))]))
               (s \<lparr>svStore := m, svClient := c, svTasks := incCounter (taStatus task) (svTasks s)\<rparr>))))"

definition getTask :: "'c ApiEnv \<Rightarrow> 'c Input \<Rightarrow> 'c Server handler" where
  "getTask env inp r s = (case GetTask (tenantFrom r) (inID inp) (svStore s) of
      Inl e \<Rightarrow> (storeError env e, s)
    | Inr task \<Rightarrow> (writeJSON env 200 (BTask task), s))"


section \<open>Login and users\<close>

definition defaultTenantID :: string where
  "defaultTenantID = ''00000000-0000-0000-0000-000000000001''"

definition ensureSeed :: "'c ApiEnv \<Rightarrow> 'c Input \<Rightarrow> Memory \<Rightarrow> Memory" where
  "ensureSeed env inp m =
     (if ListUsers (apRange env) defaultTenantID m \<noteq> [] then m
      else let m1 = (case GetTenant defaultTenantID m of
                       Inl _ \<Rightarrow> snd (CreateTenant \<lparr>teID = defaultTenantID, teName = ''default'', teCreatedAt = inNow inp 0\<rparr> m)
                     | Inr _ \<Rightarrow> m)
        in (case apHash env (apSeedPassword env) of
              Inl _ \<Rightarrow> m1
            | Inr hash \<Rightarrow>
                snd (CreateUser \<lparr>usID = inUuid inp, usTenantID = defaultTenantID, usUsername = apSeedUsername env,
                   usPasswordHash = hash, usRole = RoleOwner, usCreatedAt = inNow inp 1, usUpdatedAt = inNow inp 2\<rparr> m1)))"

definition handleLogin :: "'c ApiEnv \<Rightarrow> 'c Input \<Rightarrow> 'c Server handler" where
  "handleLogin env inp r s = (case apDecodeLogin env (inBody inp) of
      None \<Rightarrow> (writeError env 400 ''invalid JSON body'', s)
    | Some req \<Rightarrow>
        (if lrUsername req = '''' \<or> lrPassword req = '''' then (writeError env 400 ''username and password are required'', s)
         else let s1 = s \<lparr>svStore := ensureSeed env inp (svStore s)\<rparr> in
           (case GetUserByUsername (apRange env) defaultTenantID (lrUsername req) (svStore s1) of
              Inl _ \<Rightarrow> (writeError env 401 ''invalid credentials'', s1)
            | Inr user \<Rightarrow>
                (if \<not> apCompare env (usPasswordHash user) (lrPassword req) then (writeError env 401 ''invalid credentials'', s1)
                 else (case Issue (apJwt env) (apManager env) (inNow inp 3) (usUsername user) (usID user) (usTenantID user) (usRole user) of
                   Inl e \<Rightarrow> (writeError env 500 e, s1)
                 | Inr token \<Rightarrow> (writeJSON env 200 (BMap [(''token'', VString token)]), s1))))))"

definition handleMe :: "'c ApiEnv \<Rightarrow> 'c Server handler" where
  "handleMe env r s = (case ClaimsFrom r of
      None \<Rightarrow> (writeError env 401 ''unauthorized'', s)
    | Some claims \<Rightarrow>
        (case GetUser (clTenantID claims) (clUserID claims) (svStore s) of
           Inl _ \<Rightarrow> (writeError env 401 ''unauthorized'', s)
         | Inr user \<Rightarrow> (writeJSON env 200 (BUser (userJSON user)), s)))"

definition listUsers :: "'c ApiEnv \<Rightarrow> 'c Server handler" where
  "listUsers env r s = (writeJSON env 200 (BUsers (map userJSON (ListUsers (apRange env) (tenantFrom r) (svStore s)))), s)"

definition getUser :: "'c ApiEnv \<Rightarrow> 'c Input \<Rightarrow> 'c Server handler" where
  "getUser env inp r s = (case GetUser (tenantFrom r) (inID inp) (svStore s) of
      Inl e \<Rightarrow> (storeError env e, s)
    | Inr user \<Rightarrow> (writeJSON env 200 (BUser (userJSON user)), s))"

definition knownRole :: "string \<Rightarrow> bool" where
  "knownRole role \<longleftrightarrow> role = RoleViewer \<or> role = RoleOperator \<or> role = RoleOwner"

definition createUser :: "'c ApiEnv \<Rightarrow> 'c Input \<Rightarrow> 'c Server handler" where
  "createUser env inp r s = (case apDecodeUser env (inBody inp) of
      None \<Rightarrow> (writeError env 400 ''invalid JSON body'', s)
    | Some req \<Rightarrow>
        (if urUsername req = '''' \<or> urPassword req = '''' then (writeError env 400 ''username and password are required'', s)
         else let role = (if knownRole (urRole req) then urRole req else RoleViewer) in
           (case apHash env (urPassword req) of
              Inl e \<Rightarrow> (writeError env 500 e, s)
            | Inr hash \<Rightarrow>
                (case CreateUser \<lparr>usID = inUuid inp, usTenantID = tenantFrom r, usUsername = urUsername req, usPasswordHash = hash,
                        usRole = role, usCreatedAt = inNow inp 0, usUpdatedAt = inNow inp 1\<rparr> (svStore s) of
                   (Inl e, m) \<Rightarrow> (storeError env e, s \<lparr>svStore := m\<rparr>)
                 | (Inr created, m) \<Rightarrow> (writeJSON env 201 (BUser (userJSON created)), s \<lparr>svStore := m\<rparr>)))))"

definition updatedUser :: "'c ApiEnv \<Rightarrow> userReq \<Rightarrow> User \<Rightarrow> (string, User) result" where
  "updatedUser env req existing =
     (let u1 = (if urUsername req \<noteq> '''' then existing \<lparr>usUsername := urUsername req\<rparr> else existing);
          u2 = (if urRole req \<noteq> '''' \<and> knownRole (urRole req) then u1 \<lparr>usRole := urRole req\<rparr> else u1)
      in if urPassword req \<noteq> '''' then map_res (\<lambda>hash. u2 \<lparr>usPasswordHash := hash\<rparr>) (apHash env (urPassword req)) else Inr u2)"

definition updateUser :: "'c ApiEnv \<Rightarrow> 'c Input \<Rightarrow> 'c Server handler" where
  "updateUser env inp r s = (case GetUser (tenantFrom r) (inID inp) (svStore s) of
      Inl e \<Rightarrow> (storeError env e, s)
    | Inr existing \<Rightarrow>
        (case apDecodeUser env (inBody inp) of
           None \<Rightarrow> (writeError env 400 ''invalid JSON body'', s)
         | Some req \<Rightarrow>
             (case updatedUser env req existing of
                Inl e \<Rightarrow> (writeError env 500 e, s)
              | Inr user \<Rightarrow>
                  (case UpdateUser (user \<lparr>usUpdatedAt := inNow inp 0\<rparr>) (svStore s) of
                     (Inl e, m) \<Rightarrow> (storeError env e, s \<lparr>svStore := m\<rparr>)
                   | (Inr updated, m) \<Rightarrow> (writeJSON env 200 (BUser (userJSON updated)), s \<lparr>svStore := m\<rparr>)))))"

definition deleteUser :: "'c ApiEnv \<Rightarrow> 'c Input \<Rightarrow> 'c Server handler" where
  "deleteUser env inp r s = (case DeleteUser (tenantFrom r) (inID inp) (svStore s) of
      (Inl e, m) \<Rightarrow> (storeError env e, s \<lparr>svStore := m\<rparr>)
    | (Inr _, m) \<Rightarrow> (noContent, s \<lparr>svStore := m\<rparr>))"

section \<open>Dashboard\<close>

text \<open>The counting loop: a status that is not among the keys is not counted.\<close>

fun countLoop :: "string list \<Rightarrow> (string, nat) gomap \<Rightarrow> (string, nat) gomap" where
  "countLoop [] counts = counts"
| "countLoop (k # ks) counts =
     countLoop ks (case glookup counts k of Some n \<Rightarrow> gput k (Suc n) counts | None \<Rightarrow> counts)"

definition runStatusCounts :: "Run list \<Rightarrow> (string, nat) gomap" where
  "runStatusCounts rs = countLoop (map ruStatus rs)
     [(RunStatusSuccess, 0), (RunStatusFailed, 0), (RunStatusRolledBack, 0), (RunStatusPending, 0), (RunStatusRunning, 0)]"

definition taskStatusCounts :: "Task list \<Rightarrow> (string, nat) gomap" where
  "taskStatusCounts ts = countLoop (map taStatus ts)
     [(TaskStatusSuccess, 0), (TaskStatusFailed, 0), (TaskStatusPending, 0), (TaskStatusRunning, 0)]"

text \<open>The sample the dashboard shows, and the history after it; \<open>None\<close> is an index panic.\<close>

definition dashboardSample :: "Sample \<Rightarrow> HistoryCollector \<Rightarrow> (Sample \<times> HistoryCollector) option" where
  "dashboardSample now h = (case Latest h of
      None \<Rightarrow> None
    | Some sample \<Rightarrow> (if smTime sample = 0 then map_option (Pair now) (Capture now h) else Some (sample, h)))"

definition handleDashboard :: "'c ApiEnv \<Rightarrow> 'c Input \<Rightarrow> 'c Server handler" where
  "handleDashboard env inp r s =
     (let tenant = tenantFrom r; m = svStore s;
          ags = ListAgents (apRange env) tenant m; svs = ListMcpServers (apRange env) tenant m;
          fls = ListFlows (apRange env) tenant m; rns = ListRuns (apRange env) tenant '''' m; tks = ListTasks (apRange env) tenant m
      in (case dashboardSample (inSample inp) (svHistory s) of
            None \<Rightarrow> (apRecovered env, s)
          | Some (sample, h) \<Rightarrow>
              (writeJSON env 200 (BDashboard
                 [(''online'', length (filter agEnabled ags)), (''total'', length ags)]
                 [(''connected'', length (filter (\<lambda>v. msvStatus v = ''connected'') svs)), (''total'', length svs)]
                 (length (filter flEnabled fls)) sample (runStatusCounts rns) (taskStatusCounts tks) (ClientCount (svHub s))),
               s \<lparr>svHistory := h\<rparr>)))"

definition handleDashboardHistory :: "'c ApiEnv \<Rightarrow> 'c Server handler" where
  "handleDashboardHistory env r s = (case Snapshot (svHistory s) of
      None \<Rightarrow> (apRecovered env, s)
    | Some samples \<Rightarrow> (writeJSON env 200 (BSamples samples), s))"

section \<open>Operations of one tenant\<close>

text \<open>
  The store changes by operations on behalf of the tenant \<open>t\<close>; \<open>D\<close> is the decoder of flow documents. A flow that is
  written has a valid document, a user that is written has one of the roles.
\<close>

definition validDoc :: "(string \<Rightarrow> (string, FlowDef) result) \<Rightarrow> Flow \<Rightarrow> bool" where
  "validDoc D fl \<longleftrightarrow> is_ok (ParseAndValidate D (flFlowJSON fl))"

fun opValid :: "(string \<Rightarrow> (string, FlowDef) result) \<Rightarrow> store_op \<Rightarrow> bool" where
  "opValid D (OpCreateFlow f) = validDoc D f"
| "opValid D (OpUpdateFlow f) = validDoc D f"
| "opValid D (OpCreateUser u) = knownRole (usRole u)"
| "opValid D (OpUpdateUser u) = knownRole (usRole u)"
| "opValid D op = True"

definition storedOk :: "(string \<Rightarrow> (string, FlowDef) result) \<Rightarrow> Memory \<Rightarrow> bool" where
  "storedOk D m \<longleftrightarrow> (\<forall>t i f. GetFlow t i m = Inr f \<longrightarrow> validDoc D f) \<and> (\<forall>t i u. GetUser t i m = Inr u \<longrightarrow> knownRole (usRole u))"

inductive tenant_run :: "(string \<Rightarrow> (string, FlowDef) result) \<Rightarrow> string \<Rightarrow> Memory \<Rightarrow> Memory \<Rightarrow> bool"
  for D :: "string \<Rightarrow> (string, FlowDef) result" and t :: string where
  run_none: "tenant_run D t m m"
| run_op: "tenant_run D t m m' \<Longrightarrow> op_tenant op = Some t \<Longrightarrow> opValid D op \<Longrightarrow> tenant_run D t m (snd (store_step op m'))"

lemma tenant_run_trans: "tenant_run D t m' m'' \<Longrightarrow> tenant_run D t m m' \<Longrightarrow> tenant_run D t m m''"
  by (induction rule: tenant_run.induct) (auto intro: run_op)

lemma tenant_run_other:
  assumes "tenant_run D t m m'" "t' \<noteq> t"
  shows "gget [] (mAgents m') t' = gget [] (mAgents m) t'" "gget [] (mServers m') t' = gget [] (mServers m) t'"
    "gget [] (mFlows m') t' = gget [] (mFlows m) t'" "gget [] (mRuns m') t' = gget [] (mRuns m) t'"
    "gget [] (mTasks m') t' = gget [] (mTasks m) t'" "gget [] (mUsers m') t' = gget [] (mUsers m) t'"
  using assms by (induction rule: tenant_run.induct) (simp_all add: store_step_other)

lemma tenant_run_ok: "tenant_run D t m m' \<Longrightarrow> memoryOk m \<Longrightarrow> memoryOk m'"
  by (induction rule: tenant_run.induct) (simp_all add: memoryOk_step)

lemma stored_frame:
  "GetFlow t i (snd (store_step op m)) = Inr f \<Longrightarrow> opValid D op \<Longrightarrow> GetFlow t i m = Inr f \<or> validDoc D f"
  "GetUser t i (snd (store_step op m)) = Inr u \<Longrightarrow> opValid D op \<Longrightarrow> GetUser t i m = Inr u \<or> knownRole (usRole u)"
proof -
  have "GetFlow t i (snd (store_step op m)) = GetFlow t i m" if "\<forall>f t' i'. op \<noteq> OpCreateFlow f \<and> op \<noteq> OpUpdateFlow f \<and> op \<noteq> OpDeleteFlow t' i'"
    using that by (cases op) (simp_all add: agents_defs servers_defs flows_defs runs_defs tasks_defs users_defs CreateTenant_def)
  then show "GetFlow t i (snd (store_step op m)) = Inr f \<Longrightarrow> opValid D op \<Longrightarrow> GetFlow t i m = Inr f \<or> validDoc D f"
    by (cases op) (auto simp: flows.create_get flows.update_get flows.delete_get split: if_splits)
  have "GetUser t i (snd (store_step op m)) = GetUser t i m" if "\<forall>f t' i'. op \<noteq> OpCreateUser f \<and> op \<noteq> OpUpdateUser f \<and> op \<noteq> OpDeleteUser t' i'"
    using that by (cases op) (simp_all add: agents_defs servers_defs flows_defs runs_defs tasks_defs users_defs CreateTenant_def)
  then show "GetUser t i (snd (store_step op m)) = Inr u \<Longrightarrow> opValid D op \<Longrightarrow> GetUser t i m = Inr u \<or> knownRole (usRole u)"
    by (cases op) (auto simp: users.create_get users.update_get users.delete_get split: if_splits)
qed

lemma storedOk_step: "storedOk D m \<Longrightarrow> opValid D op \<Longrightarrow> storedOk D (snd (store_step op m))"
  unfolding storedOk_def using stored_frame [of _ _ op m _ D] by blast

lemma tenant_run_stored: "tenant_run D t m m' \<Longrightarrow> storedOk D m \<Longrightarrow> storedOk D m'"
  by (induction rule: tenant_run.induct) (simp_all add: storedOk_step)

lemma tenant_run_step: "op_tenant op = Some t \<Longrightarrow> opValid D op \<Longrightarrow> tenant_run D t m (snd (store_step op m))"
  by (intro run_op run_none)

text \<open>Each method that writes the store, as such an operation.\<close>

lemma tenant_run_ops:
  "CreateAgent a m = (ra, m') \<Longrightarrow> agTenantID a = t \<Longrightarrow> tenant_run D t m m'"
  "UpdateAgent a m = (ra, m') \<Longrightarrow> agTenantID a = t \<Longrightarrow> tenant_run D t m m'"
  "DeleteAgent t i m = (ru, m') \<Longrightarrow> tenant_run D t m m'"
  "CreateMcpServer v m = (rv, m') \<Longrightarrow> msvTenantID v = t \<Longrightarrow> tenant_run D t m m'"
  "UpdateMcpServer v m = (rv, m') \<Longrightarrow> msvTenantID v = t \<Longrightarrow> tenant_run D t m m'"
  "DeleteMcpServer t i m = (ru, m') \<Longrightarrow> tenant_run D t m m'"
  "CreateFlow f m = (rf, m') \<Longrightarrow> flTenantID f = t \<Longrightarrow> validDoc D f \<Longrightarrow> tenant_run D t m m'"
  "UpdateFlow f m = (rf, m') \<Longrightarrow> flTenantID f = t \<Longrightarrow> validDoc D f \<Longrightarrow> tenant_run D t m m'"
  "DeleteFlow t i m = (ru, m') \<Longrightarrow> tenant_run D t m m'"
  "CreateRun n m = (rn, m') \<Longrightarrow> ruTenantID n = t \<Longrightarrow> tenant_run D t m m'"
  "UpdateRun n m = (rn, m') \<Longrightarrow> ruTenantID n = t \<Longrightarrow> tenant_run D t m m'"
  "CreateTask k m = (rk, m') \<Longrightarrow> taTenantID k = t \<Longrightarrow> tenant_run D t m m'"
  "UpdateTask k m = (rk, m') \<Longrightarrow> taTenantID k = t \<Longrightarrow> tenant_run D t m m'"
  "CreateUser u m = (rs, m') \<Longrightarrow> usTenantID u = t \<Longrightarrow> knownRole (usRole u) \<Longrightarrow> tenant_run D t m m'"
  "UpdateUser u m = (rs, m') \<Longrightarrow> usTenantID u = t \<Longrightarrow> knownRole (usRole u) \<Longrightarrow> tenant_run D t m m'"
  "DeleteUser t i m = (ru, m') \<Longrightarrow> tenant_run D t m m'"
  using tenant_run_step [of "OpCreateAgent a" t D m] tenant_run_step [of "OpUpdateAgent a" t D m] tenant_run_step [of "OpDeleteAgent t i" t D m]
    tenant_run_step [of "OpCreateMcpServer v" t D m] tenant_run_step [of "OpUpdateMcpServer v" t D m] tenant_run_step [of "OpDeleteMcpServer t i" t D m]
    tenant_run_step [of "OpCreateFlow f" t D m] tenant_run_step [of "OpUpdateFlow f" t D m] tenant_run_step [of "OpDeleteFlow t i" t D m]
    tenant_run_step [of "OpCreateRun n" t D m] tenant_run_step [of "OpUpdateRun n" t D m]
    tenant_run_step [of "OpCreateTask k" t D m] tenant_run_step [of "OpUpdateTask k" t D m]
    tenant_run_step [of "OpCreateUser u" t D m] tenant_run_step [of "OpUpdateUser u" t D m] tenant_run_step [of "OpDeleteUser t i" t D m]
  by simp_all

end
