(* ===== verification/Api_Router.thy ===== *)
theory Api_Router
  imports Api_Handlers
begin

text \<open>
  The routes of the API (\<open>internal/api/router.go\<close>) and what holds of every request that comes in through them.

  \<open>routes\<close> is the table that \<open>Router\<close> builds. The matching of a pattern against a path is done by chi, the parameter
  \<open>chi\<close>, which gives the value of the URL parameter (empty for a pattern without one); paths are without percent escapes.
  The streaming endpoints, \<open>/metrics\<close> and \<open>/api/v1/ws\<close>, do not answer with JSON and are not in the table.
\<close>

section \<open>Routes\<close>

datatype endpoint =
    EpMe
  | EpListAgents | EpCreateAgent | EpGetAgent | EpUpdateAgent | EpDeleteAgent
  | EpListMcpServers | EpCreateMcpServer | EpGetMcpServer | EpUpdateMcpServer | EpDeleteMcpServer | EpTestMcpServer
  | EpListFlows | EpCreateFlow | EpGetFlow | EpUpdateFlow | EpDeleteFlow | EpRunFlow | EpListFlowRuns
  | EpGetRun
  | EpCreateTask | EpGetTask
  | EpListUsers | EpCreateUser | EpGetUser | EpUpdateUser | EpDeleteUser
  | EpDashboard | EpDashboardHistory

definition routes :: "(string \<times> string \<times> endpoint) list" where
  "routes = [
     (''GET'', ''/api/v1/me'', EpMe),
     (''GET'', ''/api/v1/agents'', EpListAgents),
     (''POST'', ''/api/v1/agents'', EpCreateAgent),
     (''GET'', ''/api/v1/agents/{id}'', EpGetAgent),
     (''PUT'', ''/api/v1/agents/{id}'', EpUpdateAgent),
     (''DELETE'', ''/api/v1/agents/{id}'', EpDeleteAgent),
     (''GET'', ''/api/v1/mcp-servers'', EpListMcpServers),
     (''POST'', ''/api/v1/mcp-servers'', EpCreateMcpServer),
     (''GET'', ''/api/v1/mcp-servers/{id}'', EpGetMcpServer),
     (''PUT'', ''/api/v1/mcp-servers/{id}'', EpUpdateMcpServer),
     (''DELETE'', ''/api/v1/mcp-servers/{id}'', EpDeleteMcpServer),
     (''POST'', ''/api/v1/mcp-servers/{id}/test'', EpTestMcpServer),
     (''GET'', ''/api/v1/flows'', EpListFlows),
     (''POST'', ''/api/v1/flows'', EpCreateFlow),
     (''GET'', ''/api/v1/flows/{id}'', EpGetFlow),
     (''PUT'', ''/api/v1/flows/{id}'', EpUpdateFlow),
     (''DELETE'', ''/api/v1/flows/{id}'', EpDeleteFlow),
     (''POST'', ''/api/v1/flows/{id}/run'', EpRunFlow),
     (''GET'', ''/api/v1/flows/{id}/runs'', EpListFlowRuns),
     (''GET'', ''/api/v1/runs/{run_id}'', EpGetRun),
     (''POST'', ''/api/v1/tasks'', EpCreateTask),
     (''GET'', ''/api/v1/tasks/{id}'', EpGetTask),
     (''GET'', ''/api/v1/users'', EpListUsers),
     (''POST'', ''/api/v1/users'', EpCreateUser),
     (''GET'', ''/api/v1/users/{id}'', EpGetUser),
     (''PUT'', ''/api/v1/users/{id}'', EpUpdateUser),
     (''DELETE'', ''/api/v1/users/{id}'', EpDeleteUser),
     (''GET'', ''/api/v1/dashboard'', EpDashboard),
     (''GET'', ''/api/v1/dashboard/history'', EpDashboardHistory)]"

fun handle :: "endpoint \<Rightarrow> 'c ApiEnv \<Rightarrow> 'c Input \<Rightarrow> 'c Server handler" where
  "handle EpMe env inp = handleMe env"
| "handle EpListAgents env inp = listAgents env"
| "handle EpCreateAgent env inp = createAgent env inp"
| "handle EpGetAgent env inp = getAgent env inp"
| "handle EpUpdateAgent env inp = updateAgent env inp"
| "handle EpDeleteAgent env inp = deleteAgent env inp"
| "handle EpListMcpServers env inp = listMcpServers env"
| "handle EpCreateMcpServer env inp = createMcpServer env inp"
| "handle EpGetMcpServer env inp = getMcpServer env inp"
| "handle EpUpdateMcpServer env inp = updateMcpServer env inp"
| "handle EpDeleteMcpServer env inp = deleteMcpServer env inp"
| "handle EpTestMcpServer env inp = testMcpServer env inp"
| "handle EpListFlows env inp = listFlows env"
| "handle EpCreateFlow env inp = createFlow env inp"
| "handle EpGetFlow env inp = getFlow env inp"
| "handle EpUpdateFlow env inp = updateFlow env inp"
| "handle EpDeleteFlow env inp = deleteFlow env inp"
| "handle EpRunFlow env inp = runFlow env inp"
| "handle EpListFlowRuns env inp = listFlowRuns env inp"
| "handle EpGetRun env inp = getRun env inp"
| "handle EpCreateTask env inp = createTask env inp"
| "handle EpGetTask env inp = getTask env inp"
| "handle EpListUsers env inp = listUsers env"
| "handle EpCreateUser env inp = createUser env inp"
| "handle EpGetUser env inp = getUser env inp"
| "handle EpUpdateUser env inp = updateUser env inp"
| "handle EpDeleteUser env inp = deleteUser env inp"
| "handle EpDashboard env inp = handleDashboard env inp"
| "handle EpDashboardHistory env inp = handleDashboardHistory env"

type_synonym chi = "string \<Rightarrow> string \<Rightarrow> string option"

definition route :: "chi \<Rightarrow> string \<Rightarrow> string \<Rightarrow> (endpoint \<times> string) option" where
  "route chi method path = (case find (\<lambda>(m, p, ep). m = method \<and> chi p path \<noteq> None) routes of
      None \<Rightarrow> None
    | Some (m, p, ep) \<Rightarrow> Some (ep, the (chi p path)))"

definition dispatch :: "chi \<Rightarrow> Response \<Rightarrow> 'c ApiEnv \<Rightarrow> 'c Input \<Rightarrow> 'c Server handler" where
  "dispatch chi notFound env inp r s = (case route chi (rqMethod r) (rqPath r) of
      None \<Rightarrow> (notFound, s)
    | Some (ep, i) \<Rightarrow> handle ep env (inp \<lparr>inID := i\<rparr>) r s)"

text \<open>The group of routes behind the two middlewares.\<close>

definition protectedApi :: "chi \<Rightarrow> Response \<Rightarrow> time \<Rightarrow> 'c ApiEnv \<Rightarrow> 'c Input \<Rightarrow> 'c Server handler" where
  "protectedApi chi notFound now env inp =
     Authenticator (apJwt env) (apManager env) now (Authorizer (dispatch chi notFound env inp))"

section \<open>Handlers write on behalf of their tenant\<close>

lemma markStatus_run: "tenant_run D (taTenantID task) (owStore w) (owStore (markStatus env task i st res t w))"
proof (cases "taTenantID task = ''''")
  case False
  show ?thesis
    using tenant_run_step [of "OpUpdateTask (task \<lparr>taSubtasks := sub, taUpdatedAt := t\<rparr>)" "taTenantID task" D "owStore w" for sub] False
    by (simp add: markStatus_def Let_def)
qed (simp add: markStatus_def run_none)

lemma pool_step_run: "pool_step env workers task specs p p' \<Longrightarrow> tenant_run D (taTenantID task) (owStore (plWorld p)) (owStore (plWorld p'))"
  by (induction rule: pool_step.induct)
     (auto simp: beginSubtask_def finishSubtask_def Let_def markStatus_run run_none dest: callSkill_record split: if_splits sum.splits)

lemma pool_run: "(pool_step env workers task specs)\<^sup>*\<^sup>* p p' \<Longrightarrow> tenant_run D (taTenantID task) (owStore (plWorld p)) (owStore (plWorld p'))"
  by (induction rule: rtranclp_induct) (auto intro: run_none tenant_run_trans pool_step_run)

lemma prepareTask_run: "tenant_run D tn m (snd (prepareTask ulower rng tid t0 t1 tn inp m))"
proof -
  define nt where "nt = newTask tid tn inp (Decompose ulower inp (ListAgents rng tn m)) t0 t1"
  have 1: "tenant_run D tn m (snd (CreateTask nt m))"
    using tenant_run_step [of "OpCreateTask nt" tn D m] by (simp add: nt_def)
  have "tenant_run D tn (snd (CreateTask nt m)) (snd (UpdateTask (nt \<lparr>taStatus := TaskStatusRunning\<rparr>) (snd (CreateTask nt m))))"
    using tenant_run_step [of "OpUpdateTask (nt \<lparr>taStatus := TaskStatusRunning\<rparr>)" tn D "snd (CreateTask nt m)"] by (simp add: nt_def)
  then show ?thesis
    using tenant_run_trans [OF _ 1] 1 tasks.create_result [of nt m]
    by (auto simp: prepareTask_def Let_def simp flip: nt_def split: prod.splits sum.splits if_splits)
qed

lemma finalize_run: "tenant_run D (taTenantID task) m (snd (finalize env looks t task rs m))"
  using tenant_run_step [of "OpUpdateTask (finalTask env looks t task rs)" "taTenantID task" D m]
  by (auto simp: finalize_def Let_def split: prod.splits sum.splits)

lemma Distribute_run:
  assumes "Distribute env workers ulower rng tid req inp ctx m c res looks m' c'"
  shows "tenant_run D (tenantFromCtx req) m m'" "res = Inr task \<Longrightarrow> taTenantID task = tenantFromCtx req"
proof -
  have "tenant_run D (tenantFromCtx req) m m' \<and> (\<forall>task. res = Inr task \<longrightarrow> taTenantID task = tenantFromCtx req)"
    using assms
  proof cases
    case (rejected t0 t1 e)
    then show ?thesis using prepareTask_run [of D "tenantFromCtx req" m ulower rng tid t0 t1 inp] by simp
  next
    case (finished t0 t1 specs task0 m1 p t task')
    have key: "taTenantID task0 = tenantFromCtx req" using prepareTask_ok(2) [OF finished(3)] by simp
    have "tenant_run D (tenantFromCtx req) m m1"
      using prepareTask_run [of D "tenantFromCtx req" m ulower rng tid t0 t1 inp] finished(3) by simp
    moreover have "tenant_run D (tenantFromCtx req) m1 (owStore (plWorld p))"
      using pool_run [OF finished(4)] by (simp add: key poolStart_def startWorld_def)
    moreover have "tenant_run D (tenantFromCtx req) (owStore (plWorld p)) m'"
      using finalize_run [of D "task0 \<lparr>taSubtasks := owSubs (plWorld p)\<rparr>" "owStore (plWorld p)" env looks t "map the (plResults p)"]
        finished(7) by (simp add: key)
    moreover have "taTenantID task' = tenantFromCtx req"
      using finished_state(3) [OF finished(3,4,5,7)] key by simp
    ultimately show ?thesis using finished(1) by (auto intro: tenant_run_trans)
  qed
  then show "tenant_run D (tenantFromCtx req) m m'" "res = Inr task \<Longrightarrow> taTenantID task = tenantFromCtx req" by blast+
qed


section \<open>The effect of a handler\<close>

text \<open>What the handlers rely on of the run of the orchestrator: it is a run of \<open>Distribute\<close> for their request.\<close>

definition orchestrated :: "'c OrchEnv \<Rightarrow> nat \<Rightarrow> (string \<Rightarrow> string) \<Rightarrow> 'c ApiEnv \<Rightarrow> 'c Input \<Rightarrow> Request \<Rightarrow> 'c Server \<Rightarrow> bool" where
  "orchestrated oenv workers ulower env inp r s \<longleftrightarrow>
     (\<forall>taskText res m c. apDecodeTask env (inBody inp) = Some taskText \<and> inDistribute inp taskText (svStore s) (svClient s) = (res, m, c) \<longrightarrow>
        (\<exists>ctx looks. Distribute oenv workers ulower (apRange env) (inUuid inp) r taskText ctx (svStore s) (svClient s) res looks m c))"

text \<open>The hub changes at most in the channels of the tenant \<open>t\<close>.\<close>

definition hubOnly :: "string \<Rightarrow> Hub \<Rightarrow> Hub \<Rightarrow> bool" where
  "hubOnly t h h' \<longleftrightarrow> (\<forall>c x. glookup (hbHeap h) c = Some x \<and> cnTenant x \<noteq> t \<longrightarrow> glookup (hbHeap h') c = Some x)"

lemma hubOnly_refl [simp]: "hubOnly t h h"
  by (simp add: hubOnly_def)

definition effectOk :: "(string \<Rightarrow> (string, FlowDef) result) \<Rightarrow> string \<Rightarrow> 'c Server \<Rightarrow> 'c Server \<Rightarrow> bool" where
  "effectOk D t s s' \<longleftrightarrow> tenant_run D t (svStore s) (svStore s') \<and> hubOnly t (svHub s) (svHub s') \<and> (hubInv (svHub s) \<longrightarrow> hubInv (svHub s'))"

lemma effectOk_refl [simp]: "effectOk D t s s"
  by (simp add: effectOk_def run_none)

lemma effectOk_trans: "effectOk D t s s' \<Longrightarrow> effectOk D t s' s'' \<Longrightarrow> effectOk D t s s''"
  by (auto simp: effectOk_def hubOnly_def intro: tenant_run_trans)

lemma effectOk_store: "tenant_run D t (svStore s) m \<Longrightarrow> effectOk D t s (s \<lparr>svStore := m\<rparr>)"
  by (simp add: effectOk_def)

lemma effectOk_other [simp]:
  "effectOk D t s (s' \<lparr>svClient := c\<rparr>) = effectOk D t s s'" "effectOk D t s (s' \<lparr>svEffects := e\<rparr>) = effectOk D t s s'"
  "effectOk D t s (s' \<lparr>svHistory := h\<rparr>) = effectOk D t s s'" "effectOk D t s (s' \<lparr>svFlowRuns := a\<rparr>) = effectOk D t s s'"
  "effectOk D t s (s' \<lparr>svTasks := b\<rparr>) = effectOk D t s s'"
  by (simp_all add: effectOk_def)

lemma broadcastThen_ok:
  assumes "hubInv (svHub s)" "permutes_list (apRooms env)" "tn \<noteq> ''''"
  shows "fst (broadcastThen env t tn ty p resp s) = resp" "svStore (snd (broadcastThen env t tn ty p resp s)) = svStore s"
    and "effectOk D tn s (snd (broadcastThen env t tn ty p resp s))"
proof -
  obtain h where h: "Broadcast (apMarshal env) (apRooms env) t tn ty p (svHub s) = Some h" "hubInv h"
      "\<forall>c. glookup (hbHeap h) c = (case apMarshal env \<lparr>mgType = ty, mgTenant = tn, mgPayload = p, mgTime = t\<rparr> of
          Inl _ \<Rightarrow> glookup (hbHeap (svHub s)) c
        | Inr data \<Rightarrow> map_option (afterDelivery data (audience (svHub s) tn) c) (glookup (hbHeap (svHub s)) c))"
    using Broadcast_ok [OF assms(1,2)] by blast
  have "hubOnly tn (svHub s) h"
    using h(3) assms(3) by (auto simp: hubOnly_def afterDelivery_def audience_def split: sum.splits)
  then show "fst (broadcastThen env t tn ty p resp s) = resp" "svStore (snd (broadcastThen env t tn ty p resp s)) = svStore s"
    "effectOk D tn s (snd (broadcastThen env t tn ty p resp s))"
    using h(1,2) by (simp_all add: broadcastThen_def effectOk_def run_none)
qed

text \<open>A resource that the store returns for a tenant is its own.\<close>

lemma filed:
  assumes "memoryOk m"
  shows "GetAgent t i m = Inr a \<Longrightarrow> agTenantID a = t" "GetMcpServer t i m = Inr v \<Longrightarrow> msvTenantID v = t"
    "GetFlow t i m = Inr f \<Longrightarrow> flTenantID f = t" "GetUser t i m = Inr u \<Longrightarrow> usTenantID u = t"
  using memoryOk_tables [OF assms] agents.get_filed servers.get_filed flows.get_filed users.get_filed by blast+

lemma agents_effect:
  assumes "memoryOk (svStore s)"
  shows "effectOk D (tenantFrom r) s (snd (createAgent env inp r s))" "effectOk D (tenantFrom r) s (snd (updateAgent env inp r s))"
    "effectOk D (tenantFrom r) s (snd (deleteAgent env inp r s))"
  using filed(1) [OF assms]
  by (auto simp: createAgent_def updateAgent_def deleteAgent_def Let_def intro!: effectOk_store elim: tenant_run_ops
      split: option.splits sum.splits prod.splits)

lemma servers_effect:
  assumes "memoryOk (svStore s)"
  shows "effectOk D (tenantFrom r) s (snd (createMcpServer env inp r s))" "effectOk D (tenantFrom r) s (snd (updateMcpServer env inp r s))"
    "effectOk D (tenantFrom r) s (snd (deleteMcpServer env inp r s))"
  using filed(2) [OF assms]
  by (auto simp: createMcpServer_def updateMcpServer_def deleteMcpServer_def Let_def intro!: effectOk_store elim: tenant_run_ops
      split: option.splits sum.splits prod.splits)

lemma testMcpServer_effect:
  assumes "memoryOk (svStore s)"
  shows "effectOk D (tenantFrom r) s (snd (testMcpServer env inp r s))"
proof -
  have up: "msvTenantID v = t \<Longrightarrow> effectOk D t s (s \<lparr>svClient := c, svStore := snd (UpdateMcpServer v (svStore s))\<rparr>)" for v t c
    using tenant_run_step [of "OpUpdateMcpServer v" t D "svStore s"] by (simp add: effectOk_def)
  show ?thesis
    using filed(2) [OF assms]
    by (auto simp: testMcpServer_def up split: option.splits sum.splits prod.splits)
qed

lemma flows_effect:
  assumes "memoryOk (svStore s)" "storedOk (enDecodeFlow (apEngine env)) (svStore s)"
  shows "effectOk (enDecodeFlow (apEngine env)) (tenantFrom r) s (snd (createFlow env inp r s))"
    "effectOk (enDecodeFlow (apEngine env)) (tenantFrom r) s (snd (updateFlow env inp r s))"
    "effectOk (enDecodeFlow (apEngine env)) (tenantFrom r) s (snd (deleteFlow env inp r s))"
proof -
  have valid: "Validate (engineOf env s) j = None \<longleftrightarrow> is_ok (ParseAndValidate (enDecodeFlow (apEngine env)) j)" for j
    by (auto simp: Validate_def engineOf_def split: sum.splits)
  have old: "is_ok (ParseAndValidate (enDecodeFlow (apEngine env)) (flFlowJSON g))" if "GetFlow t i (svStore s) = Inr g" for t i g
    using assms(2) that by (auto simp: storedOk_def validDoc_def)
  show "effectOk (enDecodeFlow (apEngine env)) (tenantFrom r) s (snd (createFlow env inp r s))"
    "effectOk (enDecodeFlow (apEngine env)) (tenantFrom r) s (snd (deleteFlow env inp r s))"
    by (auto simp: createFlow_def deleteFlow_def Let_def valid validDoc_def intro!: effectOk_store elim: tenant_run_ops
      split: option.splits sum.splits prod.splits)
  show "effectOk (enDecodeFlow (apEngine env)) (tenantFrom r) s (snd (updateFlow env inp r s))"
    using filed(3) [OF assms(1)]
    by (auto simp: updateFlow_def Let_def valid validDoc_def old intro!: effectOk_store elim: tenant_run_ops
      split: option.splits sum.splits prod.splits if_splits)
qed

lemma updatedUser_tenant: "updatedUser env req u = Inr u' \<Longrightarrow> usTenantID u' = usTenantID u"
  by (auto simp: updatedUser_def Let_def map_res_Inr_iff split: if_splits)

lemma updatedUser_role: "updatedUser env req u = Inr u' \<Longrightarrow> knownRole (usRole u) \<Longrightarrow> knownRole (usRole u')"
  by (auto simp: updatedUser_def Let_def map_res_Inr_iff split: if_splits)

lemma users_effect:
  assumes "memoryOk (svStore s)" "storedOk D (svStore s)"
  shows "effectOk D (tenantFrom r) s (snd (createUser env inp r s))" "effectOk D (tenantFrom r) s (snd (updateUser env inp r s))"
    "effectOk D (tenantFrom r) s (snd (deleteUser env inp r s))"
proof -
  have up: "tenant_run D t (svStore s) m'" if "GetUser t i (svStore s) = Inr u" "updatedUser env req u = Inr u'"
      "UpdateUser (u' \<lparr>usUpdatedAt := x\<rparr>) (svStore s) = (y, m')" for t i u req u' x y m'
    using tenant_run_ops(15) [OF that(3), of t D] filed(4) [OF assms(1) that(1)] updatedUser_tenant [OF that(2)]
      updatedUser_role [OF that(2)] that(1) assms(2) by (auto simp: storedOk_def)
  show "effectOk D (tenantFrom r) s (snd (createUser env inp r s))" "effectOk D (tenantFrom r) s (snd (deleteUser env inp r s))"
    by (auto simp: createUser_def deleteUser_def Let_def knownRole_def intro!: effectOk_store elim: tenant_run_ops
        split: option.splits sum.splits prod.splits)
  show "effectOk D (tenantFrom r) s (snd (updateUser env inp r s))"
    by (auto simp: updateUser_def intro!: effectOk_store elim: up split: option.splits sum.splits prod.splits)
qed

lemma createTask_effect:
  assumes "orchestrated oenv workers ulower env inp r s" "hubInv (svHub s)" "permutes_list (apRooms env)" "tenantFrom r \<noteq> ''''"
  shows "effectOk D (tenantFrom r) s (snd (createTask env inp r s))"
proof (cases "apDecodeTask env (inBody inp)")
  case (Some taskText)
  obtain res m c where d: "inDistribute inp taskText (svStore s) (svClient s) = (res, m, c)" by (metis prod_cases3)
  obtain ctx looks where run: "Distribute oenv workers ulower (apRange env) (inUuid inp) r taskText ctx (svStore s) (svClient s) res looks m c"
    using assms(1) Some d by (auto simp: orchestrated_def)
  have tn: "tenantFromCtx r = tenantFrom r" using assms(4) by (simp add: tenantFromCtx_def tenantFrom_def)
  note run' = Distribute_run [OF run, unfolded tn]
  let ?s1 = "s \<lparr>svStore := m, svClient := c\<rparr>"
  have st: "effectOk D (tenantFrom r) s ?s1" by (simp add: effectOk_store run'(1))
  show ?thesis
  proof (cases res)
    case (Inl e)
    then show ?thesis using st Some d by (simp add: createTask_def)
  next
    case (Inr task)
    have "effectOk D (tenantFrom r) s (?s1 \<lparr>svTasks := x\<rparr>)" for x using st by simp
    moreover have "effectOk D (tenantFrom r) (?s1 \<lparr>svTasks := x\<rparr>) (snd (broadcastThen env t (taTenantID task) ty p resp (?s1 \<lparr>svTasks := x\<rparr>)))" for x t ty p resp
      using broadcastThen_ok(3) [of "?s1 \<lparr>svTasks := x\<rparr>" env "tenantFrom r"] assms run'(2) [OF Inr] by simp
    ultimately have "effectOk D (tenantFrom r) s (snd (broadcastThen env t (taTenantID task) ty p resp (?s1 \<lparr>svTasks := x\<rparr>)))" for x t ty p resp
      by (rule effectOk_trans)
    then show ?thesis using Some d Inr by (simp add: createTask_def)
  qed
qed (simp add: createTask_def)

lemma finishRun_effect:
  assumes "hubInv (svHub s)" "permutes_list (apRooms env)" "flTenantID fl \<noteq> ''''" "ruTenantID run = flTenantID fl"
  shows "effectOk D (flTenantID fl) s (snd (finishRun env inp fl run res s))"
proof -
  define run2 where "run2 = run \<lparr>ruStatus := xrStatus res, ruFinishedAt := Some (inNow inp 1), ruLogs := xrLogs res, ruResult := xrResult res\<rparr>"
  obtain x m where u: "UpdateRun run2 (svStore s) = (x, m)" by force
  have st: "effectOk D (flTenantID fl) s (s \<lparr>svStore := m\<rparr>)"
    using tenant_run_ops(11) [OF u, of "flTenantID fl" D] assms(4) by (intro effectOk_store) (simp add: run2_def)
  show ?thesis
  proof (cases x)
    case (Inl e)
    then show ?thesis using st by (simp add: finishRun_def u [unfolded run2_def] del: One_nat_def)
  next
    case (Inr run')
    let ?s = "s \<lparr>svStore := m, svFlowRuns := incCounter (xrStatus res) (svFlowRuns s)\<rparr>"
    have "effectOk D (flTenantID fl) s ?s" using st by simp
    moreover have "effectOk D (flTenantID fl) ?s (snd (broadcastThen env t (flTenantID fl) ty p resp ?s))" for t ty p resp
      using broadcastThen_ok(3) [of ?s env] assms by simp
    ultimately have "effectOk D (flTenantID fl) s (snd (broadcastThen env t (flTenantID fl) ty p resp ?s))" for t ty p resp
      by (rule effectOk_trans)
    then show ?thesis using Inr by (simp add: finishRun_def u [unfolded run2_def] del: One_nat_def)
  qed
qed

lemma created_run: "CreateRun run m = (Inr run', m') \<Longrightarrow> run' = run"
  using runs.create_result [of run m] by (auto split: if_splits)

lemma runFlow_effect:
  assumes "memoryOk (svStore s)" "hubInv (svHub s)" "permutes_list (apRooms env)" "tenantFrom r \<noteq> ''''"
  shows "effectOk D (tenantFrom r) s (snd (runFlow env inp r s))"
proof (cases "GetFlow (tenantFrom r) (inID inp) (svStore s)")
  case (Inr fl)
  have tn: "flTenantID fl = tenantFrom r" by (rule filed(3) [OF assms(1) Inr])
  obtain res m where c: "CreateRun (newRun inp fl) (svStore s) = (res, m)" by force
  have st: "effectOk D (tenantFrom r) s (s \<lparr>svStore := m\<rparr>)"
    by (intro effectOk_store tenant_run_ops(10) [OF c]) (simp add: newRun_def tn)
  obtain out ec where ex: "Execute (engineOf env (s \<lparr>svStore := m\<rparr>)) fl (svEffects s) (svClient s) = (out, ec)" by force
  let ?s1 = "s \<lparr>svStore := m, svEffects := ecStore ec, svClient := ecClient ec\<rparr>"
  have "effectOk D (tenantFrom r) ?s1 (snd (finishRun env inp fl (newRun inp fl) x ?s1))" for x
    using finishRun_effect [of ?s1 env fl "newRun inp fl"] assms by (simp add: tn newRun_def)
  moreover have s1: "effectOk D (tenantFrom r) s ?s1" using st by (simp add: effectOk_def)
  ultimately have fin: "effectOk D (tenantFrom r) s (snd (finishRun env inp fl (newRun inp fl) x ?s1))" for x
    by (blast intro: effectOk_trans)
  show ?thesis
  proof (cases res)
    case Inl': (Inl e)
    show ?thesis using st by (simp add: runFlow_def Inr c Inl')
  next
    case Inr': (Inr run)
    have run: "run = newRun inp fl" using created_run c Inr' by blast
    show ?thesis
      using fin s1 by (cases out) (simp_all add: runFlow_def Inr c Inr' run ex Let_def)
  qed
qed (simp add: runFlow_def)

text \<open>Every handler changes the store by operations of the request's tenant only, and of the hub at most channels of that tenant.\<close>

lemma handle_effect:
  assumes "memoryOk (svStore s)" "hubInv (svHub s)" "permutes_list (apRooms env)" "tenantFrom r \<noteq> ''''"
    and "orchestrated oenv workers ulower env inp r s" "storedOk (enDecodeFlow (apEngine env)) (svStore s)"
  shows "effectOk (enDecodeFlow (apEngine env)) (tenantFrom r) s (snd (handle ep env inp r s))"
  using agents_effect [OF assms(1), of _ r env inp] servers_effect [OF assms(1), of _ r env inp] testMcpServer_effect [OF assms(1), of _ r env inp]
    flows_effect [OF assms(1,6), of r inp] users_effect [OF assms(1,6), of r env inp] createTask_effect [OF assms(5,2,3,4)]
    runFlow_effect [OF assms(1-4), of _ inp]
  by (cases ep)
     (simp_all add: handleMe_def listAgents_def getAgent_def listMcpServers_def getMcpServer_def listFlows_def getFlow_def listFlowRuns_def
       getRun_def getTask_def listUsers_def getUser_def handleDashboard_def handleDashboardHistory_def Let_def split: option.splits sum.splits prod.splits)

end
