(* ===== verification/Api_Properties.thy ===== *)
theory Api_Properties
  imports Api_Router
begin

text \<open>
  Properties of requests to the API: the isolation of tenants across all components, the roles that routes need, the
  invariant of the server, and what logging in, running a flow and the dashboard do.
\<close>

section \<open>The invariant of the server\<close>

text \<open>The store files every resource under its tenant and id, every stored flow has a valid document and every stored user a
  known role, the hub has the invariant of its channels, and the history is a ring buffer of some samples.\<close>

definition serverInv :: "'c ApiEnv \<Rightarrow> 'c Server \<Rightarrow> bool" where
  "serverInv env s \<longleftrightarrow> memoryOk (svStore s) \<and> storedOk (enDecodeFlow (apEngine env)) (svStore s) \<and> hubInv (svHub s)
     \<and> (\<exists>ss. ringInv ss (svHistory s))"

lemma ringInv_latest: "ringInv ss h \<Longrightarrow> \<exists>x. Latest h = Some x"
proof (cases "ss = []")
  case True
  assume "ringInv ss h"
  with True show ?thesis by (simp add: ringInv_def Latest_def)
next
  case False
  assume inv: "ringInv ss h"
  have "(hcHead h - 1) mod hcCapacity h = int (length ss - 1) mod hcCapacity h"
    using inv False by (simp add: ringInv_def of_nat_diff mod_diff_left_eq Suc_leI)
  from ringInv_at [OF inv _ _ this] False inv show ?thesis
    by (auto simp: Latest_def ringInv_def of_nat_diff Suc_leI)
qed

lemma dashboardSample_ok:
  assumes "ringInv ss h"
  shows "\<exists>x h' ss'. dashboardSample now h = Some (x, h') \<and> ringInv ss' h'"
  using ringInv_latest [OF assms] ringInv_capture [OF assms, of now] assms
  by (auto simp: dashboardSample_def)

lemma handle_history:
  assumes "ringInv ss (svHistory s)"
  shows "\<exists>ss'. ringInv ss' (svHistory (snd (handle ep env inp r s)))"
proof -
  have "svHistory (snd (handle ep env inp r s)) = svHistory s" if "ep \<noteq> EpDashboard"
    using that
    by (cases ep) (simp_all add: handleMe_def listAgents_def createAgent_def getAgent_def updateAgent_def deleteAgent_def
        listMcpServers_def createMcpServer_def getMcpServer_def updateMcpServer_def deleteMcpServer_def testMcpServer_def
        listFlows_def createFlow_def getFlow_def updateFlow_def deleteFlow_def runFlow_def finishRun_def broadcastThen_def listFlowRuns_def
        getRun_def createTask_def getTask_def listUsers_def createUser_def getUser_def updateUser_def deleteUser_def
        handleDashboardHistory_def Let_def split: option.splits sum.splits prod.splits outcome.splits)
  moreover have "\<exists>ss'. ringInv ss' (svHistory (snd (handle EpDashboard env inp r s)))"
    using dashboardSample_ok [OF assms, of "inSample inp"] by (auto simp: handleDashboard_def Let_def)
  ultimately show ?thesis using assms by (cases "ep = EpDashboard") auto
qed

text \<open>How a request behind the middlewares ends: either nothing has changed, or the token verified and the handler of its
  route ran with the claims.\<close>

lemma protectedApi_cases:
  assumes "requiresAuth (rqPath r)"
  obtains "snd (protectedApi chi notFound now env inp r s) = s"
  | claims ep i where "Verify (apJwt env) (apManager env) now (bearerToken r) = Inr claims"
      "Allowed (rqMethod r) (rqPath r) (clRole claims)" "route chi (rqMethod r) (rqPath r) = Some (ep, i)"
      "protectedApi chi notFound now env inp r s = handle ep env (inp \<lparr>inID := i\<rparr>) (WithClaims r claims) s"
proof -
  note defs = protectedApi_def Authenticator_def Authorizer_def dispatch_def ClaimsFrom_def
  consider "bearerToken r = ''''" | e where "Verify (apJwt env) (apManager env) now (bearerToken r) = Inl e"
    | claims where "bearerToken r \<noteq> ''''" "Verify (apJwt env) (apManager env) now (bearerToken r) = Inr claims"
    by (cases "Verify (apJwt env) (apManager env) now (bearerToken r)") auto
  then show ?thesis
  proof cases
    case 1
    then show ?thesis using assms that(1) by (simp add: defs Let_def)
  next
    case (2 e)
    then show ?thesis using assms that(1) by (simp add: defs Let_def)
  next
    case (3 claims)
    show ?thesis
    proof (cases "Allowed (rqMethod r) (rqPath r) (clRole claims)")
      case False
      then show ?thesis using assms that(1) 3 by (simp add: defs Let_def WithClaims_def)
    next
      case True
      show ?thesis
      proof (cases "route chi (rqMethod r) (rqPath r)")
        case None
        then show ?thesis using assms that(1) 3 True by (simp add: defs Let_def WithClaims_def)
      next
        case (Some x)
        then show ?thesis
          using assms that(2) [OF 3(2) True, of "fst x" "snd x"] 3 True by (simp add: defs Let_def WithClaims_def case_prod_beta)
      qed
    qed
  qed
qed

lemma verified_tenant: "Verify jwt m now tok = Inr claims \<Longrightarrow> clTenantID claims \<noteq> ''''"
  by (auto simp: Verify_def split: sum.splits jwt_error.splits if_splits)

lemma tenantFrom_claims [simp]: "tenantFrom (WithClaims r claims) = clTenantID claims"
  by (simp add: tenantFrom_def TenantIDFrom_def ClaimsFrom_def WithClaims_def)

lemma orchestrated_id [simp]: "orchestrated oenv workers ulower env (inp \<lparr>inID := i\<rparr>) r s = orchestrated oenv workers ulower env inp r s"
  by (simp add: orchestrated_def)

lemma protectedApi_effect:
  assumes "serverInv env s" "permutes_list (apRooms env)" "requiresAuth (rqPath r)"
    and "\<And>claims. Verify (apJwt env) (apManager env) now (bearerToken r) = Inr claims \<Longrightarrow>
      orchestrated oenv workers ulower env inp (WithClaims r claims) s"
    and "\<And>claims. Verify (apJwt env) (apManager env) now (bearerToken r) = Inr claims \<Longrightarrow> clTenantID claims = t"
  shows "effectOk (enDecodeFlow (apEngine env)) t s (snd (protectedApi chi notFound now env inp r s))"
    and "\<exists>ss. ringInv ss (svHistory (snd (protectedApi chi notFound now env inp r s)))"
proof -
  have inv: "memoryOk (svStore s)" "hubInv (svHub s)" "storedOk (enDecodeFlow (apEngine env)) (svStore s)" "\<exists>ss. ringInv ss (svHistory s)"
    using assms(1) by (simp_all add: serverInv_def)
  show "effectOk (enDecodeFlow (apEngine env)) t s (snd (protectedApi chi notFound now env inp r s))"
  proof (rule protectedApi_cases [OF assms(3), of chi notFound now env inp s])
    fix claims ep i
    assume c: "Verify (apJwt env) (apManager env) now (bearerToken r) = Inr claims"
      "protectedApi chi notFound now env inp r s = handle ep env (inp \<lparr>inID := i\<rparr>) (WithClaims r claims) s"
    then show ?thesis
      using handle_effect [OF inv(1,2) assms(2) _ _ inv(3), of "WithClaims r claims" oenv workers ulower "inp \<lparr>inID := i\<rparr>" ep]
        verified_tenant [OF c(1)] assms(4,5) [OF c(1)] by simp
  qed simp
  show "\<exists>ss. ringInv ss (svHistory (snd (protectedApi chi notFound now env inp r s)))"
    using inv(4) handle_history by (cases rule: protectedApi_cases [OF assms(3), of chi notFound now env inp s]) auto
qed


section \<open>Reachable servers\<close>

definition NewServer :: "int \<Rightarrow> 'c \<Rightarrow> 'c Server" where
  "NewServer capacity c = \<lparr>svStore = NewMemoryStore, svClient = c, svEffects = NewMemorySideEffectStore, svHub = NewHub,
     svHistory = NewHistoryCollector capacity, svFlowRuns = [], svTasks = []\<rparr>"

text \<open>
  The states of a server in use, one request at a time: requests to the protected routes, logins, and clients of the hub
  that come, read and go. Clock, encoders and the rest of the environment may differ from request to request; the
  decoder \<open>D\<close> of flow documents is the same.
\<close>

inductive server_reachable :: "(string \<Rightarrow> (string, FlowDef) result) \<Rightarrow> 'c Server \<Rightarrow> bool"
  for D :: "string \<Rightarrow> (string, FlowDef) result" where
  srv_new: "server_reachable D (NewServer capacity c)"
| srv_request: "server_reachable D s \<Longrightarrow> enDecodeFlow (apEngine env) = D \<Longrightarrow> permutes_list (apRooms env) \<Longrightarrow> requiresAuth (rqPath r) \<Longrightarrow>
     (\<forall>claims. Verify (apJwt env) (apManager env) now (bearerToken r) = Inr claims \<longrightarrow>
        orchestrated oenv workers ulower env inp (WithClaims r claims) s) \<Longrightarrow>
     server_reachable D (snd (protectedApi chi notFound now env inp r s))"
| srv_login: "server_reachable D s \<Longrightarrow> server_reachable D (snd (handleLogin env inp r s))"
| srv_connect: "server_reachable D s \<Longrightarrow> server_reachable D (s \<lparr>svHub := snd (Register t (svHub s))\<rparr>)"
| srv_disconnect: "server_reachable D s \<Longrightarrow> glookup (hbHeap (svHub s)) c = Some x \<Longrightarrow> deregister (cnTenant x) c (svHub s) = Some h \<Longrightarrow>
     server_reachable D (s \<lparr>svHub := h\<rparr>)"
| srv_receive: "server_reachable D s \<Longrightarrow> receive c (svHub s) = Some (d, h) \<Longrightarrow> server_reachable D (s \<lparr>svHub := h\<rparr>)"

lemma ensureSeed_ok:
  assumes "memoryOk m" "storedOk D m"
  shows "memoryOk (ensureSeed env inp m) \<and> storedOk D (ensureSeed env inp m)"
proof -
  have step: "memoryOk (snd (store_step op m')) \<and> storedOk D (snd (store_step op m'))"
    if "memoryOk m'" "storedOk D m'" "opValid D op" for op m'
    using that by (simp add: memoryOk_step storedOk_step)
  have tenant: "memoryOk (snd (CreateTenant t m)) \<and> storedOk D (snd (CreateTenant t m))" for t
    using step [OF assms, of "OpCreateTenant t"] by simp
  have user: "memoryOk (snd (CreateUser u m')) \<and> storedOk D (snd (CreateUser u m'))"
    if "memoryOk m'" "storedOk D m'" "usRole u = RoleOwner" for u m'
    using step [OF that(1,2), of "OpCreateUser u"] that(3) by (simp add: knownRole_def)
  show ?thesis
    using assms tenant user by (simp add: ensureSeed_def Let_def split: sum.splits)
qed

lemma handleLogin_fields:
  "svHub (snd (handleLogin env inp r s)) = svHub s" "svHistory (snd (handleLogin env inp r s)) = svHistory s"
  "svStore (snd (handleLogin env inp r s)) = svStore s \<or> svStore (snd (handleLogin env inp r s)) = ensureSeed env inp (svStore s)"
  by (auto simp: handleLogin_def Let_def split: option.splits sum.splits)

definition inv_of :: "(string \<Rightarrow> (string, FlowDef) result) \<Rightarrow> 'c Server \<Rightarrow> bool" where
  "inv_of D s \<longleftrightarrow> memoryOk (svStore s) \<and> storedOk D (svStore s) \<and> hubInv (svHub s) \<and> (\<exists>ss. ringInv ss (svHistory s))"

lemma serverInv_of: "enDecodeFlow (apEngine env) = D \<Longrightarrow> serverInv env s = inv_of D s"
  by (simp add: serverInv_def inv_of_def)

lemma effect_inv: "effectOk D t s s' \<Longrightarrow> inv_of D s \<Longrightarrow> \<exists>ss. ringInv ss (svHistory s') \<Longrightarrow> inv_of D s'"
  by (auto simp: effectOk_def inv_of_def intro: tenant_run_ok tenant_run_stored)

lemma reachable_inv: "server_reachable D s \<Longrightarrow> inv_of D s"
proof (induction rule: server_reachable.induct)
  case (srv_new capacity c)
  show ?case
    using ringInv_new hubInv_new memoryOk_new
    by (auto simp: inv_of_def NewServer_def storedOk_def GetFlow_def GetUser_def tableGet_def NewMemoryStore_def)
next
  case (srv_request s env r now oenv workers ulower inp chi notFound)
  obtain t where t: "\<And>claims. Verify (apJwt env) (apManager env) now (bearerToken r) = Inr claims \<Longrightarrow> clTenantID claims = t"
    by (cases "Verify (apJwt env) (apManager env) now (bearerToken r)") auto
  have si: "serverInv env s" using srv_request.IH serverInv_of [OF srv_request.hyps(2)] by blast
  note eff = protectedApi_effect [where chi = chi and notFound = notFound and now = now and oenv = oenv and workers = workers and ulower = ulower and inp = inp,
      OF si srv_request.hyps(3,4) srv_request.hyps(5) [rule_format] t]
  show ?case
    using effect_inv [OF eff(1) [unfolded srv_request.hyps(2)] srv_request.IH eff(2)] .
next
  case (srv_login s env inp r)
  have "memoryOk (svStore (snd (handleLogin env inp r s))) \<and> storedOk D (svStore (snd (handleLogin env inp r s)))"
    using handleLogin_fields(3) [of env inp r s] ensureSeed_ok [of "svStore s" D env inp] srv_login.IH by (auto simp: inv_of_def)
  then show ?case using srv_login.IH by (simp add: inv_of_def handleLogin_fields)
next
  case (srv_disconnect s c x h)
  then show ?case using deregister_ok [of "svHub s" c x] by (auto simp: inv_of_def)
qed (auto simp: inv_of_def hubInv_register receive_inv)

section \<open>Isolation and the invariant\<close>

text \<open>C11: every server that requests can reach is well formed: each resource is filed under its own tenant and id, each
  stored flow has a document that the engine accepts, each stored user has one of the three roles, exactly the registered
  clients have open channels, and the history is never read out of range.\<close>

theorem server_invariant:
  assumes "server_reachable D s"
  shows "memoryOk (svStore s) \<and> hubInv (svHub s)
    \<and> (\<forall>t i fl. GetFlow t i (svStore s) = Inr fl \<longrightarrow> is_ok (ParseAndValidate D (flFlowJSON fl)))
    \<and> (\<forall>t i u. GetUser t i (svStore s) = Inr u \<longrightarrow> usRole u \<in> {RoleViewer, RoleOperator, RoleOwner})
    \<and> Latest (svHistory s) \<noteq> None"
  using reachable_inv [OF assms] ringInv_latest
  by (fastforce simp: inv_of_def storedOk_def validDoc_def knownRole_def)



section \<open>Roles of the routes\<close>

text \<open>What is used of chi: a pattern without a parameter matches only itself, and the path of a match is the pattern with the
  value in place of the parameter.\<close>

definition chiOk :: "chi \<Rightarrow> bool" where
  "chiOk chi \<longleftrightarrow> (\<forall>p path. CHR ''{'' \<notin> set p \<and> chi p path \<noteq> None \<longrightarrow> path = p)
     \<and> (\<forall>pre name post path i. chi (pre @ ''{'' @ name @ ''}'' @ post) path = Some i \<longrightarrow> path = pre @ i @ post)"

text \<open>The role an endpoint is meant for: reading needs a viewer, running a flow or creating a task an operator, all else an
  owner.\<close>

definition endpointRole :: "endpoint \<Rightarrow> string" where
  "endpointRole ep =
     (if ep \<in> {EpRunFlow, EpCreateTask} then RoleOperator
      else if ep \<in> {EpCreateAgent, EpUpdateAgent, EpDeleteAgent, EpCreateMcpServer, EpUpdateMcpServer, EpDeleteMcpServer, EpTestMcpServer,
        EpCreateFlow, EpUpdateFlow, EpDeleteFlow, EpCreateUser, EpUpdateUser, EpDeleteUser} then RoleOwner
      else RoleViewer)"

lemma chi_literal: "chiOk chi \<Longrightarrow> chi p path \<noteq> None \<Longrightarrow> CHR ''{'' \<notin> set p \<Longrightarrow> path = p"
  by (auto simp: chiOk_def)

lemma chi_param: "chiOk chi \<Longrightarrow> chi p path \<noteq> None \<Longrightarrow> p = pre @ ''{'' @ name @ ''}'' @ post \<Longrightarrow> \<exists>i. path = pre @ i @ post"
  unfolding chiOk_def by blast

lemma required_viewer: "HasRole role (RequiredRole method path) \<Longrightarrow> HasRole role RoleViewer"
  by (auto simp: RequiredRole_def Let_def HasRole_def roleRank_def split: if_splits)

lemma takeWhile_query: "CHR ''?'' \<notin> set p \<Longrightarrow> takeWhile (\<lambda>c. c \<noteq> CHR ''?'') (p @ rest) = p @ takeWhile (\<lambda>c. c \<noteq> CHR ''?'') rest"
  by (induction p) auto

lemma required_owner:
  assumes "HasPrefix path p" "HasPrefix p ''/api/v1/''" "CHR ''?'' \<notin> set p" "method \<notin> {''GET'', ''HEAD'', ''POST''}"
  shows "RequiredRole method path = RoleOwner"
proof -
  obtain rest where "path = p @ rest" using assms(1) by (auto simp: HasPrefix_def prefix_def)
  then have "prefix p (takeWhile (\<lambda>c. c \<noteq> CHR ''?'') path)" using assms(3) by (simp add: takeWhile_query)
  then have "HasPrefix (takeWhile (\<lambda>c. c \<noteq> CHR ''?'') path) ''/api/v1/''"
    using assms(2) by (auto simp: HasPrefix_def intro: prefix_order.trans)
  then show ?thesis using assms(4) by (simp add: RequiredRole_def Let_def)
qed

lemma prefix_append_cases: "prefix q (p @ x) \<Longrightarrow> prefix q p \<or> prefix p q"
  using prefix_same_cases [of q "p @ x" p] by auto

lemma find_in: "find P xs = Some x \<Longrightarrow> x \<in> set xs \<and> P x"
  by (auto simp: find_Some_iff)

lemma required_post:
  assumes "path = p @ rest" "CHR ''?'' \<notin> set p" "prefix ''/api/v1/'' p" "\<not> prefix p ''/api/v1/auth/login''" "\<not> prefix p ''/api/v1/tasks''"
    and "\<not> prefix ''/api/v1/flows/'' p" "\<not> prefix p ''/api/v1/flows/''"
  shows "RequiredRole ''POST'' path = RoleOwner"
proof -
  have t: "takeWhile (\<lambda>c. c \<noteq> CHR ''?'') path = p @ takeWhile (\<lambda>c. c \<noteq> CHR ''?'') rest"
    using assms(1,2) by (simp add: takeWhile_query)
  have n: "p @ x \<noteq> q" if "\<not> prefix p q" for q x using that by (metis prefixI)
  have "\<not> prefix ''/api/v1/flows/'' (p @ x)" for x
    using prefix_append_cases [of "''/api/v1/flows/''" p x] assms(6,7) by argo
  moreover have "prefix ''/api/v1/'' (p @ x)" for x using assms(3) by (rule prefix_prefix)
  ultimately show ?thesis
    using n [OF assms(4)] n [OF assms(5)] by (simp add: RequiredRole_def t HasPrefix_def Let_def)
qed

lemma operator_post: "HasRole role (RequiredRole ''POST'' (''/api/v1/flows/'' @ rest)) \<Longrightarrow> HasRole role RoleOperator"
  by (auto simp: RequiredRole_def Let_def HasRole_def roleRank_def HasPrefix_def split: if_splits)

text \<open>The table, route by route: how the role of the endpoint comes out of the method and of the fixed part of the pattern.\<close>

definition fixedPart :: "string \<Rightarrow> string" where
  "fixedPart p = takeWhile (\<lambda>c. c \<noteq> CHR ''{'') p"

definition patternOk :: "string \<Rightarrow> bool" where
  "patternOk p \<longleftrightarrow> CHR ''{'' \<notin> set p \<or> p = fixedPart p @ ''{'' @ takeWhile (\<lambda>c. c \<noteq> CHR ''}'') (tl (dropWhile (\<lambda>c. c \<noteq> CHR ''{'') p))
     @ ''}'' @ tl (dropWhile (\<lambda>c. c \<noteq> CHR ''}'') p)"

definition roleCase :: "string \<Rightarrow> string \<Rightarrow> endpoint \<Rightarrow> bool" where
  "roleCase m p ep \<longleftrightarrow> (let pre = fixedPart p in
     endpointRole ep = RoleViewer
     \<or> endpointRole ep = RoleOwner \<and> m \<notin> {''GET'', ''HEAD'', ''POST''} \<and> HasPrefix pre ''/api/v1/'' \<and> CHR ''?'' \<notin> set pre
     \<or> endpointRole ep = RoleOwner \<and> m = ''POST'' \<and> CHR ''?'' \<notin> set pre \<and> prefix ''/api/v1/'' pre \<and> \<not> prefix pre ''/api/v1/auth/login''
        \<and> \<not> prefix pre ''/api/v1/tasks'' \<and> \<not> prefix ''/api/v1/flows/'' pre \<and> \<not> prefix pre ''/api/v1/flows/''
     \<or> endpointRole ep = RoleOperator \<and> m = ''POST'' \<and> pre = ''/api/v1/flows/''
     \<or> CHR ''{'' \<notin> set p \<and> RequiredRole m p = endpointRole ep)"

lemma routes_table: "list_all (\<lambda>(m, p, ep). patternOk p \<and> roleCase m p ep) routes"
  by code_simp

lemma chi_fixedPart:
  assumes "chiOk chi" "chi p path \<noteq> None" "patternOk p"
  shows "\<exists>rest. path = fixedPart p @ rest"
proof (cases "CHR ''{'' \<in> set p")
  case True
  then have "p = fixedPart p @ ''{'' @ takeWhile (\<lambda>c. c \<noteq> CHR ''}'') (tl (dropWhile (\<lambda>c. c \<noteq> CHR ''{'') p))
     @ ''}'' @ tl (dropWhile (\<lambda>c. c \<noteq> CHR ''}'') p)"
    using assms(3) unfolding patternOk_def by argo
  from chi_param [OF assms(1,2) this] show ?thesis by blast
next
  case False
  then have "fixedPart p = p" unfolding fixedPart_def by (auto simp: takeWhile_eq_all_conv)
  then show ?thesis using chi_literal [OF assms(1,2) False] by simp
qed


section \<open>Running flows, logging in, the dashboard\<close>

text \<open>The run after its execution has returned.\<close>

lemma finishRun_records:
  assumes "hubInv (svHub s)" "permutes_list (apRooms env)" "flTenantID fl \<noteq> ''''" "ruTenantID run = flTenantID fl"
    and "GetRun (ruTenantID run) (ruID run) (svStore s) = Inr run0" "finishRun env inp fl run res s = (resp, s')"
  shows "resp = writeJSON env 200 (BMap [(''run_id'', VString (ruID run))]) \<and> svEffects s' = svEffects s
    \<and> GetRun (ruTenantID run) (ruID run) (svStore s') = Inr (run \<lparr>ruStatus := xrStatus res, ruFinishedAt := Some (inNow inp 1),
        ruLogs := xrLogs res, ruResult := xrResult res\<rparr>)
    \<and> gget 0 (svFlowRuns s') (xrStatus res) = Suc (gget 0 (svFlowRuns s) (xrStatus res))"
proof -
  define run2 where "run2 = run \<lparr>ruStatus := xrStatus res, ruFinishedAt := Some (inNow inp 1), ruLogs := xrLogs res, ruResult := xrResult res\<rparr>"
  have id: "ruTenantID run2 = ruTenantID run" "ruID run2 = ruID run" by (simp_all add: run2_def)
  obtain m where u: "UpdateRun run2 (svStore s) = (Inr run2, m)"
    using runs.update_result [of run2 "svStore s"] assms(5) id by (cases "UpdateRun run2 (svStore s)") auto
  have got: "GetRun (ruTenantID run) (ruID run) m = Inr run2"
    using runs.update_get [of "ruTenantID run" "ruID run" run2 "svStore s"] u id by simp
  let ?s = "s \<lparr>svStore := m, svFlowRuns := incCounter (xrStatus res) (svFlowRuns s)\<rparr>"
  let ?b = "broadcastThen env (inNow inp 2) (flTenantID fl) ''run_update''
     (VMap [(''run_id'', VString (ruID run)), (''flow_id'', VString (flID fl)), (''status'', VString (xrStatus res))])
     (writeJSON env 200 (BMap [(''run_id'', VString (ruID run))])) ?s"
  have b: "?b = (resp, s')"
    using u [unfolded run2_def] id assms(6) by (simp add: finishRun_def run2_def del: One_nat_def)
  have ok: "fst ?b = writeJSON env 200 (BMap [(''run_id'', VString (ruID run))])" "svStore (snd ?b) = m"
    using broadcastThen_ok(1,2) [of ?s env "flTenantID fl"] assms(1-3) by simp_all
  have "svFlowRuns (snd ?b) = incCounter (xrStatus res) (svFlowRuns s)" "svEffects (snd ?b) = svEffects s"
    by (simp_all add: broadcastThen_def split: option.splits)
  then show ?thesis
    using ok got unfolding b by (simp add: run2_def incCounter_def)
qed

text \<open>C13: what a request to run a flow leaves behind. For an enabled flow of the tenant and a fresh run id, when the execution returns, the
  answer is 200 with the run id, the stored run carries the status, logs and result of the execution and the time it
  finished, and its status is counted. When the execution panics, the answer is that of the recovering middleware and the stored run
  says running for ever.\<close>

theorem runFlow_records:
  assumes "serverInv env s" "permutes_list (apRooms env)" "tenantFrom r \<noteq> ''''"
    and "GetFlow (tenantFrom r) (inID inp) (svStore s) = Inr fl" "flEnabled fl"
    and "inUuid inp \<noteq> ''''" "\<not> is_ok (GetRun (tenantFrom r) (inUuid inp) (svStore s))"
    and "Execute (engineOf env s) fl (svEffects s) (svClient s) = (out, ec)" "runFlow env inp r s = (resp, s')"
  shows "svEffects s' = ecStore ec \<and> (case out of
      Returned res \<Rightarrow> resp = writeJSON env 200 (BMap [(''run_id'', VString (inUuid inp))])
        \<and> GetRun (tenantFrom r) (inUuid inp) (svStore s') = Inr ((newRun inp fl) \<lparr>ruStatus := xrStatus res,
             ruFinishedAt := Some (inNow inp 1), ruLogs := xrLogs res, ruResult := xrResult res\<rparr>)
        \<and> gget 0 (svFlowRuns s') (xrStatus res) = Suc (gget 0 (svFlowRuns s) (xrStatus res))
    | Panicked \<Rightarrow> resp = apRecovered env
        \<and> GetRun (tenantFrom r) (inUuid inp) (svStore s') = Inr (newRun inp fl) \<and> ruStatus (newRun inp fl) = RunStatusRunning)"
proof -
  have inv: "memoryOk (svStore s)" "hubInv (svHub s)" using assms(1) by (simp_all add: serverInv_def)
  have tn: "flTenantID fl = tenantFrom r" by (rule filed(3) [OF inv(1) assms(4)])
  have id: "ruTenantID (newRun inp fl) = tenantFrom r" "ruID (newRun inp fl) = inUuid inp" by (simp_all add: newRun_def tn)
  obtain m where c: "CreateRun (newRun inp fl) (svStore s) = (Inr (newRun inp fl), m)"
    using runs.create_result [of "newRun inp fl" "svStore s"] assms(6,7) id by (cases "CreateRun (newRun inp fl) (svStore s)") auto
  have got: "GetRun (tenantFrom r) (inUuid inp) m = Inr (newRun inp fl)"
    using runs.create_get [of "tenantFrom r" "inUuid inp" "newRun inp fl" "svStore s"] c id by simp
  have same: "engineOf env (s \<lparr>svStore := m\<rparr>) = engineOf env s"
    using c by (auto simp: engineOf_def CreateRun_def GetAgent_def GetMcpServer_def Let_def split: prod.splits)
  let ?s1 = "s \<lparr>svStore := m, svEffects := ecStore ec, svClient := ecClient ec\<rparr>"
  show ?thesis
  proof (cases out)
    case Panicked
    then show ?thesis using assms(4,5,8,9) c got same by (auto simp: runFlow_def Let_def newRun_def)
  next
    case (Returned res)
    have "finishRun env inp fl (newRun inp fl) res ?s1 = (resp, s')"
      using assms(4,5,8,9) c same Returned by (simp add: runFlow_def Let_def)
    from finishRun_records [OF _ assms(2) _ _ _ this] show ?thesis
      using inv(2) assms(3) tn got id Returned by simp
  qed
qed


lemma countLoop_lookup:
  "glookup (countLoop ks counts) k = map_option (\<lambda>n. n + length (filter (\<lambda>x. x = k) ks)) (glookup counts k)"
  by (induction ks arbitrary: counts) (auto split: option.splits simp: option.map_comp comp_def option.map_ident)

text \<open>the counters of the dashboard are exact: for each of the five states of a run, and each of the four of a task, the number of
  runs or tasks in it, also when it is none; and no other key.\<close>

theorem status_counts:
  "glookup (runStatusCounts rs) k =
     (if k \<in> {RunStatusSuccess, RunStatusFailed, RunStatusRolledBack, RunStatusPending, RunStatusRunning}
      then Some (length (filter (\<lambda>x. ruStatus x = k) rs)) else None)
   \<and> glookup (taskStatusCounts ts) k =
     (if k \<in> {TaskStatusSuccess, TaskStatusFailed, TaskStatusPending, TaskStatusRunning}
      then Some (length (filter (\<lambda>x. taStatus x = k) ts)) else None)"
proof -
  have f: "length (filter (\<lambda>x. x = k) (map g xs)) = length (filter (\<lambda>x. g x = k) xs)" for g :: "'x \<Rightarrow> string" and xs
    by (simp add: filter_map comp_def)
  show ?thesis
    unfolding runStatusCounts_def taskStatusCounts_def countLoop_lookup f by (simp add: glookup_def)
qed


section \<open>Instances\<close>

definition demoJwt :: Jwt where
  "demoJwt = \<lparr>jwDate = (\<lambda>t. t), jwSign = (\<lambda>k c. Inr ''own''),
     jwParse = (\<lambda>kf t tok. if tok = ''own'' then Inr (sampleClaims \<lparr>clRole := RoleOwner\<rparr>, True) else Inl JwtOther)\<rparr>"

definition demoApi :: "FlowDef \<Rightarrow> unit ApiEnv" where
  "demoApi def = \<lparr>apEncode = (\<lambda>b. ''{}''), apDecodeAgent = (\<lambda>b. None), apDecodeServer = (\<lambda>b. None), apDecodeFlow = (\<lambda>b. Some fileFlow),
     apDecodeTask = (\<lambda>b. None), apDecodeLogin = (\<lambda>b. Some \<lparr>lrUsername = ''admin'', lrPassword = ''admin''\<rparr>), apDecodeUser = (\<lambda>b. None),
     apJwt = demoJwt, apManager = NewManager ''secret'' 60, apHash = (\<lambda>p. Inr p), apCompare = (\<lambda>h p. h = p),
     apListTools = (\<lambda>t c. (Inr [], c)), apEngine = sampleEnv def, apStoreErr = (\<lambda>e. ''''), apGraphErr = (\<lambda>e. ''''),
     apRecovered = \<lparr>rsStatus = 500, rsBody = ''''\<rparr>, apSeedUsername = ''admin'', apSeedPassword = ''admin'', apRange = id, apRooms = id,
     apMarshal = (\<lambda>m. Inr ''{}'')\<rparr>"

definition demoInput :: "unit Input" where
  "demoInput = \<lparr>inBody = '''', inID = ''f1'', inUuid = ''x1'', inNow = int, inSample = zeroSample,
     inDistribute = (\<lambda>t m c. (Inl ErrInvalid, m, c))\<rparr>"

definition demoChi :: chi where
  "demoChi p path = (if p = path \<and> CHR ''{'' \<notin> set p then Some '''' else None)"

definition demoRequest :: Request where
  "demoRequest = requestTo ''POST'' ''/api/v1/flows'' ''Bearer own''"

definition demoServer :: "unit Server" where
  "demoServer = snd (protectedApi demoChi noContent 0 (demoApi sampleFlow) demoInput demoRequest (NewServer 3 ()))"

lemma demo_orchestrated: "orchestrated oenv workers ulower (demoApi def) inp r s"
  by (simp add: orchestrated_def demoApi_def)

lemma demo_env:
  "permutes_list (apRooms (demoApi def))" "requiresAuth (rqPath demoRequest)" "chiOk demoChi"
  by (auto simp: demoApi_def permutes_list_def demoRequest_def requestTo_def requiresAuth_def chiOk_def demoChi_def)

lemma demoServer_reachable: "server_reachable (enDecodeFlow (apEngine (demoApi sampleFlow))) demoServer"
  unfolding demoServer_def using demo_orchestrated demo_env by (intro srv_request [OF srv_new]) auto

lemma demo_claims:
  "Verify (apJwt (demoApi def)) (apManager (demoApi def)) now (bearerToken demoRequest) = Inr claims \<Longrightarrow> clTenantID claims = ''t1''"
  by (auto simp: Verify_def demoApi_def demoJwt_def sampleClaims_def split: if_splits)

lemma demo_created: "is_ok (GetFlow ''t1'' ''x1'' (svStore demoServer))"
  by code_simp

theorem server_invariant_witness: "memoryOk (svStore demoServer) \<and> is_ok (GetFlow ''t1'' ''x1'' (svStore demoServer))"
  using server_invariant [OF demoServer_reachable] demo_created by simp



definition panicServer :: "unit Server" where
  "panicServer = (NewServer 3 ()) \<lparr>svStore := snd (CreateFlow fileFlow NewMemoryStore)\<rparr>"

definition runRequest :: Request where
  "runRequest = WithClaims (requestTo ''POST'' ''/api/v1/flows/f1/run'' ''Bearer own'') sampleClaims"

lemma panicServer_inv: "serverInv (demoApi panicFlow) panicServer"
proof -
  have "inv_of (enDecodeFlow (apEngine (demoApi panicFlow))) (NewServer 3 ())" by (rule reachable_inv [OF srv_new])
  moreover have "validDoc (enDecodeFlow (apEngine (demoApi panicFlow))) fileFlow" by code_simp
  ultimately show ?thesis
    using memoryOk_step [of NewMemoryStore "OpCreateFlow fileFlow"] storedOk_step [of _ NewMemoryStore "OpCreateFlow fileFlow"]
    by (auto simp: serverInv_def inv_of_def panicServer_def NewServer_def)
qed

theorem runFlow_records_witness:
  "fst (runFlow (demoApi panicFlow) demoInput runRequest panicServer) = \<lparr>rsStatus = 500, rsBody = ''''\<rparr>
   \<and> GetRun ''t1'' ''x1'' (svStore (snd (runFlow (demoApi panicFlow) demoInput runRequest panicServer))) = Inr (newRun demoInput fileFlow)
   \<and> Value (svEffects (snd (runFlow (demoApi panicFlow) demoInput runRequest panicServer))) ''file'' ''/tmp/a'' = Some (VString ''v'')"
proof -
  let ?x = "Execute (engineOf (demoApi panicFlow) panicServer) fileFlow (svEffects panicServer) (svClient panicServer)"
  let ?y = "runFlow (demoApi panicFlow) demoInput runRequest panicServer"
  have e: "fst ?x = Panicked" "Value (ecStore (snd ?x)) ''file'' ''/tmp/a'' = Some (VString ''v'')" by code_simp+
  have f: "tenantFrom runRequest = ''t1''" "GetFlow ''t1'' (inID demoInput) (svStore panicServer) = Inr fileFlow" "flEnabled fileFlow"
    "inUuid demoInput = ''x1''" "\<not> is_ok (GetRun ''t1'' ''x1'' (svStore panicServer))" by code_simp+
  have x: "?x = (Panicked, snd ?x)" using e(1) by (metis prod.collapse)
  have y: "?y = (fst ?y, snd ?y)" by simp
  from runFlow_records [OF panicServer_inv demo_env(1) _ _ f(3) _ _ x y] show ?thesis
    using f e(2) by (simp add: demoApi_def)
qed

end
