(* ===== verification/Api_Chat.thy ===== *)
theory Api_Chat
  imports Api_Properties
begin

text \<open>
  The WebSocket endpoint (\<open>internal/api/ws.go\<close>) and the chat with an agent (\<open>internal/api/chat.go\<close>).

  A connection is accepted or refused by \<open>acceptWS\<close>; each frame that the read pump gets is one \<open>chatFrame\<close>; when reading
  fails, \<open>closeWS\<close> runs the deferred \<open>deregister\<close>. The bytes on the wire, the upgrade and the greeting are left out. \<open>None\<close> is a panic of the
  hub. The text of an error is a parameter.
\<close>

section \<open>Chat\<close>

datatype chat_err =
    ChatGetAgent string store_error
  | ChatNoSkills
  | ChatGetServer string string store_error
  | ChatTransport string string
  | ChatCallTool string string string

text \<open>The loop over the skills of the agent, with the texts so far.\<close>

fun chatSkills :: "'c ApiEnv \<Rightarrow> string \<Rightarrow> Agent \<Rightarrow> string \<Rightarrow> Memory \<Rightarrow> Skill list \<Rightarrow> string list \<Rightarrow> 'c \<Rightarrow> (chat_err, string list) result \<times> 'c" where
  "chatSkills env tenantID agent content m [] outputs c = (Inr outputs, c)"
| "chatSkills env tenantID agent content m (sk # sks) outputs c =
     (case GetMcpServer tenantID (skServerID sk) m of
        Inl e \<Rightarrow> (Inl (ChatGetServer (skServerID sk) (skName sk) e), c)
      | Inr server \<Rightarrow>
          (case TransportFromServer (enDecodeTransport (apEngine env)) (msvTransport server) of
             Inl e \<Rightarrow> (Inl (ChatTransport (msvID server) e), c)
           | Inr transport \<Rightarrow>
               (case enCallTool (apEngine env) transport (skTool sk)
                       [(''input'', VString content), (''prompt'', VString (agSystemPrompt agent))] c of
                  (Inl e, c') \<Rightarrow> (Inl (ChatCallTool (skTool sk) (msvID server) e), c')
                | (Inr res, c') \<Rightarrow> chatSkills env tenantID agent content m sks (outputs @ [CallToolResult res]) c')))"

definition chatAgent :: "'c ApiEnv \<Rightarrow> string \<Rightarrow> string \<Rightarrow> string \<Rightarrow> Memory \<Rightarrow> 'c \<Rightarrow> (chat_err, string) result \<times> 'c" where
  "chatAgent env tenantID agentID content m c = (case GetAgent tenantID agentID m of
      Inl e \<Rightarrow> (Inl (ChatGetAgent agentID e), c)
    | Inr agent \<Rightarrow>
        (if agSkills agent = [] then (Inl ChatNoSkills, c)
         else apfst (map_res (\<lambda>outputs. Join outputs newline)) (chatSkills env tenantID agent content m (agSkills agent) [] c)))"

section \<open>The connection\<close>

record chatMessage =
  cmType :: string
  cmAgentID :: string
  cmContent :: string

definition broadcastChat :: "'c ApiEnv \<Rightarrow> time \<Rightarrow> string \<Rightarrow> string \<Rightarrow> string \<Rightarrow> string \<Rightarrow> 'c Server \<Rightarrow> 'c Server option" where
  "broadcastChat env t tenantID role content agentID s =
     (let payload = [(''role'', VString role), (''content'', VString content)];
          payload' = (if agentID \<noteq> '''' then gput ''agent_id'' (VString agentID) payload else payload)
      in map_option (\<lambda>h. s \<lparr>svHub := h\<rparr>) (Broadcast (apMarshal env) (apRooms env) t tenantID ''agent_message'' (VMap payload') (svHub s)))"

text \<open>The agent a frame is for: the one it names, or the first enabled one.\<close>

definition chosenAgent :: "'c ApiEnv \<Rightarrow> string \<Rightarrow> chatMessage \<Rightarrow> Memory \<Rightarrow> string" where
  "chosenAgent env tenantID msg m =
     (if cmAgentID msg \<noteq> '''' then cmAgentID msg
      else (case find agEnabled (ListAgents (apRange env) tenantID m) of Some a \<Rightarrow> agID a | None \<Rightarrow> ''''))"

definition chatTurn :: "'c ApiEnv \<Rightarrow> (chat_err \<Rightarrow> string) \<Rightarrow> (nat \<Rightarrow> time) \<Rightarrow> string \<Rightarrow> string \<Rightarrow> string \<Rightarrow> 'c Server \<Rightarrow> 'c Server option" where
  "chatTurn env errText now tenantID agentID content s =
     Option.bind (broadcastChat env (now 0) tenantID ''user'' content agentID s) (\<lambda>s1.
       case chatAgent env tenantID agentID content (svStore s1) (svClient s1) of
         (Inl e, c) \<Rightarrow> broadcastChat env (now 1) tenantID ''system'' (''error: '' @ errText e) agentID (s1 \<lparr>svClient := c\<rparr>)
       | (Inr reply, c) \<Rightarrow> broadcastChat env (now 1) tenantID ''assistant'' reply agentID (s1 \<lparr>svClient := c\<rparr>))"

definition chatFrame :: "'c ApiEnv \<Rightarrow> (string \<Rightarrow> chatMessage option) \<Rightarrow> (chat_err \<Rightarrow> string) \<Rightarrow> (nat \<Rightarrow> time) \<Rightarrow> Claims \<Rightarrow> string
    \<Rightarrow> 'c Server \<Rightarrow> 'c Server option" where
  "chatFrame env decode errText now claims data s = (case decode data of
      None \<Rightarrow> Some s
    | Some msg \<Rightarrow>
        (if cmType msg \<noteq> ''chat'' \<or> cmContent msg = '''' then Some s
         else let agentID = chosenAgent env (clTenantID claims) msg (svStore s) in
           if agentID = '''' then broadcastChat env (now 0) (clTenantID claims) ''system'' ''no enabled agent available'' '''' s
           else chatTurn env errText now (clTenantID claims) agentID (cmContent msg) s))"

definition acceptWS :: "'c ApiEnv \<Rightarrow> time \<Rightarrow> string \<Rightarrow> 'c Server \<Rightarrow> Response + (Claims \<times> nat \<times> 'c Server)" where
  "acceptWS env now token s =
     (if token = '''' then Inl (writeError env 401 ''missing token'')
      else (case Verify (apJwt env) (apManager env) now token of
        Inl _ \<Rightarrow> Inl (writeError env 401 ''invalid or expired token'')
      | Inr claims \<Rightarrow> (case Register (clTenantID claims) (svHub s) of (c, h) \<Rightarrow> Inr (claims, c, s \<lparr>svHub := h\<rparr>))))"

definition closeWS :: "Claims \<Rightarrow> nat \<Rightarrow> 'c Server \<Rightarrow> 'c Server option" where
  "closeWS claims c s = map_option (\<lambda>h. s \<lparr>svHub := h\<rparr>) (deregister (clTenantID claims) c (svHub s))"

text \<open>A whole connection: the frames that arrive before reading fails, one after the other.\<close>

fun readPump :: "'c ApiEnv \<Rightarrow> (string \<Rightarrow> chatMessage option) \<Rightarrow> (chat_err \<Rightarrow> string) \<Rightarrow> (nat \<Rightarrow> nat \<Rightarrow> time) \<Rightarrow> Claims \<Rightarrow> string list
    \<Rightarrow> 'c Server \<Rightarrow> 'c Server option" where
  "readPump env decode errText now claims [] s = Some s"
| "readPump env decode errText now claims (d # ds) s =
     Option.bind (chatFrame env decode errText (now (length ds)) claims d s) (readPump env decode errText now claims ds)"

definition handleWS :: "'c ApiEnv \<Rightarrow> (string \<Rightarrow> chatMessage option) \<Rightarrow> (chat_err \<Rightarrow> string) \<Rightarrow> (nat \<Rightarrow> nat \<Rightarrow> time) \<Rightarrow> time \<Rightarrow> string \<Rightarrow> string list
    \<Rightarrow> 'c Server \<Rightarrow> Response + 'c Server option" where
  "handleWS env decode errText now t token frames s = (case acceptWS env t token s of
      Inl resp \<Rightarrow> Inl resp
    | Inr (claims, c, s1) \<Rightarrow> Inr (Option.bind (readPump env decode errText now claims frames s1) (closeWS claims c)))"

section \<open>Chat stays within the tenant\<close>

text \<open>What a frame leaves alone: the store, and the channels of other tenants.\<close>

definition chatOk :: "string \<Rightarrow> 'c Server \<Rightarrow> 'c Server \<Rightarrow> bool" where
  "chatOk t s s' \<longleftrightarrow> svStore s' = svStore s \<and> svEffects s' = svEffects s \<and> hubOnly t (svHub s) (svHub s') \<and> hubInv (svHub s')
     \<and> hbClients (svHub s') = hbClients (svHub s) \<and> (\<forall>c x. glookup (hbHeap (svHub s)) c = Some x \<longrightarrow>
          (\<exists>x'. glookup (hbHeap (svHub s')) c = Some x' \<and> cnTenant x' = cnTenant x))"

lemma chatOk_refl: "hubInv (svHub s) \<Longrightarrow> chatOk t s s"
  by (simp add: chatOk_def)

lemma hubOnly_trans: "hubOnly t h h' \<Longrightarrow> hubOnly t h' h'' \<Longrightarrow> hubOnly t h h''"
  by (auto simp: hubOnly_def)

lemma chatOk_trans: "chatOk t s s' \<Longrightarrow> chatOk t s' s'' \<Longrightarrow> chatOk t s s''"
  unfolding chatOk_def by (auto intro: hubOnly_trans) metis

lemma chatOk_client [simp]: "chatOk t (s \<lparr>svClient := c\<rparr>) s' = chatOk t s s'"
  by (simp add: chatOk_def)

lemma broadcastChat_ok:
  assumes "hubInv (svHub s)" "permutes_list (apRooms env)" "t \<noteq> ''''"
  shows "\<exists>s'. broadcastChat env now t role content agentID s = Some s' \<and> chatOk t s s'"
proof -
  let ?p = "VMap (if agentID \<noteq> '''' then gput ''agent_id'' (VString agentID) [(''role'', VString role), (''content'', VString content)]
     else [(''role'', VString role), (''content'', VString content)])"
  obtain h where h: "Broadcast (apMarshal env) (apRooms env) now t ''agent_message'' ?p (svHub s) = Some h" "hubInv h" "hbClients h = hbClients (svHub s)"
      "\<forall>c. glookup (hbHeap h) c = (case apMarshal env \<lparr>mgType = ''agent_message'', mgTenant = t, mgPayload = ?p, mgTime = now\<rparr> of
          Inl _ \<Rightarrow> glookup (hbHeap (svHub s)) c
        | Inr data \<Rightarrow> map_option (afterDelivery data (audience (svHub s) t) c) (glookup (hbHeap (svHub s)) c))"
    using Broadcast_ok [OF assms(1,2)] by blast
  have "hubOnly t (svHub s) h"
    using h(4) assms(3) by (auto simp: hubOnly_def afterDelivery_def audience_def split: sum.splits)
  moreover have "\<forall>c x. glookup (hbHeap (svHub s)) c = Some x \<longrightarrow> (\<exists>x'. glookup (hbHeap h) c = Some x' \<and> cnTenant x' = cnTenant x)"
    using h(4) by (auto simp: afterDelivery_def split: sum.splits)
  ultimately show ?thesis
    using h(1,2,3) by (simp add: broadcastChat_def Let_def chatOk_def)
qed

lemma chatTurn_ok:
  assumes "hubInv (svHub s)" "permutes_list (apRooms env)" "t \<noteq> ''''"
  shows "\<exists>s'. chatTurn env errText now t agentID content s = Some s' \<and> chatOk t s s'"
proof -
  obtain s1 where s1: "broadcastChat env (now 0) t ''user'' content agentID s = Some s1" "chatOk t s s1"
    using broadcastChat_ok [OF assms] by blast
  obtain res c where r: "chatAgent env t agentID content (svStore s1) (svClient s1) = (res, c)" by force
  have inv: "hubInv (svHub (s1 \<lparr>svClient := c\<rparr>))" using s1(2) by (simp add: chatOk_def)
  have "\<exists>s'. broadcastChat env (now 1) t role x agentID (s1 \<lparr>svClient := c\<rparr>) = Some s' \<and> chatOk t s s'" for role x
    using broadcastChat_ok [OF inv assms(2,3), of "now 1" role x agentID] chatOk_trans [OF s1(2)] by auto
  then show ?thesis using s1(1) r by (cases res) (simp_all add: chatTurn_def)
qed

lemma chatFrame_ok:
  assumes "hubInv (svHub s)" "permutes_list (apRooms env)" "clTenantID claims \<noteq> ''''"
  shows "\<exists>s'. chatFrame env decode errText now claims d s = Some s' \<and> chatOk (clTenantID claims) s s'"
  using broadcastChat_ok [OF assms] chatTurn_ok [OF assms] chatOk_refl [OF assms(1)]
  by (auto simp: chatFrame_def Let_def split: option.splits)

lemma readPump_ok:
  assumes "hubInv (svHub s)" "permutes_list (apRooms env)" "clTenantID claims \<noteq> ''''"
  shows "\<exists>s'. readPump env decode errText now claims ds s = Some s' \<and> chatOk (clTenantID claims) s s'"
  using assms(1)
proof (induction ds arbitrary: s)
  case Nil
  then show ?case by (simp add: chatOk_refl)
next
  case (Cons d ds)
  obtain s1 where s1: "chatFrame env decode errText (now (length ds)) claims d s = Some s1" "chatOk (clTenantID claims) s s1"
    using chatFrame_ok [OF Cons.prems assms(2,3)] by blast
  then have "hubInv (svHub s1)" by (simp add: chatOk_def)
  from Cons.IH [OF this] s1 show ?case by (auto intro: chatOk_trans)
qed


section \<open>Properties\<close>

text \<open>C14: a WebSocket connection is neat: without a valid token nothing changes; with one, whatever frames arrive, no operation of the hub
  panics, the resource store and the side-effect store are untouched, no channel of another tenant gets or loses a message, and when the
  client is gone exactly the clients of before are registered.\<close>

theorem ws_session:
  assumes "hubInv (svHub s)" "permutes_list (apRooms env)"
  shows "case handleWS env decode errText now t token frames s of
      Inl resp \<Rightarrow> rsStatus resp = 401 \<and> (token = '''' \<or> \<not> is_ok (Verify (apJwt env) (apManager env) t token))
    | Inr out \<Rightarrow> (\<exists>claims s'. Verify (apJwt env) (apManager env) t token = Inr claims \<and> out = Some s'
        \<and> svStore s' = svStore s \<and> svEffects s' = svEffects s \<and> hubInv (svHub s') \<and> set (hbClients (svHub s')) = set (hbClients (svHub s))
        \<and> (\<forall>c x. glookup (hbHeap (svHub s)) c = Some x \<and> cnTenant x \<noteq> clTenantID claims \<longrightarrow> glookup (hbHeap (svHub s')) c = Some x))"
proof (cases "acceptWS env t token s")
  case (Inl resp)
  then show ?thesis
    by (auto simp: handleWS_def acceptWS_def writeError_def writeJSON_def split: if_splits sum.splits prod.splits)
next
  case (Inr a)
  obtain claims c s1 where a: "a = (claims, c, s1)" by (cases a)
  obtain h where v: "Verify (apJwt env) (apManager env) t token = Inr claims" "Register (clTenantID claims) (svHub s) = (c, h)" "s1 = s \<lparr>svHub := h\<rparr>"
    using Inr a by (auto simp: acceptWS_def split: if_splits sum.splits prod.splits)
  note reg = Register_fields [OF v(2)] and fresh = hubInv_fresh [OF assms(1)]
  have inv1: "hubInv (svHub s1)" using hubInv_register [OF assms(1), of "clTenantID claims"] v by simp
  obtain s2 where s2: "readPump env decode errText now claims frames s1 = Some s2" "chatOk (clTenantID claims) s1 s2"
    using readPump_ok [OF inv1 assms(2) verified_tenant [OF v(1)]] by blast
  have "glookup (hbHeap (svHub s1)) c = Some \<lparr>cnTenant = clTenantID claims, cnBuffer = [], cnClosed = False\<rparr>"
    using v(3) reg by simp
  then obtain x where x: "glookup (hbHeap (svHub s2)) c = Some x" "cnTenant x = clTenantID claims"
    using s2(2) by (fastforce simp: chatOk_def)
  have inv2: "hubInv (svHub s2)" using s2(2) by (simp add: chatOk_def)
  obtain h3 where h3: "deregister (clTenantID claims) c (svHub s2) = Some h3" "hubInv h3" "set (hbClients h3) = set (hbClients (svHub s2)) - {c}"
    using deregister_ok [OF inv2 x(1)] x(2) by auto
  have others: "glookup (hbHeap h3) k = glookup (hbHeap (svHub s2)) k" if "k \<noteq> c" for k
    using h3(1) that by (auto simp: deregister_def closeSend_def Let_def split: if_splits option.splits)
  have "glookup (hbHeap h3) k = Some y" if y: "glookup (hbHeap (svHub s)) k = Some y" "cnTenant y \<noteq> clTenantID claims" for k y
  proof -
    have "k \<noteq> c" using y(1) reg(1) assms(1) by (fastforce simp: hubInv_def)
    moreover from this have "glookup (hbHeap (svHub s1)) k = Some y" using y(1) v(3) reg by simp
    ultimately show ?thesis using s2(2) y(2) others by (auto simp: chatOk_def hubOnly_def)
  qed
  moreover have "set (hbClients h3) = set (hbClients (svHub s))"
    using h3(3) s2(2) v(3) reg fresh by (auto simp: chatOk_def)
  ultimately show ?thesis
    using Inr a v(1) s2 h3(1,2) v(3) by (simp add: handleWS_def closeWS_def chatOk_def)
qed

definition viewerJwt :: Jwt where
  "viewerJwt = demoJwt \<lparr>jwParse := (\<lambda>kf t tok. if tok = ''v'' then Inr (sampleClaims \<lparr>clRole := RoleViewer\<rparr>, True) else Inl JwtOther)\<rparr>"

text \<open>An environment whose tools count their calls, a server of a tenant with one agent that has a tool, and one chat frame.\<close>

definition chatEnv :: "nat ApiEnv" where
  "chatEnv = \<lparr>apEncode = (\<lambda>b. ''{}''), apDecodeAgent = (\<lambda>b. None), apDecodeServer = (\<lambda>b. None), apDecodeFlow = (\<lambda>b. None),
     apDecodeTask = (\<lambda>b. None), apDecodeLogin = (\<lambda>b. None), apDecodeUser = (\<lambda>b. None),
     apJwt = viewerJwt, apManager = NewManager ''secret'' 60, apHash = (\<lambda>p. Inr p), apCompare = (\<lambda>h p. h = p),
     apListTools = (\<lambda>t c. (Inr [], c)),
     apEngine = \<lparr>enGetAgent = (\<lambda>t i. Inl ErrNotFound), enGetMcpServer = (\<lambda>t i. Inl ErrNotFound),
       enDecodeFlow = (\<lambda>j. Inl ''''), enDecodeTransport = (\<lambda>j. Inr \<lparr>trType = ''stdio'', trCommand = ''llm'', trArgs = [], trURL = ''''\<rparr>),
       enMarshal = (\<lambda>v. Inr ''{}''), enCallTool = (\<lambda>t n a c. (Inr (textBlock ''hi''), Suc c)), enEffects = memorySideEffects,
       enNow = int, enUuid = (\<lambda>n. ''u''), enErrText = (\<lambda>e. ''''), enRange = id\<rparr>,
     apStoreErr = (\<lambda>e. ''''), apGraphErr = (\<lambda>e. ''''), apRecovered = \<lparr>rsStatus = 500, rsBody = ''''\<rparr>,
     apSeedUsername = ''admin'', apSeedPassword = ''admin'', apRange = id, apRooms = id, apMarshal = (\<lambda>m. Inr ''{}'')\<rparr>"

definition chatServer :: "nat Server" where
  "chatServer = (NewServer 3 0) \<lparr>svStore := snd (CreateAgent (demoAgent \<lparr>agTenantID := ''t1''\<rparr>)
     (snd (CreateMcpServer \<lparr>msvID = ''s1'', msvTenantID = ''t1'', msvName = ''llm'', msvTransport = ''{}'', msvEnabled = True, msvStatus = '''',
        msvCreatedAt = 0, msvUpdatedAt = 0\<rparr> NewMemoryStore)))\<rparr>"

definition chatDecode :: "string \<Rightarrow> chatMessage option" where
  "chatDecode d = Some \<lparr>cmType = ''chat'', cmAgentID = '''', cmContent = d\<rparr>"

theorem ws_session_witness:
  "\<exists>s'. handleWS chatEnv chatDecode (\<lambda>e. '''') (\<lambda>i j. 0) 0 ''v'' [''hello''] chatServer = Inr (Some s') \<and> set (hbClients (svHub s')) = {}"
proof -
  have h: "hubInv (svHub chatServer)" by (simp add: chatServer_def NewServer_def hubInv_new)
  have e: "hbClients (svHub chatServer) = []" by code_simp
  have v: "is_ok (Verify (apJwt chatEnv) (apManager chatEnv) 0 ''v'')" by code_simp
  have p: "permutes_list (apRooms chatEnv)" by (simp add: chatEnv_def permutes_list_def)
  from ws_session [OF h p, where decode = chatDecode and errText = "\<lambda>e. ''''" and now = "\<lambda>i j. 0" and t = 0 and token = "''v''"
      and frames = "[''hello'']"] v e show ?thesis
    by (auto split: sum.splits)
qed


end
