(* ===== verification/Mcp_Client.thy ===== *)
theory Mcp_Client
  imports Mcp "HOL-Library.Word"
begin

text \<open>
  The pure Go client (\<open>internal/mcp/client_go.go\<close>): JSON-RPC 2.0 over the standard streams of a child process or over a
  websocket, one connection per method call.

  The outside world, that is child processes, pipes, sockets and the servers behind them, is the state \<open>'w\<close>, and \<open>Wire\<close> is what the
  client does to it: connect, write, read one message (which the context may cut short), close. The JSON encoder and decoders are in the
  same record. An \<open>error\<close> of Go is a value of \<open>mcp_err\<close>.
\<close>

section \<open>Definitions\<close>

record Resource =
  reURI :: string
  reName :: string
  reDescription :: string
  reMimeType :: string

record Prompt =
  prName :: string
  prDescription :: string

record ResourceContent =
  rcContents :: "ContentBlock list"

record PromptMessage =
  pmRole :: string
  pmContent :: ContentBlock

record PromptResult =
  ptDescription :: string
  ptMessages :: "PromptMessage list"

record jsonrpcRequest =
  jqJSONRPC :: string
  jqID :: "64 word"
  jqMethod :: string
  jqParams :: any

record jsonrpcErr =
  jeCode :: int
  jeMessage :: string

record jsonrpcResponse =
  jpJSONRPC :: string
  jpID :: "64 word"
  jpResult :: string
  jpError :: "jsonrpcErr option"

datatype mcp_err =
    ErrUnsupportedTransport string
  | ErrConnect string
  | ErrMarshal string
  | ErrWrite string
  | ErrRead string
  | ErrCtx string
  | ErrRPCError int string
  | ErrUnmarshal string

text \<open>How a read ends: the context is done first, the read or the decoding fails, or a message arrives.\<close>

datatype 'a read_outcome = CtxDone string | ReadFailed string | Arrived 'a

record 'w Wire =
  wiStart :: "Transport \<Rightarrow> 'w \<Rightarrow> (string, nat) result \<times> 'w"
  wiDial :: "string \<Rightarrow> 'w \<Rightarrow> (string, nat) result \<times> 'w"
  wiWrite :: "nat \<Rightarrow> string \<Rightarrow> 'w \<Rightarrow> string option \<times> 'w"
  wiReadBytes :: "nat \<Rightarrow> 'w \<Rightarrow> string read_outcome \<times> 'w"
  wiWriteJSON :: "nat \<Rightarrow> jsonrpcRequest \<Rightarrow> 'w \<Rightarrow> string option \<times> 'w"
  wiReadJSON :: "nat \<Rightarrow> 'w \<Rightarrow> jsonrpcResponse read_outcome \<times> 'w"
  wiClose :: "nat \<Rightarrow> 'w \<Rightarrow> 'w"
  wiMarshal :: "jsonrpcRequest \<Rightarrow> (string, string) result"
  wiUnmarshal :: "string \<Rightarrow> (string, jsonrpcResponse) result"

text \<open>A connection: a child process or a websocket, with its handle and the last request id.\<close>

datatype conn_kind = StdioConn | WSConn

record rpcTransport =
  rtKind :: conn_kind
  rtConn :: nat
  rtNextID :: "64 word"

definition newTransport :: "conn_kind \<Rightarrow> (string, nat) result \<times> 'w \<Rightarrow> (mcp_err, rpcTransport) result \<times> 'w" where
  "newTransport kind r = (case r of
      (Inl e, w) \<Rightarrow> (Inl (ErrConnect e), w)
    | (Inr c, w) \<Rightarrow> (Inr \<lparr>rtKind = kind, rtConn = c, rtNextID = 0\<rparr>, w))"

definition connect :: "'w Wire \<Rightarrow> Transport \<Rightarrow> 'w \<Rightarrow> (mcp_err, rpcTransport) result \<times> 'w" where
  "connect wi s w =
     (if trType s = ''stdio'' then newTransport StdioConn (wiStart wi s w)
      else if trType s = ''websocket'' then newTransport WSConn (wiDial wi (trURL s) w)
      else (Inl (ErrUnsupportedTransport (trType s)), w))"

definition stdioReadResponse :: "'w Wire \<Rightarrow> nat \<Rightarrow> 'w \<Rightarrow> (mcp_err, jsonrpcResponse) result \<times> 'w" where
  "stdioReadResponse wi c w = (case wiReadBytes wi c w of
      (CtxDone e, w') \<Rightarrow> (Inl (ErrCtx e), w')
    | (ReadFailed e, w') \<Rightarrow> (Inl (ErrRead e), w')
    | (Arrived line, w') \<Rightarrow>
        (case wiUnmarshal wi line of Inl e \<Rightarrow> (Inl (ErrRead e), w') | Inr resp \<Rightarrow> (Inr resp, w')))"

definition wsReadResponse :: "'w Wire \<Rightarrow> nat \<Rightarrow> 'w \<Rightarrow> (mcp_err, jsonrpcResponse) result \<times> 'w" where
  "wsReadResponse wi c w = (case wiReadJSON wi c w of
      (CtxDone e, w') \<Rightarrow> (Inl (ErrCtx e), w')
    | (ReadFailed e, w') \<Rightarrow> (Inl (ErrRead e), w')
    | (Arrived resp, w') \<Rightarrow> (Inr resp, w'))"

text \<open>\<open>zero\<close> is the value of the result variable before the call; \<open>dec\<close> is \<open>json.Unmarshal\<close> into it.\<close>

definition decodeResponse :: "(string \<Rightarrow> (string, 'a) result) \<Rightarrow> 'a \<Rightarrow> jsonrpcResponse \<Rightarrow> (mcp_err, 'a) result" where
  "decodeResponse dec zero resp = (case jpError resp of
      Some e \<Rightarrow> Inl (ErrRPCError (jeCode e) (jeMessage e))
    | None \<Rightarrow>
        (if jpResult resp = '''' then Inr zero
         else (case dec (jpResult resp) of Inl e \<Rightarrow> Inl (ErrUnmarshal e) | Inr a \<Rightarrow> Inr a)))"

definition stdioCall :: "'w Wire \<Rightarrow> (string \<Rightarrow> (string, 'a) result) \<Rightarrow> 'a \<Rightarrow> nat \<Rightarrow> jsonrpcRequest \<Rightarrow> 'w \<Rightarrow> (mcp_err, 'a) result \<times> 'w" where
  "stdioCall wi dec zero c req w = (case wiMarshal wi req of
      Inl e \<Rightarrow> (Inl (ErrMarshal e), w)
    | Inr raw \<Rightarrow>
        (case wiWrite wi c (raw @ newline) w of
           (Some e, w1) \<Rightarrow> (Inl (ErrWrite e), w1)
         | (None, w1) \<Rightarrow>
             (case stdioReadResponse wi c w1 of
                (Inl e, w2) \<Rightarrow> (Inl e, w2)
              | (Inr resp, w2) \<Rightarrow> (decodeResponse dec zero resp, w2))))"

definition wsCall :: "'w Wire \<Rightarrow> (string \<Rightarrow> (string, 'a) result) \<Rightarrow> 'a \<Rightarrow> nat \<Rightarrow> jsonrpcRequest \<Rightarrow> 'w \<Rightarrow> (mcp_err, 'a) result \<times> 'w" where
  "wsCall wi dec zero c req w = (case wiWriteJSON wi c req w of
      (Some e, w1) \<Rightarrow> (Inl (ErrWrite e), w1)
    | (None, w1) \<Rightarrow>
        (case wsReadResponse wi c w1 of
           (Inl e, w2) \<Rightarrow> (Inl e, w2)
         | (Inr resp, w2) \<Rightarrow> (decodeResponse dec zero resp, w2)))"

text \<open>The method \<open>call\<close> of the two transports: the next id, the request, and the exchange.\<close>

definition newRequest :: "string \<Rightarrow> any \<Rightarrow> rpcTransport \<Rightarrow> jsonrpcRequest" where
  "newRequest method params t = \<lparr>jqJSONRPC = ''2.0'', jqID = rtNextID t, jqMethod = method, jqParams = params\<rparr>"

definition rpcCall :: "'w Wire \<Rightarrow> (string \<Rightarrow> (string, 'a) result) \<Rightarrow> 'a \<Rightarrow> string \<Rightarrow> any \<Rightarrow> rpcTransport \<Rightarrow> 'w
    \<Rightarrow> (mcp_err, 'a) result \<times> rpcTransport \<times> 'w" where
  "rpcCall wi dec zero method params t w =
     (let t' = t \<lparr>rtNextID := rtNextID t + 1\<rparr>;
          (res, w') = (case rtKind t' of
             StdioConn \<Rightarrow> stdioCall wi dec zero (rtConn t') (newRequest method params t') w
           | WSConn \<Rightarrow> wsCall wi dec zero (rtConn t') (newRequest method params t') w)
      in (res, t', w'))"

text \<open>Every method connects, defers the close, and makes one call.\<close>

definition withConn :: "'w Wire \<Rightarrow> (string \<Rightarrow> (string, 'a) result) \<Rightarrow> 'a \<Rightarrow> string \<Rightarrow> any \<Rightarrow> Transport \<Rightarrow> 'w \<Rightarrow> (mcp_err, 'a) result \<times> 'w" where
  "withConn wi dec zero method params s w = (case connect wi s w of
      (Inl e, w1) \<Rightarrow> (Inl e, w1)
    | (Inr t, w1) \<Rightarrow> (case rpcCall wi dec zero method params t w1 of (res, t', w2) \<Rightarrow> (res, wiClose wi (rtConn t') w2)))"

definition go_ListTools :: "'w Wire \<Rightarrow> (string \<Rightarrow> (string, Tool list) result) \<Rightarrow> Transport \<Rightarrow> 'w \<Rightarrow> (mcp_err, Tool list) result \<times> 'w" where
  "go_ListTools wi dec s w = withConn wi dec [] ''tools/list'' VNil s w"

definition go_ListResources :: "'w Wire \<Rightarrow> (string \<Rightarrow> (string, Resource list) result) \<Rightarrow> Transport \<Rightarrow> 'w
    \<Rightarrow> (mcp_err, Resource list) result \<times> 'w" where
  "go_ListResources wi dec s w = withConn wi dec [] ''resources/list'' VNil s w"

definition go_ListPrompts :: "'w Wire \<Rightarrow> (string \<Rightarrow> (string, Prompt list) result) \<Rightarrow> Transport \<Rightarrow> 'w \<Rightarrow> (mcp_err, Prompt list) result \<times> 'w" where
  "go_ListPrompts wi dec s w = withConn wi dec [] ''prompts/list'' VNil s w"

text \<open>\<open>args\<close> is \<open>None\<close> for a nil map.\<close>

definition namedParams :: "string \<Rightarrow> args option \<Rightarrow> any" where
  "namedParams name args = VMap ((''name'', VString name) # (case args of None \<Rightarrow> [] | Some m \<Rightarrow> [(''arguments'', VMap m)]))"

definition zeroToolResult :: ToolResult where
  "zeroToolResult = \<lparr>trContent = [], trIsError = False\<rparr>"

definition go_CallTool :: "'w Wire \<Rightarrow> (string \<Rightarrow> (string, ToolResult) result) \<Rightarrow> Transport \<Rightarrow> string \<Rightarrow> args option \<Rightarrow> 'w
    \<Rightarrow> (mcp_err, ToolResult) result \<times> 'w" where
  "go_CallTool wi dec s name args w = withConn wi dec zeroToolResult ''tools/call'' (namedParams name args) s w"

definition go_ReadResource :: "'w Wire \<Rightarrow> (string \<Rightarrow> (string, ResourceContent) result) \<Rightarrow> Transport \<Rightarrow> string \<Rightarrow> 'w
    \<Rightarrow> (mcp_err, ResourceContent) result \<times> 'w" where
  "go_ReadResource wi dec s uri w = withConn wi dec \<lparr>rcContents = []\<rparr> ''resources/read'' (VMap [(''uri'', VString uri)]) s w"

definition go_GetPrompt :: "'w Wire \<Rightarrow> (string \<Rightarrow> (string, PromptResult) result) \<Rightarrow> Transport \<Rightarrow> string \<Rightarrow> args option \<Rightarrow> 'w
    \<Rightarrow> (mcp_err, PromptResult) result \<times> 'w" where
  "go_GetPrompt wi dec s name args w = withConn wi dec \<lparr>ptDescription = '''', ptMessages = []\<rparr> ''prompts/get'' (namedParams name args) s w"

section \<open>The other methods of the mock client\<close>

definition mockListTools :: "Transport \<Rightarrow> MockClient \<Rightarrow> (string, Tool list) result \<times> MockClient" where
  "mockListTools s m = (Inr (mcTools m), m)"

definition mockListResources :: "Transport \<Rightarrow> MockClient \<Rightarrow> (string, Resource list) result \<times> MockClient" where
  "mockListResources s m = (Inr [], m)"

definition mockListPrompts :: "Transport \<Rightarrow> MockClient \<Rightarrow> (string, Prompt list) result \<times> MockClient" where
  "mockListPrompts s m = (Inr [], m)"

definition mockReadResource :: "Transport \<Rightarrow> string \<Rightarrow> MockClient \<Rightarrow> (string, ResourceContent) result \<times> MockClient" where
  "mockReadResource s uri m = (Inr \<lparr>rcContents = [\<lparr>cbType = ''text'', cbText = uri, cbData = '''', cbMimeType = ''''\<rparr>]\<rparr>, m)"

definition mockGetPrompt :: "Transport \<Rightarrow> string \<Rightarrow> args \<Rightarrow> MockClient \<Rightarrow> (string, PromptResult) result \<times> MockClient" where
  "mockGetPrompt s name args m = (Inr \<lparr>ptDescription = name, ptMessages = []\<rparr>, m)"

section \<open>Connections are closed, requests are numbered\<close>

text \<open>What is used of the operating system and the websocket library: connecting opens one new connection or, when it fails, none;
  writing and reading open and close nothing; closing closes. \<open>opened\<close> is the set of open connections.\<close>

definition wireOk :: "'w Wire \<Rightarrow> ('w \<Rightarrow> nat set) \<Rightarrow> bool" where
  "wireOk wi opened \<longleftrightarrow>
     (\<forall>s w. case wiStart wi s w of (Inl e, w') \<Rightarrow> opened w' = opened w | (Inr c, w') \<Rightarrow> c \<notin> opened w \<and> opened w' = insert c (opened w))
     \<and> (\<forall>u w. case wiDial wi u w of (Inl e, w') \<Rightarrow> opened w' = opened w | (Inr c, w') \<Rightarrow> c \<notin> opened w \<and> opened w' = insert c (opened w))
     \<and> (\<forall>c d w. opened (snd (wiWrite wi c d w)) = opened w) \<and> (\<forall>c w. opened (snd (wiReadBytes wi c w)) = opened w)
     \<and> (\<forall>c q w. opened (snd (wiWriteJSON wi c q w)) = opened w) \<and> (\<forall>c w. opened (snd (wiReadJSON wi c w)) = opened w)
     \<and> (\<forall>c w. opened (wiClose wi c w) = opened w - {c})"

lemma newTransport_opened:
  assumes "case x of (Inl e, w') \<Rightarrow> opened w' = opened w | (Inr c, w') \<Rightarrow> c \<notin> opened w \<and> opened w' = insert c (opened w)"
    and "newTransport kind x = (r, w')"
  shows "case r of Inl e \<Rightarrow> opened w' = opened w
    | Inr t \<Rightarrow> rtConn t \<notin> opened w \<and> opened w' = insert (rtConn t) (opened w) \<and> rtNextID t = 0"
proof -
  obtain y w1 where x: "x = (y, w1)" by force
  show ?thesis using assms by (cases y) (auto simp: x newTransport_def)
qed

lemma connect_opened:
  assumes "wireOk wi opened" "connect wi s w = (r, w')"
  shows "case r of Inl e \<Rightarrow> opened w' = opened w
    | Inr t \<Rightarrow> rtConn t \<notin> opened w \<and> opened w' = insert (rtConn t) (opened w) \<and> rtNextID t = 0"
proof (cases "trType s = ''stdio'' \<or> trType s = ''websocket''")
  case True
  have st: "case wiStart wi s w of (Inl e, w') \<Rightarrow> opened w' = opened w | (Inr c, w') \<Rightarrow> c \<notin> opened w \<and> opened w' = insert c (opened w)"
    using assms(1) unfolding wireOk_def by (elim conjE allE)
  have di: "case wiDial wi (trURL s) w of (Inl e, w') \<Rightarrow> opened w' = opened w | (Inr c, w') \<Rightarrow> c \<notin> opened w \<and> opened w' = insert c (opened w)"
    using assms(1) unfolding wireOk_def by (elim conjE allE)
  obtain k x where "newTransport k x = (r, w')" "x = wiStart wi s w \<or> x = wiDial wi (trURL s) w"
    using assms(2) True by (simp add: connect_def split: if_split_asm)
  then have nt: "newTransport k x = (r, w')"
    and "case x of (Inl e, w') \<Rightarrow> opened w' = opened w | (Inr c, w') \<Rightarrow> c \<notin> opened w \<and> opened w' = insert c (opened w)"
    using st di by auto
  then show ?thesis by (rule newTransport_opened [rotated])
next
  case False
  then show ?thesis using assms(2) by (auto simp: connect_def)
qed

lemma call_opened:
  assumes "wireOk wi opened"
  shows "opened (snd (stdioCall wi dec zero c req w)) = opened w" "opened (snd (wsCall wi dec zero c req w)) = opened w"
proof -
  have io: "\<And>c d w. opened (snd (wiWrite wi c d w)) = opened w" "\<And>c w. opened (snd (wiReadBytes wi c w)) = opened w"
    "\<And>c q w. opened (snd (wiWriteJSON wi c q w)) = opened w" "\<And>c w. opened (snd (wiReadJSON wi c w)) = opened w"
    using assms by (simp_all add: wireOk_def)
  have r: "opened (snd (stdioReadResponse wi c w)) = opened w" "opened (snd (wsReadResponse wi c w)) = opened w" for c w
    using io(2,4) [of c w] by (auto simp: stdioReadResponse_def wsReadResponse_def split: prod.splits read_outcome.splits sum.splits)
  show "opened (snd (stdioCall wi dec zero c req w)) = opened w"
  proof (cases "wiMarshal wi req")
    case (Inr raw)
    obtain a w1 where a: "wiWrite wi c (raw @ newline) w = (a, w1)" by force
    obtain b w2 where b: "stdioReadResponse wi c w1 = (b, w2)" by force
    have "opened w1 = opened w" "opened w2 = opened w1"
      using io(1) [of c "raw @ newline" w] r(1) [of c w1] a b by simp_all
    then show ?thesis using Inr a b by (simp add: stdioCall_def split: option.split sum.split)
  qed (simp add: stdioCall_def)
  obtain a w1 where a: "wiWriteJSON wi c req w = (a, w1)" by force
  obtain b w2 where b: "wsReadResponse wi c w1 = (b, w2)" by force
  have "opened w1 = opened w" "opened w2 = opened w1"
    using io(3) [of c req w] r(2) [of c w1] a b by simp_all
  then show "opened (snd (wsCall wi dec zero c req w)) = opened w"
    using a b by (simp add: wsCall_def split: option.split sum.split)
qed

lemma withConn_opened:
  assumes "wireOk wi opened"
  shows "opened (snd (withConn wi dec zero method params s w)) = opened w"
proof -
  obtain r w1 where c: "connect wi s w = (r, w1)" by force
  note o1 = connect_opened [OF assms c]
  show ?thesis
  proof (cases r)
    case (Inl e)
    then show ?thesis using c o1 by (simp add: withConn_def)
  next
    case (Inr t)
    obtain res t' w2 where x: "rpcCall wi dec zero method params t w1 = (res, t', w2)" by (metis prod_cases3)
    have "opened w2 = opened w1" "rtConn t' = rtConn t"
      using x call_opened [OF assms, of dec zero] by (auto simp: rpcCall_def Let_def split: conn_kind.splits prod.splits) (metis snd_conv)+
    moreover have "\<forall>c w. opened (wiClose wi c w) = opened w - {c}" using assms by (simp add: wireOk_def)
    ultimately show ?thesis using c Inr x o1 by (simp add: withConn_def)
  qed
qed

section \<open>A wire to run the client on\<close>

text \<open>Connections are numbered; a server process answers every request with the lines of \<open>dwLines\<close> in order.\<close>

record demoWorld =
  dwNext :: nat
  dwOpen :: "nat list"
  dwLines :: "string list"
  dwSent :: "(nat \<times> string) list"

definition demoOpen :: "demoWorld \<Rightarrow> (string, nat) result \<times> demoWorld" where
  "demoOpen w = (Inr (dwNext w), w \<lparr>dwNext := dwNext w + 1, dwOpen := dwNext w # dwOpen w\<rparr>)"

definition demoRead :: "demoWorld \<Rightarrow> string option \<times> demoWorld" where
  "demoRead w = (case dwLines w of [] \<Rightarrow> (None, w) | l # ls \<Rightarrow> (Some l, w \<lparr>dwLines := ls\<rparr>))"

definition demoResponse :: "string \<Rightarrow> jsonrpcResponse" where
  "demoResponse line = \<lparr>jpJSONRPC = ''2.0'', jpID = 7, jpResult = line, jpError = None\<rparr>"

definition demoWire :: "demoWorld Wire" where
  "demoWire = \<lparr>
     wiStart = (\<lambda>s w. demoOpen w), wiDial = (\<lambda>u w. if u = '''' then (Inl ''malformed ws or wss URL'', w) else demoOpen w),
     wiWrite = (\<lambda>c d w. (None, w \<lparr>dwSent := dwSent w @ [(c, d)]\<rparr>)),
     wiReadBytes = (\<lambda>c w. case demoRead w of (None, w') \<Rightarrow> (ReadFailed ''EOF'', w') | (Some l, w') \<Rightarrow> (Arrived l, w')),
     wiWriteJSON = (\<lambda>c q w. (None, w \<lparr>dwSent := dwSent w @ [(c, jqMethod q)]\<rparr>)),
     wiReadJSON = (\<lambda>c w. case demoRead w of (None, w') \<Rightarrow> (ReadFailed ''EOF'', w') | (Some l, w') \<Rightarrow> (Arrived (demoResponse l), w')),
     wiClose = (\<lambda>c w. w \<lparr>dwOpen := filter (\<lambda>d. d \<noteq> c) (dwOpen w)\<rparr>),
     wiMarshal = (\<lambda>q. Inr (jqMethod q)), wiUnmarshal = (\<lambda>l. Inr (demoResponse l))\<rparr>"

definition demoWorld0 :: demoWorld where
  "demoWorld0 = \<lparr>dwNext = 3, dwOpen = [], dwLines = ['''', ''hi''], dwSent = []\<rparr>"

definition demoStdio :: Transport where
  "demoStdio = \<lparr>trType = ''stdio'', trCommand = ''server'', trArgs = [], trURL = ''''\<rparr>"

definition demoDecode :: "string \<Rightarrow> (string, ToolResult) result" where
  "demoDecode l = Inr \<lparr>trContent = [], trIsError = True\<rparr>"

definition demoOpened :: "demoWorld \<Rightarrow> nat set" where
  "demoOpened w = set (dwOpen w) \<inter> {..<dwNext w}"

lemma demoWire_ok: "wireOk demoWire demoOpened"
  by (auto simp: wireOk_def demoWire_def demoOpen_def demoOpened_def demoRead_def split: list.splits)


section \<open>Properties\<close>



text \<open>C31: over the standard streams, \<open>CallTool\<close> takes the first line the server writes for the answer to its request, whose id is 1, whatever
  the id in that line is; a line with neither a result nor an error, as a notification is, makes it return the empty tool result and no error.\<close>

theorem first_line_is_answer:
  assumes "trType s = ''stdio''" "wiStart wi s w = (Inr c, w1)"
    and "wiMarshal wi \<lparr>jqJSONRPC = ''2.0'', jqID = 1, jqMethod = ''tools/call'', jqParams = namedParams name args\<rparr> = Inr raw"
    and "wiWrite wi c (raw @ newline) w1 = (None, w2)" "wiReadBytes wi c w2 = (Arrived line, w3)"
    and "wiUnmarshal wi line = Inr resp"
  shows "go_CallTool wi dec s name args w = (decodeResponse dec zeroToolResult resp, wiClose wi c w3)
    \<and> decodeResponse dec zeroToolResult (resp \<lparr>jpID := anyID\<rparr>) = decodeResponse dec zeroToolResult resp
    \<and> (jpError resp = None \<and> jpResult resp = '''' \<longrightarrow> fst (go_CallTool wi dec s name args w) = Inr zeroToolResult)"
proof -
  have g: "go_CallTool wi dec s name args w = (decodeResponse dec zeroToolResult resp, wiClose wi c w3)"
    using assms by (simp add: go_CallTool_def withConn_def connect_def newTransport_def rpcCall_def newRequest_def stdioCall_def stdioReadResponse_def)
  moreover have "decodeResponse dec zeroToolResult (resp \<lparr>jpID := anyID\<rparr>) = decodeResponse dec zeroToolResult resp"
    by (cases "jpError resp") (simp_all add: decodeResponse_def)
  moreover have "jpError resp = None \<and> jpResult resp = '''' \<longrightarrow> fst (go_CallTool wi dec s name args w) = Inr zeroToolResult"
    by (simp add: g decodeResponse_def)
  ultimately show ?thesis by (intro conjI)
qed

theorem first_line_is_answer_witness:
  "jpID (demoResponse '''') \<noteq> 1 \<and> fst (go_CallTool demoWire demoDecode demoStdio ''echo'' None demoWorld0) = Inr zeroToolResult"
proof -
  let ?w1 = "snd (demoOpen demoWorld0)" and ?raw = "''tools/call''"
  let ?w2 = "snd (wiWrite demoWire 3 (?raw @ newline) ?w1)"
  have "trType demoStdio = ''stdio''" "wiStart demoWire demoStdio demoWorld0 = (Inr 3, ?w1)"
    and "wiMarshal demoWire \<lparr>jqJSONRPC = ''2.0'', jqID = 1, jqMethod = ''tools/call'', jqParams = namedParams ''echo'' None\<rparr> = Inr ?raw"
    and "wiWrite demoWire 3 (?raw @ newline) ?w1 = (None, ?w2)"
    and "wiReadBytes demoWire 3 ?w2 = (Arrived '''', snd (wiReadBytes demoWire 3 ?w2))"
    and "wiUnmarshal demoWire '''' = Inr (demoResponse '''')"
    by (simp_all add: demoStdio_def demoWire_def demoOpen_def demoWorld0_def demoRead_def)
  note answer = first_line_is_answer [OF this, where dec = demoDecode and anyID = 0]
  have "jpError (demoResponse '''') = None \<and> jpResult (demoResponse '''') = ''''" "jpID (demoResponse '''') \<noteq> 1"
    by (simp_all add: demoResponse_def)
  with answer show ?thesis by blast
qed

end
