(* ===== verification/Mcp_Engine.thy ===== *)
theory Mcp_Engine
  imports Mcp_Client "HOL-Library.Monad_Syntax"
begin

text \<open>
  The cgo client (\<open>internal/mcp/client_cgo.go\<close>), which drives the C interface of libmcpengine.

  The C heap is explicit: live blocks by address, each a C string of \<open>C.CString\<close>, an engine, or a string that the library returned. Every
  C call is a partial function of the world: \<open>None\<close> is undefined behaviour, a free of a block that is not live or not of its kind, a
  read of a freed string, a call on a freed engine. What the library answers is the parameter \<open>lib\<close> over its own state \<open>'l\<close>: it sees C strings,
  which end at the first NUL byte. Go runs deferred calls last first; they are written out at every return.
\<close>

section \<open>The C heap and the library\<close>

datatype block = CStr string | EngineBlk | LibStr string

record 'l CWorld =
  cwNext :: nat
  cwLive :: "nat \<Rightarrow> block option"
  cwLib :: 'l

datatype engine_call =
    CListTools string
  | CListResources string
  | CListPrompts string
  | CCallTool string string string
  | CReadResource string string
  | CGetPrompt string string string

text \<open>\<open>lbNew\<close> and \<open>lbCall\<close> give the bytes of the error buffer for a NULL result; \<open>lbConnect\<close> gives the return code and the error buffer.\<close>

record 'l EngineLib =
  lbNew :: "string \<Rightarrow> 'l \<Rightarrow> string option \<times> 'l"
  lbConnect :: "string \<Rightarrow> string \<Rightarrow> 'l \<Rightarrow> (int \<times> string) \<times> 'l"
  lbCall :: "engine_call \<Rightarrow> 'l \<Rightarrow> (string, string) result \<times> 'l"

type_synonym ('l, 'a) cmd = "'l CWorld \<Rightarrow> ('a \<times> 'l CWorld) option"

definition cString :: "string \<Rightarrow> string" where
  "cString s = takeWhile (\<lambda>c. c \<noteq> CHR 0x00) s"

definition alloc :: "block \<Rightarrow> ('l, nat) cmd" where
  "alloc b w = Some (cwNext w, w \<lparr>cwNext := Suc (cwNext w), cwLive := (cwLive w)(cwNext w \<mapsto> b)\<rparr>)"

definition dealloc :: "nat \<Rightarrow> ('l, unit) cmd" where
  "dealloc p w = Some ((), w \<lparr>cwLive := (cwLive w)(p := None)\<rparr>)"

definition C_CString :: "string \<Rightarrow> ('l, nat) cmd" where
  "C_CString s = alloc (CStr s)"

definition C_free :: "nat \<Rightarrow> ('l, unit) cmd" where
  "C_free p w = (case cwLive w p of Some (CStr s) \<Rightarrow> dealloc p w | _ \<Rightarrow> None)"

definition C_read :: "nat \<Rightarrow> ('l, string) cmd" where
  "C_read p w = (case cwLive w p of Some (CStr s) \<Rightarrow> Some (cString s, w) | _ \<Rightarrow> None)"

definition mcp_engine_new :: "'l EngineLib \<Rightarrow> nat \<Rightarrow> ('l, (string, nat) result) cmd" where
  "mcp_engine_new lib cfg w = do {
     (c, w) \<leftarrow> C_read cfg w;
     (case lbNew lib c (cwLib w) of
        (Some buf, l) \<Rightarrow> Some (Inl buf, w \<lparr>cwLib := l\<rparr>)
      | (None, l) \<Rightarrow> do { (p, w) \<leftarrow> alloc EngineBlk (w \<lparr>cwLib := l\<rparr>); Some (Inr p, w) })}"

definition mcp_engine_free :: "nat \<Rightarrow> ('l, unit) cmd" where
  "mcp_engine_free p w = (case cwLive w p of Some EngineBlk \<Rightarrow> dealloc p w | _ \<Rightarrow> None)"

definition mcp_engine_connect :: "'l EngineLib \<Rightarrow> nat \<Rightarrow> nat \<Rightarrow> nat \<Rightarrow> ('l, int \<times> string) cmd" where
  "mcp_engine_connect lib e cid ct w = (if cwLive w e \<noteq> Some EngineBlk then None else do {
     (i, w) \<leftarrow> C_read cid w;
     (t, w) \<leftarrow> C_read ct w;
     (case lbConnect lib i t (cwLib w) of (r, l) \<Rightarrow> Some (r, w \<lparr>cwLib := l\<rparr>))})"

text \<open>The six calls that return a JSON string: the arguments are read from C strings, the result is a new block or NULL.\<close>

definition mcp_engine_string :: "'l EngineLib \<Rightarrow> nat \<Rightarrow> engine_call \<Rightarrow> ('l, (string, nat) result) cmd" where
  "mcp_engine_string lib e call w = (if cwLive w e \<noteq> Some EngineBlk then None else
     (case lbCall lib call (cwLib w) of
        (Inl buf, l) \<Rightarrow> Some (Inl buf, w \<lparr>cwLib := l\<rparr>)
      | (Inr out, l) \<Rightarrow> do { (p, w) \<leftarrow> alloc (LibStr out) (w \<lparr>cwLib := l\<rparr>); Some (Inr p, w) }))"

definition mcp_engine_string_free :: "nat \<Rightarrow> ('l, unit) cmd" where
  "mcp_engine_string_free p w = (case cwLive w p of Some (LibStr s) \<Rightarrow> dealloc p w | _ \<Rightarrow> None)"

definition C_GoString :: "nat \<Rightarrow> ('l, string) cmd" where
  "C_GoString p w = (case cwLive w p of Some (LibStr s) \<Rightarrow> Some (cString s, w) | _ \<Rightarrow> None)"

section \<open>The client\<close>

record engine =
  enPtr :: "nat option"
  enServerID :: string

definition serverIDFor :: "Transport \<Rightarrow> string" where
  "serverIDFor s = (if trURL s \<noteq> '''' then ''ws:'' @ trURL s else ''stdio:'' @ trCommand s)"

definition errString :: "string \<Rightarrow> string" where
  "errString buf = takeWhile (\<lambda>c. c \<noteq> CHR 0x00) buf"

definition engine_free :: "engine \<Rightarrow> ('l, engine) cmd" where
  "engine_free e w = (case enPtr e of
      None \<Rightarrow> Some (e, w)
    | Some p \<Rightarrow> do { (_, w) \<leftarrow> mcp_engine_free p w; Some (e \<lparr>enPtr := None\<rparr>, w) })"

definition configJSON :: string where
  "configJSON = ''{\"log_level\":\"info\",\"max_message_bytes\":1048576,\"sanitize\":true,\"connect_timeout_ms\":10000}''"

text \<open>The allocation of an engine and its connection; \<open>marshal\<close> is \<open>json.Marshal\<close> of the transport.\<close>

definition newEngine :: "'l EngineLib \<Rightarrow> (Transport \<Rightarrow> (string, string) result) \<Rightarrow> Transport \<Rightarrow> ('l, (mcp_err, engine) result) cmd" where
  "newEngine lib marshal s w = do {
     (cCfg, w) \<leftarrow> C_CString configJSON w;
     (e, w) \<leftarrow> mcp_engine_new lib cCfg w;
     (case e of
        Inl buf \<Rightarrow> do { (_, w) \<leftarrow> C_free cCfg w; Some (Inl (ErrConnect (errString buf)), w) }
      | Inr p \<Rightarrow> (let eng = \<lparr>enPtr = Some p, enServerID = serverIDFor s\<rparr> in
          (case marshal s of
             Inl err \<Rightarrow> do { (_, w) \<leftarrow> engine_free eng w; (_, w) \<leftarrow> C_free cCfg w; Some (Inl (ErrMarshal err), w) }
           | Inr raw \<Rightarrow> do {
               (cID, w) \<leftarrow> C_CString (enServerID eng) w;
               (cTransport, w) \<leftarrow> C_CString raw w;
               (rcbuf, w) \<leftarrow> mcp_engine_connect lib p cID cTransport w;
               (res, w) \<leftarrow> (if fst rcbuf \<noteq> 0
                 then do { (_, w) \<leftarrow> engine_free eng w; Some (Inl (ErrConnect (errString (snd rcbuf))), w) }
                 else Some (Inr eng, w));
               (_, w) \<leftarrow> C_free cTransport w;
               (_, w) \<leftarrow> C_free cID w;
               (_, w) \<leftarrow> C_free cCfg w;
               Some (res, w) })))}"

definition cgo_connect :: "'l EngineLib \<Rightarrow> (Transport \<Rightarrow> (string, string) result) \<Rightarrow> Transport \<Rightarrow> ('l, (mcp_err, engine) result) cmd" where
  "cgo_connect lib marshal s w =
     (if trType s \<noteq> ''stdio'' \<and> trType s \<noteq> ''websocket'' then Some (Inl (ErrUnsupportedTransport (trType s)), w)
      else newEngine lib marshal s w)"

text \<open>\<open>callString\<close>; \<open>fn\<close> is the closure over the C call.\<close>

definition callString :: "('l, (string, nat) result) cmd \<Rightarrow> ('l, (mcp_err, string) result) cmd" where
  "callString fn w = do {
     (out, w) \<leftarrow> fn w;
     (case out of
        Inl buf \<Rightarrow> Some (Inl (ErrRead (errString buf)), w)
      | Inr p \<Rightarrow> do { (s, w) \<leftarrow> C_GoString p w; (_, w) \<leftarrow> mcp_engine_string_free p w; Some (Inr s, w) })}"

text \<open>The engine methods: with one, two or three C strings, freed after the call, last first. \<open>e.ptr\<close> is not nil.\<close>

definition call1 :: "'l EngineLib \<Rightarrow> engine \<Rightarrow> (string \<Rightarrow> engine_call) \<Rightarrow> ('l, (mcp_err, string) result) cmd" where
  "call1 lib e mk w = do {
     (cID, w) \<leftarrow> C_CString (enServerID e) w;
     (res, w) \<leftarrow> callString (\<lambda>w. do { (i, w) \<leftarrow> C_read cID w; p \<leftarrow> enPtr e; mcp_engine_string lib p (mk i) w }) w;
     (_, w) \<leftarrow> C_free cID w;
     Some (res, w) }"

definition call2 :: "'l EngineLib \<Rightarrow> engine \<Rightarrow> (string \<Rightarrow> string \<Rightarrow> engine_call) \<Rightarrow> string \<Rightarrow> ('l, (mcp_err, string) result) cmd" where
  "call2 lib e mk x w = do {
     (cID, w) \<leftarrow> C_CString (enServerID e) w;
     (cX, w) \<leftarrow> C_CString x w;
     (res, w) \<leftarrow> callString (\<lambda>w. do { (i, w) \<leftarrow> C_read cID w; (y, w) \<leftarrow> C_read cX w; p \<leftarrow> enPtr e; mcp_engine_string lib p (mk i y) w }) w;
     (_, w) \<leftarrow> C_free cX w;
     (_, w) \<leftarrow> C_free cID w;
     Some (res, w) }"

definition call3 :: "'l EngineLib \<Rightarrow> engine \<Rightarrow> (string \<Rightarrow> string \<Rightarrow> string \<Rightarrow> engine_call) \<Rightarrow> string \<Rightarrow> string \<Rightarrow> ('l, (mcp_err, string) result) cmd" where
  "call3 lib e mk x y w = do {
     (cID, w) \<leftarrow> C_CString (enServerID e) w;
     (cX, w) \<leftarrow> C_CString x w;
     (cY, w) \<leftarrow> C_CString y w;
     (res, w) \<leftarrow> callString (\<lambda>w. do { (i, w) \<leftarrow> C_read cID w; (a, w) \<leftarrow> C_read cX w; (b, w) \<leftarrow> C_read cY w;
        p \<leftarrow> enPtr e; mcp_engine_string lib p (mk i a b) w }) w;
     (_, w) \<leftarrow> C_free cY w;
     (_, w) \<leftarrow> C_free cX w;
     (_, w) \<leftarrow> C_free cID w;
     Some (res, w) }"

definition engine_listTools :: "'l EngineLib \<Rightarrow> engine \<Rightarrow> ('l, (mcp_err, string) result) cmd" where
  "engine_listTools lib e = call1 lib e CListTools"

definition engine_listResources :: "'l EngineLib \<Rightarrow> engine \<Rightarrow> ('l, (mcp_err, string) result) cmd" where
  "engine_listResources lib e = call1 lib e CListResources"

definition engine_listPrompts :: "'l EngineLib \<Rightarrow> engine \<Rightarrow> ('l, (mcp_err, string) result) cmd" where
  "engine_listPrompts lib e = call1 lib e CListPrompts"

definition engine_callTool :: "'l EngineLib \<Rightarrow> engine \<Rightarrow> string \<Rightarrow> string \<Rightarrow> ('l, (mcp_err, string) result) cmd" where
  "engine_callTool lib e name argsJSON = call3 lib e CCallTool name argsJSON"

definition engine_readResource :: "'l EngineLib \<Rightarrow> engine \<Rightarrow> string \<Rightarrow> ('l, (mcp_err, string) result) cmd" where
  "engine_readResource lib e uri = call2 lib e CReadResource uri"

definition engine_getPrompt :: "'l EngineLib \<Rightarrow> engine \<Rightarrow> string \<Rightarrow> string \<Rightarrow> ('l, (mcp_err, string) result) cmd" where
  "engine_getPrompt lib e name argsJSON = call3 lib e CGetPrompt name argsJSON"

text \<open>The frame that the methods share: connect, defer the free, call, decode. \<open>dec\<close> is \<open>json.Unmarshal\<close> into the result.\<close>

definition withEngine :: "'l EngineLib \<Rightarrow> (Transport \<Rightarrow> (string, string) result) \<Rightarrow> (string \<Rightarrow> (string, 'a) result)
    \<Rightarrow> (engine \<Rightarrow> ('l, (mcp_err, string) result) cmd) \<Rightarrow> Transport \<Rightarrow> ('l, (mcp_err, 'a) result) cmd" where
  "withEngine lib marshal dec body s w = do {
     (r, w) \<leftarrow> cgo_connect lib marshal s w;
     (case r of
        Inl e \<Rightarrow> Some (Inl e, w)
      | Inr eng \<Rightarrow> do {
          (out, w) \<leftarrow> body eng w;
          (_, w) \<leftarrow> engine_free eng w;
          Some ((case out of Inl e \<Rightarrow> Inl e | Inr raw \<Rightarrow> (case dec raw of Inl e \<Rightarrow> Inl (ErrUnmarshal e) | Inr a \<Rightarrow> Inr a)), w) })}"

definition cgo_ListTools :: "'l EngineLib \<Rightarrow> (Transport \<Rightarrow> (string, string) result) \<Rightarrow> (string \<Rightarrow> (string, Tool list) result)
    \<Rightarrow> Transport \<Rightarrow> ('l, (mcp_err, Tool list) result) cmd" where
  "cgo_ListTools lib marshal dec s = withEngine lib marshal dec (engine_listTools lib) s"

definition cgo_ListResources :: "'l EngineLib \<Rightarrow> (Transport \<Rightarrow> (string, string) result) \<Rightarrow> (string \<Rightarrow> (string, Resource list) result)
    \<Rightarrow> Transport \<Rightarrow> ('l, (mcp_err, Resource list) result) cmd" where
  "cgo_ListResources lib marshal dec s = withEngine lib marshal dec (engine_listResources lib) s"

definition cgo_ListPrompts :: "'l EngineLib \<Rightarrow> (Transport \<Rightarrow> (string, string) result) \<Rightarrow> (string \<Rightarrow> (string, Prompt list) result)
    \<Rightarrow> Transport \<Rightarrow> ('l, (mcp_err, Prompt list) result) cmd" where
  "cgo_ListPrompts lib marshal dec s = withEngine lib marshal dec (engine_listPrompts lib) s"

text \<open>The arguments are encoded after connecting; a nil map is an empty one. \<open>enc\<close> is \<open>json.Marshal\<close> of the arguments.\<close>

definition withArgs :: "(args \<Rightarrow> (string, string) result) \<Rightarrow> args option \<Rightarrow> (string \<Rightarrow> ('l, (mcp_err, string) result) cmd) \<Rightarrow> ('l, (mcp_err, string) result) cmd" where
  "withArgs enc args body w = (case enc (case args of None \<Rightarrow> [] | Some m \<Rightarrow> m) of
      Inl e \<Rightarrow> Some (Inl (ErrMarshal e), w)
    | Inr argsJSON \<Rightarrow> body argsJSON w)"

definition cgo_CallTool :: "'l EngineLib \<Rightarrow> (Transport \<Rightarrow> (string, string) result) \<Rightarrow> (args \<Rightarrow> (string, string) result) \<Rightarrow> (string \<Rightarrow> (string, ToolResult) result)
    \<Rightarrow> Transport \<Rightarrow> string \<Rightarrow> args option \<Rightarrow> ('l, (mcp_err, ToolResult) result) cmd" where
  "cgo_CallTool lib marshal enc dec s name args =
     withEngine lib marshal dec (\<lambda>eng. withArgs enc args (engine_callTool lib eng name)) s"

definition cgo_ReadResource :: "'l EngineLib \<Rightarrow> (Transport \<Rightarrow> (string, string) result) \<Rightarrow> (string \<Rightarrow> (string, ResourceContent) result)
    \<Rightarrow> Transport \<Rightarrow> string \<Rightarrow> ('l, (mcp_err, ResourceContent) result) cmd" where
  "cgo_ReadResource lib marshal dec s uri = withEngine lib marshal dec (\<lambda>eng. engine_readResource lib eng uri) s"

definition cgo_GetPrompt :: "'l EngineLib \<Rightarrow> (Transport \<Rightarrow> (string, string) result) \<Rightarrow> (args \<Rightarrow> (string, string) result) \<Rightarrow> (string \<Rightarrow> (string, PromptResult) result)
    \<Rightarrow> Transport \<Rightarrow> string \<Rightarrow> args option \<Rightarrow> ('l, (mcp_err, PromptResult) result) cmd" where
  "cgo_GetPrompt lib marshal enc dec s name args =
     withEngine lib marshal dec (\<lambda>eng. withArgs enc args (engine_getPrompt lib eng name)) s"

section \<open>Nothing leaks, nothing is used after it is freed\<close>

text \<open>Addresses from \<open>cwNext\<close> on are free. A command is balanced when it runs without undefined behaviour and leaves the live blocks as they were.\<close>

definition heapOk :: "'l CWorld \<Rightarrow> bool" where
  "heapOk w \<longleftrightarrow> (\<forall>p \<ge> cwNext w. cwLive w p = None)"

definition balanced :: "('a \<times> 'l CWorld) option \<Rightarrow> 'l CWorld \<Rightarrow> bool" where
  "balanced r w \<longleftrightarrow> (\<exists>a w'. r = Some (a, w') \<and> heapOk w' \<and> cwLive w' = cwLive w)"

lemmas heap_defs = alloc_def dealloc_def C_CString_def C_free_def C_read_def C_GoString_def mcp_engine_new_def mcp_engine_free_def
  mcp_engine_connect_def mcp_engine_string_def mcp_engine_string_free_def

lemma heapOk_fresh: "heapOk w \<Longrightarrow> cwLive w (cwNext w) = None" "heapOk w \<Longrightarrow> cwLive w (Suc (cwNext w)) = None"
  "heapOk w \<Longrightarrow> cwLive w (Suc (Suc (cwNext w))) = None" "heapOk w \<Longrightarrow> cwLive w (Suc (Suc (Suc (cwNext w)))) = None"
  by (simp_all add: heapOk_def)

lemma heapOk_live: "heapOk w \<Longrightarrow> cwLive w p = Some b \<Longrightarrow> p < cwNext w"
  unfolding heapOk_def by (metis not_less option.distinct(1))

lemma call_balanced:
  assumes "heapOk w" "enPtr e = Some p" "cwLive w p = Some EngineBlk"
  shows "balanced (call1 lib e mk1 w) w" "balanced (call2 lib e mk2 x w) w" "balanced (call3 lib e mk3 x y w) w"
proof -
  have p: "p < cwNext w" using heapOk_live [OF assms(1,3)] .
  note defs = balanced_def callString_def heap_defs heapOk_fresh [OF assms(1)] assms(2,3)
  show "balanced (call1 lib e mk1 w) w"
    using p assms(1) by (cases "lbCall lib (mk1 (cString (enServerID e))) (cwLib w)"; cases "fst (lbCall lib (mk1 (cString (enServerID e))) (cwLib w))")
      (auto simp: call1_def defs heapOk_def fun_upd_idem_iff fun_eq_iff)
  show "balanced (call2 lib e mk2 x w) w"
    using p assms(1) by (cases "lbCall lib (mk2 (cString (enServerID e)) (cString x)) (cwLib w)"; cases "fst (lbCall lib (mk2 (cString (enServerID e)) (cString x)) (cwLib w))")
      (auto simp: call2_def defs heapOk_def fun_eq_iff)
  show "balanced (call3 lib e mk3 x y w) w"
    using p assms(1) by (cases "lbCall lib (mk3 (cString (enServerID e)) (cString x) (cString y)) (cwLib w)";
        cases "fst (lbCall lib (mk3 (cString (enServerID e)) (cString x) (cString y)) (cwLib w))")
      (auto simp: call3_def defs heapOk_def fun_eq_iff)
qed

lemma newEngine_outcome:
  assumes "heapOk w"
  obtains err w' where "newEngine lib marshal s w = Some (Inl err, w')" "heapOk w'" "cwLive w' = cwLive w"
    | eng p w' where "newEngine lib marshal s w = Some (Inr eng, w')" "heapOk w'" "enPtr eng = Some p" "cwLive w p = None"
      "cwLive w' = (cwLive w)(p \<mapsto> EngineBlk)"
proof -
  note fresh = heapOk_fresh [OF assms]
  obtain r l where l: "lbNew lib (cString configJSON) (cwLib w) = (r, l)" by force
  obtain m where m: "marshal s = m" by simp
  obtain rc buf l2 where c: "lbConnect lib (cString (serverIDFor s)) (cString (projr m)) l = ((rc, buf), l2)" by (metis prod.exhaust)
  have out: "\<exists>x w'. newEngine lib marshal s w = Some (x, w') \<and> heapOk w'
      \<and> (case x of Inl e \<Rightarrow> cwLive w' = cwLive w | Inr e \<Rightarrow> enPtr e = Some (Suc (cwNext w)) \<and> cwLive w' = (cwLive w)(Suc (cwNext w) \<mapsto> EngineBlk))"
    using l m c assms fresh
    by (cases r; cases m; cases "rc = 0") (auto simp: newEngine_def heap_defs engine_free_def heapOk_def fun_eq_iff)
  then show thesis using that fresh(2) by (metis (mono_tags, lifting) old.sum.simps(5,6) sum.exhaust)
qed

lemma connect_outcome:
  assumes "heapOk w"
  obtains err w' where "cgo_connect lib marshal s w = Some (Inl err, w')" "heapOk w'" "cwLive w' = cwLive w"
    | eng p w' where "cgo_connect lib marshal s w = Some (Inr eng, w')" "heapOk w'" "enPtr eng = Some p" "cwLive w p = None"
      "cwLive w' = (cwLive w)(p \<mapsto> EngineBlk)"
proof (cases "trType s \<noteq> ''stdio'' \<and> trType s \<noteq> ''websocket''")
  case True
  then show thesis using assms that(1) by (simp add: cgo_connect_def)
next
  case False
  then have "cgo_connect lib marshal s w = newEngine lib marshal s w" unfolding cgo_connect_def by (rule if_not_P)
  then show thesis using newEngine_outcome [OF assms, of lib marshal s] that by metis
qed

lemma withEngine_balanced:
  assumes "heapOk w"
    and body: "\<And>eng p v. heapOk v \<Longrightarrow> enPtr eng = Some p \<Longrightarrow> cwLive v p = Some EngineBlk \<Longrightarrow> balanced (body eng v) v"
  shows "balanced (withEngine lib marshal dec body s w) w"
  using assms(1)
proof (cases rule: connect_outcome [where lib = lib and marshal = marshal and s = s])
  case (1 err w')
  then show ?thesis by (simp add: balanced_def withEngine_def)
next
  case (2 eng p w')
  then obtain out v where v: "body eng w' = Some (out, v)" "heapOk v" "cwLive v = cwLive w'"
    using body [of w' eng p] by (auto simp: balanced_def)
  then show ?thesis using 2
    by (auto simp: balanced_def withEngine_def engine_free_def mcp_engine_free_def dealloc_def heapOk_def fun_eq_iff)
qed

lemma withArgs_balanced: "(\<And>j. balanced (body j w) w) \<Longrightarrow> heapOk w \<Longrightarrow> balanced (withArgs enc args body w) w"
  by (auto simp: withArgs_def balanced_def split: sum.split)

section \<open>Properties\<close>

text \<open>C20: Every method of the cgo client, whatever the library answers and wherever it fails, runs without undefined behaviour of C, that is no block is freed twice,
  used after it was freed or freed with the wrong function, and leaves no block behind: the live blocks afterwards are those from before.\<close>

theorem cgo_memory_safe:
  assumes "heapOk w"
  shows "balanced (cgo_ListTools lib marshal decT s w) w \<and> balanced (cgo_ListResources lib marshal decR s w) w
    \<and> balanced (cgo_ListPrompts lib marshal decP s w) w \<and> balanced (cgo_CallTool lib marshal enc decC s name args w) w
    \<and> balanced (cgo_ReadResource lib marshal decX s uri w) w \<and> balanced (cgo_GetPrompt lib marshal enc decG s name args w) w"
  unfolding cgo_ListTools_def cgo_ListResources_def cgo_ListPrompts_def cgo_CallTool_def cgo_ReadResource_def cgo_GetPrompt_def
    engine_listTools_def engine_listResources_def engine_listPrompts_def engine_callTool_def engine_readResource_def engine_getPrompt_def
  by (intro conjI withEngine_balanced [OF assms] withArgs_balanced) (assumption | rule call_balanced)+

definition demoLib :: "nat EngineLib" where
  "demoLib = \<lparr>lbNew = (\<lambda>c n. (None, Suc n)), lbConnect = (\<lambda>i t n. ((0, ''''), n)),
     lbCall = (\<lambda>c n. (case c of CCallTool i x y \<Rightarrow> Inr (x @ y) | _ \<Rightarrow> Inl ''unknown'', n))\<rparr>"

definition demoC :: "nat CWorld" where
  "demoC = \<lparr>cwNext = 1, cwLive = (\<lambda>_. None), cwLib = 0\<rparr>"

theorem cgo_memory_safe_witness:
  "balanced (cgo_CallTool demoLib (\<lambda>_. Inr ''{}'') (\<lambda>_. Inr ''[]'') (\<lambda>l. Inr (textBlock l)) demoStdio ''echo'' None demoC) demoC
   \<and> map_option fst (cgo_CallTool demoLib (\<lambda>_. Inr ''{}'') (\<lambda>_. Inr ''[]'') (\<lambda>l. Inr (textBlock l)) demoStdio ''echo'' None demoC) = Some (Inr (textBlock ''echo[]''))"
proof
  show "balanced (cgo_CallTool demoLib (\<lambda>_. Inr ''{}'') (\<lambda>_. Inr ''[]'') (\<lambda>l. Inr (textBlock l)) demoStdio ''echo'' None demoC) demoC"
    using cgo_memory_safe [of demoC demoLib] by (simp add: heapOk_def demoC_def)
  show "map_option fst (cgo_CallTool demoLib (\<lambda>_. Inr ''{}'') (\<lambda>_. Inr ''[]'') (\<lambda>l. Inr (textBlock l)) demoStdio ''echo'' None demoC) = Some (Inr (textBlock ''echo[]''))"
    by code_simp
qed

end
