(* ===== verification/Pg_Store.thy ===== *)
theory Pg_Store
  imports Memory_Store "HOL-Library.Multiset"
begin

text \<open>
  The PostgreSQL store (\<open>internal/store/pgx.go\<close>, \<open>internal/store/json_helpers.go\<close>).

  A statement is \<open>sql\<close>: the columns, the table, and for each placeholder its number, as the text of the source has them; the
  arguments are passed beside it. The database and pgx are the record \<open>DB\<close> over an unknown state \<open>'d\<close>: \<open>dbExec\<close> gives the number of
  rows affected, \<open>dbQuery\<close> the rows and the error that \<open>rows.Err\<close> reports after them. The JSON codec of the columns is the record
  \<open>Codec\<close>. An empty \<open>json.RawMessage\<close> is a nil one, which pgx sends as NULL. On an error the listings return what they have read
  beside the error; every caller drops it, and so does the model.

  What the proofs use of PostgreSQL is \<open>sqlLaws\<close>, over the rows of the tables as multisets: a statement that succeeds has the effect
  \<open>sqlEffect\<close>, one that fails has it or none (the connection may break after the commit), a query returns the matching rows in
  the order asked for. The database normalises what it stores, UUIDs, timestamps (microseconds) and JSON documents, by functions
  of the record \<open>Canon\<close>. Keys and cascades are those of \<open>migrations/0001_init.sql\<close>.
\<close>

section \<open>Statements, the database, scanning\<close>

datatype cell = CText string | CBool bool | CTime time | CJson raw | CNull

datatype sql =
    Select "string list" string "(string \<times> nat) list" "string option"
  | Insert string "string list" "nat list"
  | Update string "(string \<times> nat) list" "(string \<times> nat) list"
  | DeleteFrom string "(string \<times> nat) list"

datatype pg_error = Sentinel store_error | DbErr string

datatype row_error = NoRows | RowErr string

record 'd DB =
  dbExec :: "sql \<Rightarrow> cell list \<Rightarrow> 'd \<Rightarrow> (string, nat) result \<times> 'd"
  dbQuery :: "sql \<Rightarrow> cell list \<Rightarrow> 'd \<Rightarrow> (string, cell list list \<times> string option) result \<times> 'd"

record Codec =
  cdSkills :: "Skill list \<Rightarrow> raw"
  cdUnSkills :: "raw \<Rightarrow> (string, Skill list) result"
  cdPermissions :: "FlowPermissionSet \<Rightarrow> raw"
  cdUnPermissions :: "raw \<Rightarrow> (string, FlowPermissionSet) result"
  cdLogs :: "LogEntry list \<Rightarrow> raw"
  cdUnLogs :: "raw \<Rightarrow> (string, LogEntry list) result"
  cdSubtasks :: "Subtask list \<Rightarrow> raw"
  cdUnSubtasks :: "raw \<Rightarrow> (string, Subtask list) result"

definition skillsJSON :: "Codec \<Rightarrow> Skill list \<Rightarrow> cell" where
  "skillsJSON cd skills = CJson (cdSkills cd skills)"

definition permissionsJSON :: "Codec \<Rightarrow> FlowPermissionSet \<Rightarrow> cell" where
  "permissionsJSON cd p = CJson (cdPermissions cd p)"

definition logsJSON :: "Codec \<Rightarrow> LogEntry list \<Rightarrow> cell" where
  "logsJSON cd logs = CJson (cdLogs cd logs)"

definition subtasksJSON :: "Codec \<Rightarrow> Subtask list \<Rightarrow> cell" where
  "subtasksJSON cd subtasks = CJson (cdSubtasks cd subtasks)"

definition rawCell :: "raw \<Rightarrow> cell" where
  "rawCell r = (if r = '''' then CNull else CJson r)"

definition timePtr :: "time option \<Rightarrow> cell" where
  "timePtr t = (case t of None \<Rightarrow> CNull | Some x \<Rightarrow> CTime x)"

text \<open>\<open>Scan\<close> into a variable of each type.\<close>

definition asText :: "cell \<Rightarrow> (string, string) result" where
  "asText c = (case c of CText s \<Rightarrow> Inr s | _ \<Rightarrow> Inl ''cannot scan into string'')"

definition asBool :: "cell \<Rightarrow> (string, bool) result" where
  "asBool c = (case c of CBool b \<Rightarrow> Inr b | _ \<Rightarrow> Inl ''cannot scan into bool'')"

definition asTime :: "cell \<Rightarrow> (string, time) result" where
  "asTime c = (case c of CTime t \<Rightarrow> Inr t | _ \<Rightarrow> Inl ''cannot scan into time.Time'')"

definition asTimePtr :: "cell \<Rightarrow> (string, time option) result" where
  "asTimePtr c = (case c of CTime t \<Rightarrow> Inr (Some t) | CNull \<Rightarrow> Inr None | _ \<Rightarrow> Inl ''cannot scan into time.Time'')"

definition asRaw :: "cell \<Rightarrow> (string, raw) result" where
  "asRaw c = (case c of CJson j \<Rightarrow> Inr j | CNull \<Rightarrow> Inr '''' | _ \<Rightarrow> Inl ''cannot scan into json.RawMessage'')"

definition asJSON :: "(raw \<Rightarrow> (string, 'a) result) \<Rightarrow> cell \<Rightarrow> (string, 'a) result" where
  "asJSON dec c = (case c of CJson j \<Rightarrow> dec j | _ \<Rightarrow> Inl ''cannot scan into JSON'')"

lemmas scan_defs = asText_def asBool_def asTime_def asTimePtr_def asRaw_def asJSON_def

text \<open>\<open>pool.QueryRow(...).Scan(...)\<close>, a loop over \<open>rows.Next\<close>, and the three uses of \<open>pool.Exec\<close>.\<close>

definition queryRow :: "'d DB \<Rightarrow> (cell list \<Rightarrow> (string, 'r) result) \<Rightarrow> sql \<Rightarrow> cell list \<Rightarrow> 'd \<Rightarrow> (row_error, 'r) result \<times> 'd" where
  "queryRow db scan q args d = (case dbQuery db q args d of
      (Inl e, d') \<Rightarrow> (Inl (RowErr e), d')
    | (Inr ([], None), d') \<Rightarrow> (Inl NoRows, d')
    | (Inr (_, Some e), d') \<Rightarrow> (Inl (RowErr e), d')
    | (Inr (r # _, None), d') \<Rightarrow> (case scan r of Inl e \<Rightarrow> (Inl (RowErr e), d') | Inr x \<Rightarrow> (Inr x, d')))"

definition wrapNotFound :: "row_error \<Rightarrow> pg_error" where
  "wrapNotFound e = (case e of NoRows \<Rightarrow> Sentinel ErrNotFound | RowErr s \<Rightarrow> DbErr s)"

definition getRow :: "'d DB \<Rightarrow> (cell list \<Rightarrow> (string, 'r) result) \<Rightarrow> sql \<Rightarrow> cell list \<Rightarrow> 'd \<Rightarrow> (pg_error, 'r) result \<times> 'd" where
  "getRow db scan q args d = (case queryRow db scan q args d of
      (Inl e, d') \<Rightarrow> (Inl (wrapNotFound e), d')
    | (Inr x, d') \<Rightarrow> (Inr x, d'))"

fun scanRows :: "(cell list \<Rightarrow> (string, 'r) result) \<Rightarrow> cell list list \<Rightarrow> string option \<Rightarrow> (pg_error, 'r list) result" where
  "scanRows scan [] err = (case err of None \<Rightarrow> Inr [] | Some e \<Rightarrow> Inl (DbErr e))"
| "scanRows scan (r # rs) err = (case scan r of
      Inl e \<Rightarrow> Inl (DbErr e)
    | Inr x \<Rightarrow> map_res (\<lambda>xs. x # xs) (scanRows scan rs err))"

definition listRows :: "'d DB \<Rightarrow> (cell list \<Rightarrow> (string, 'r) result) \<Rightarrow> sql \<Rightarrow> cell list \<Rightarrow> 'd \<Rightarrow> (pg_error, 'r list) result \<times> 'd" where
  "listRows db scan q args d = (case dbQuery db q args d of
      (Inl e, d') \<Rightarrow> (Inl (DbErr e), d')
    | (Inr (rs, err), d') \<Rightarrow> (scanRows scan rs err, d'))"

definition execInsert :: "'d DB \<Rightarrow> sql \<Rightarrow> cell list \<Rightarrow> 'r \<Rightarrow> 'd \<Rightarrow> (pg_error, 'r) result \<times> 'd" where
  "execInsert db q args r d = (case dbExec db q args d of (Inl e, d') \<Rightarrow> (Inl (DbErr e), d') | (Inr _, d') \<Rightarrow> (Inr r, d'))"

definition execAffected :: "'d DB \<Rightarrow> sql \<Rightarrow> cell list \<Rightarrow> 'r \<Rightarrow> 'd \<Rightarrow> (pg_error, 'r) result \<times> 'd" where
  "execAffected db q args r d = (case dbExec db q args d of
      (Inl e, d') \<Rightarrow> (Inl (DbErr e), d')
    | (Inr n, d') \<Rightarrow> (if n = 0 then (Inl (Sentinel ErrNotFound), d') else (Inr r, d')))"

section \<open>The methods\<close>

text \<open>Agents\<close>

definition agentCols :: "string list" where
  "agentCols = [''id'', ''tenant_id'', ''name'', ''profile'', ''system_prompt'', ''skills'', ''enabled'', ''created_at'', ''updated_at'']"

definition scanAgent :: "Codec \<Rightarrow> cell list \<Rightarrow> (string, Agent) result" where
  "scanAgent cd row = (case row of
      [i, t, n, p, s, k, e, c, u] \<Rightarrow>
        bind_res (asText i) (\<lambda>i. bind_res (asText t) (\<lambda>t. bind_res (asText n) (\<lambda>n. bind_res (asText p) (\<lambda>p. bind_res (asText s) (\<lambda>s.
        bind_res (asJSON (cdUnSkills cd) k) (\<lambda>k. bind_res (asBool e) (\<lambda>e. bind_res (asTime c) (\<lambda>c. bind_res (asTime u) (\<lambda>u.
          Inr \<lparr>agID = i, agTenantID = t, agName = n, agProfile = p, agSystemPrompt = s, agSkills = k, agEnabled = e, agCreatedAt = c, agUpdatedAt = u\<rparr>)))))))))
    | _ \<Rightarrow> Inl ''number of columns'')"

definition pg_ListAgents :: "'d DB \<Rightarrow> Codec \<Rightarrow> string \<Rightarrow> 'd \<Rightarrow> (pg_error, Agent list) result \<times> 'd" where
  "pg_ListAgents db cd tenantID d =
     listRows db (scanAgent cd) (Select agentCols ''agents'' [(''tenant_id'', 1)] (Some ''name'')) [CText tenantID] d"

definition pg_GetAgent :: "'d DB \<Rightarrow> Codec \<Rightarrow> string \<Rightarrow> string \<Rightarrow> 'd \<Rightarrow> (pg_error, Agent) result \<times> 'd" where
  "pg_GetAgent db cd tenantID i d =
     getRow db (scanAgent cd) (Select agentCols ''agents'' [(''tenant_id'', 1), (''id'', 2)] None) [CText tenantID, CText i] d"

definition agentInsert :: "Codec \<Rightarrow> Agent \<Rightarrow> cell list" where
  "agentInsert cd agent =
     [CText (agID agent), CText (agTenantID agent), CText (agName agent), CText (agProfile agent), CText (agSystemPrompt agent),
      skillsJSON cd (agSkills agent), CBool (agEnabled agent), CTime (agCreatedAt agent), CTime (agUpdatedAt agent)]"

definition pg_CreateAgent :: "'d DB \<Rightarrow> Codec \<Rightarrow> Agent \<Rightarrow> 'd \<Rightarrow> (pg_error, Agent) result \<times> 'd" where
  "pg_CreateAgent db cd agent d =
     execInsert db (Insert ''agents'' agentCols [1, 2, 3, 4, 5, 6, 7, 8, 9]) (agentInsert cd agent) agent d"

definition agentSets :: "(string \<times> nat) list" where
  "agentSets = [(''name'', 1), (''profile'', 2), (''system_prompt'', 3), (''skills'', 4), (''enabled'', 5), (''updated_at'', 6)]"

definition agentWhere :: "(string \<times> nat) list" where
  "agentWhere = [(''tenant_id'', 7), (''id'', 8)]"

definition agentUpdate :: "Codec \<Rightarrow> Agent \<Rightarrow> cell list" where
  "agentUpdate cd agent =
     [CText (agName agent), CText (agProfile agent), CText (agSystemPrompt agent), skillsJSON cd (agSkills agent), CBool (agEnabled agent),
      CTime (agUpdatedAt agent), CText (agTenantID agent), CText (agID agent)]"

definition pg_UpdateAgent :: "'d DB \<Rightarrow> Codec \<Rightarrow> Agent \<Rightarrow> 'd \<Rightarrow> (pg_error, Agent) result \<times> 'd" where
  "pg_UpdateAgent db cd agent d =
     execAffected db (Update ''agents'' agentSets agentWhere) (agentUpdate cd agent) agent d"

definition pg_DeleteAgent :: "'d DB \<Rightarrow> string \<Rightarrow> string \<Rightarrow> 'd \<Rightarrow> (pg_error, unit) result \<times> 'd" where
  "pg_DeleteAgent db tenantID i d =
     execAffected db (DeleteFrom ''agents'' [(''tenant_id'', 1), (''id'', 2)]) [CText tenantID, CText i] () d"

text \<open>McpServers\<close>

definition serverCols :: "string list" where
  "serverCols = [''id'', ''tenant_id'', ''name'', ''transport'', ''enabled'', ''status'', ''created_at'', ''updated_at'']"

definition scanMcpServer :: "cell list \<Rightarrow> (string, McpServer) result" where
  "scanMcpServer row = (case row of
      [i, t, n, tr, e, s, c, u] \<Rightarrow>
        bind_res (asText i) (\<lambda>i. bind_res (asText t) (\<lambda>t. bind_res (asText n) (\<lambda>n. bind_res (asRaw tr) (\<lambda>tr. bind_res (asBool e) (\<lambda>e.
        bind_res (asText s) (\<lambda>s. bind_res (asTime c) (\<lambda>c. bind_res (asTime u) (\<lambda>u.
          Inr \<lparr>msvID = i, msvTenantID = t, msvName = n, msvTransport = tr, msvEnabled = e, msvStatus = s, msvCreatedAt = c, msvUpdatedAt = u\<rparr>))))))))
    | _ \<Rightarrow> Inl ''number of columns'')"

definition pg_ListMcpServers :: "'d DB \<Rightarrow> string \<Rightarrow> 'd \<Rightarrow> (pg_error, McpServer list) result \<times> 'd" where
  "pg_ListMcpServers db tenantID d =
     listRows db scanMcpServer (Select serverCols ''mcp_servers'' [(''tenant_id'', 1)] (Some ''name'')) [CText tenantID] d"

definition pg_GetMcpServer :: "'d DB \<Rightarrow> string \<Rightarrow> string \<Rightarrow> 'd \<Rightarrow> (pg_error, McpServer) result \<times> 'd" where
  "pg_GetMcpServer db tenantID i d =
     getRow db scanMcpServer (Select serverCols ''mcp_servers'' [(''tenant_id'', 1), (''id'', 2)] None) [CText tenantID, CText i] d"

definition serverInsert :: "McpServer \<Rightarrow> cell list" where
  "serverInsert server =
     [CText (msvID server), CText (msvTenantID server), CText (msvName server), rawCell (msvTransport server), CBool (msvEnabled server),
      CText (msvStatus server), CTime (msvCreatedAt server), CTime (msvUpdatedAt server)]"

definition pg_CreateMcpServer :: "'d DB \<Rightarrow> McpServer \<Rightarrow> 'd \<Rightarrow> (pg_error, McpServer) result \<times> 'd" where
  "pg_CreateMcpServer db server d =
     execInsert db (Insert ''mcp_servers'' serverCols [1, 2, 3, 4, 5, 6, 7, 8]) (serverInsert server) server d"

definition serverSets :: "(string \<times> nat) list" where
  "serverSets = [(''name'', 1), (''transport'', 2), (''enabled'', 3), (''status'', 4), (''updated_at'', 5)]"

definition serverWhere :: "(string \<times> nat) list" where
  "serverWhere = [(''tenant_id'', 6), (''id'', 7)]"

definition serverUpdate :: "McpServer \<Rightarrow> cell list" where
  "serverUpdate server =
     [CText (msvName server), rawCell (msvTransport server), CBool (msvEnabled server), CText (msvStatus server), CTime (msvUpdatedAt server),
      CText (msvTenantID server), CText (msvID server)]"

definition pg_UpdateMcpServer :: "'d DB \<Rightarrow> McpServer \<Rightarrow> 'd \<Rightarrow> (pg_error, McpServer) result \<times> 'd" where
  "pg_UpdateMcpServer db server d =
     execAffected db (Update ''mcp_servers'' serverSets serverWhere) (serverUpdate server) server d"

definition pg_DeleteMcpServer :: "'d DB \<Rightarrow> string \<Rightarrow> string \<Rightarrow> 'd \<Rightarrow> (pg_error, unit) result \<times> 'd" where
  "pg_DeleteMcpServer db tenantID i d =
     execAffected db (DeleteFrom ''mcp_servers'' [(''tenant_id'', 1), (''id'', 2)]) [CText tenantID, CText i] () d"

text \<open>Flows\<close>

definition flowCols :: "string list" where
  "flowCols = [''id'', ''tenant_id'', ''name'', ''flow_json'', ''permissions'', ''enabled'', ''created_at'', ''updated_at'']"

definition scanFlow :: "Codec \<Rightarrow> cell list \<Rightarrow> (string, Flow) result" where
  "scanFlow cd row = (case row of
      [i, t, n, f, p, e, c, u] \<Rightarrow>
        bind_res (asText i) (\<lambda>i. bind_res (asText t) (\<lambda>t. bind_res (asText n) (\<lambda>n. bind_res (asRaw f) (\<lambda>f.
        bind_res (asJSON (cdUnPermissions cd) p) (\<lambda>p. bind_res (asBool e) (\<lambda>e. bind_res (asTime c) (\<lambda>c. bind_res (asTime u) (\<lambda>u.
          Inr \<lparr>flID = i, flTenantID = t, flName = n, flFlowJSON = f, flPermissions = p, flEnabled = e, flCreatedAt = c, flUpdatedAt = u\<rparr>))))))))
    | _ \<Rightarrow> Inl ''number of columns'')"

definition pg_ListFlows :: "'d DB \<Rightarrow> Codec \<Rightarrow> string \<Rightarrow> 'd \<Rightarrow> (pg_error, Flow list) result \<times> 'd" where
  "pg_ListFlows db cd tenantID d =
     listRows db (scanFlow cd) (Select flowCols ''flows'' [(''tenant_id'', 1)] (Some ''name'')) [CText tenantID] d"

definition pg_GetFlow :: "'d DB \<Rightarrow> Codec \<Rightarrow> string \<Rightarrow> string \<Rightarrow> 'd \<Rightarrow> (pg_error, Flow) result \<times> 'd" where
  "pg_GetFlow db cd tenantID i d =
     getRow db (scanFlow cd) (Select flowCols ''flows'' [(''tenant_id'', 1), (''id'', 2)] None) [CText tenantID, CText i] d"

definition flowInsert :: "Codec \<Rightarrow> Flow \<Rightarrow> cell list" where
  "flowInsert cd fl =
     [CText (flID fl), CText (flTenantID fl), CText (flName fl), rawCell (flFlowJSON fl), permissionsJSON cd (flPermissions fl), CBool (flEnabled fl),
      CTime (flCreatedAt fl), CTime (flUpdatedAt fl)]"

definition pg_CreateFlow :: "'d DB \<Rightarrow> Codec \<Rightarrow> Flow \<Rightarrow> 'd \<Rightarrow> (pg_error, Flow) result \<times> 'd" where
  "pg_CreateFlow db cd fl d =
     execInsert db (Insert ''flows'' flowCols [1, 2, 3, 4, 5, 6, 7, 8]) (flowInsert cd fl) fl d"

definition flowSets :: "(string \<times> nat) list" where
  "flowSets = [(''name'', 1), (''flow_json'', 2), (''permissions'', 3), (''enabled'', 4), (''updated_at'', 5)]"

definition flowWhere :: "(string \<times> nat) list" where
  "flowWhere = [(''tenant_id'', 6), (''id'', 7)]"

definition flowUpdate :: "Codec \<Rightarrow> Flow \<Rightarrow> cell list" where
  "flowUpdate cd fl =
     [CText (flName fl), rawCell (flFlowJSON fl), permissionsJSON cd (flPermissions fl), CBool (flEnabled fl), CTime (flUpdatedAt fl),
      CText (flTenantID fl), CText (flID fl)]"

definition pg_UpdateFlow :: "'d DB \<Rightarrow> Codec \<Rightarrow> Flow \<Rightarrow> 'd \<Rightarrow> (pg_error, Flow) result \<times> 'd" where
  "pg_UpdateFlow db cd fl d =
     execAffected db (Update ''flows'' flowSets flowWhere) (flowUpdate cd fl) fl d"

definition pg_DeleteFlow :: "'d DB \<Rightarrow> string \<Rightarrow> string \<Rightarrow> 'd \<Rightarrow> (pg_error, unit) result \<times> 'd" where
  "pg_DeleteFlow db tenantID i d =
     execAffected db (DeleteFrom ''flows'' [(''tenant_id'', 1), (''id'', 2)]) [CText tenantID, CText i] () d"

text \<open>Runs\<close>

definition runCols :: "string list" where
  "runCols = [''id'', ''flow_id'', ''tenant_id'', ''status'', ''started_at'', ''finished_at'', ''logs'', ''result'']"

definition scanRun :: "Codec \<Rightarrow> cell list \<Rightarrow> (string, Run) result" where
  "scanRun cd row = (case row of
      [i, f, t, s, st, fi, l, r] \<Rightarrow>
        bind_res (asText i) (\<lambda>i. bind_res (asText f) (\<lambda>f. bind_res (asText t) (\<lambda>t. bind_res (asText s) (\<lambda>s. bind_res (asTime st) (\<lambda>st.
        bind_res (asTimePtr fi) (\<lambda>fi. bind_res (asJSON (cdUnLogs cd) l) (\<lambda>l. bind_res (asRaw r) (\<lambda>r.
          Inr \<lparr>ruID = i, ruFlowID = f, ruTenantID = t, ruStatus = s, ruStartedAt = st, ruFinishedAt = fi, ruLogs = l, ruResult = r\<rparr>))))))))
    | _ \<Rightarrow> Inl ''number of columns'')"

definition runInsert :: "Codec \<Rightarrow> Run \<Rightarrow> cell list" where
  "runInsert cd run =
     [CText (ruID run), CText (ruFlowID run), CText (ruTenantID run), CText (ruStatus run), CTime (ruStartedAt run), timePtr (ruFinishedAt run),
      logsJSON cd (ruLogs run), rawCell (ruResult run)]"

definition pg_CreateRun :: "'d DB \<Rightarrow> Codec \<Rightarrow> Run \<Rightarrow> 'd \<Rightarrow> (pg_error, Run) result \<times> 'd" where
  "pg_CreateRun db cd run d =
     execInsert db (Insert ''runs'' runCols [1, 2, 3, 4, 5, 6, 7, 8]) (runInsert cd run) run d"

definition pg_GetRun :: "'d DB \<Rightarrow> Codec \<Rightarrow> string \<Rightarrow> string \<Rightarrow> 'd \<Rightarrow> (pg_error, Run) result \<times> 'd" where
  "pg_GetRun db cd tenantID i d =
     getRow db (scanRun cd) (Select runCols ''runs'' [(''tenant_id'', 1), (''id'', 2)] None) [CText tenantID, CText i] d"

definition pg_ListRuns :: "'d DB \<Rightarrow> Codec \<Rightarrow> string \<Rightarrow> string \<Rightarrow> 'd \<Rightarrow> (pg_error, Run list) result \<times> 'd" where
  "pg_ListRuns db cd tenantID flowID d =
     (let (cond, args) = (if flowID \<noteq> '''' then ([(''tenant_id'', 1), (''flow_id'', 2)], [CText tenantID, CText flowID])
                          else ([(''tenant_id'', 1)], [CText tenantID]))
      in listRows db (scanRun cd) (Select runCols ''runs'' cond (Some ''started_at'')) args d)"

definition runSets :: "(string \<times> nat) list" where
  "runSets = [(''status'', 1), (''started_at'', 2), (''finished_at'', 3), (''logs'', 4), (''result'', 5)]"

definition runWhere :: "(string \<times> nat) list" where
  "runWhere = [(''tenant_id'', 6), (''id'', 7)]"

definition runUpdate :: "Codec \<Rightarrow> Run \<Rightarrow> cell list" where
  "runUpdate cd run =
     [CText (ruStatus run), CTime (ruStartedAt run), timePtr (ruFinishedAt run), logsJSON cd (ruLogs run), rawCell (ruResult run),
      CText (ruTenantID run), CText (ruID run)]"

definition pg_UpdateRun :: "'d DB \<Rightarrow> Codec \<Rightarrow> Run \<Rightarrow> 'd \<Rightarrow> (pg_error, Run) result \<times> 'd" where
  "pg_UpdateRun db cd run d =
     execAffected db (Update ''runs'' runSets runWhere) (runUpdate cd run) run d"

text \<open>Tasks\<close>

definition taskCols :: "string list" where
  "taskCols = [''id'', ''tenant_id'', ''input'', ''status'', ''subtasks'', ''result'', ''created_at'', ''updated_at'']"

definition scanTask :: "Codec \<Rightarrow> cell list \<Rightarrow> (string, Task) result" where
  "scanTask cd row = (case row of
      [i, t, n, s, b, r, c, u] \<Rightarrow>
        bind_res (asText i) (\<lambda>i. bind_res (asText t) (\<lambda>t. bind_res (asText n) (\<lambda>n. bind_res (asText s) (\<lambda>s.
        bind_res (asJSON (cdUnSubtasks cd) b) (\<lambda>b. bind_res (asRaw r) (\<lambda>r. bind_res (asTime c) (\<lambda>c. bind_res (asTime u) (\<lambda>u.
          Inr \<lparr>taID = i, taTenantID = t, taInput = n, taStatus = s, taSubtasks = b, taResult = r, taCreatedAt = c, taUpdatedAt = u\<rparr>))))))))
    | _ \<Rightarrow> Inl ''number of columns'')"

definition taskInsert :: "Codec \<Rightarrow> Task \<Rightarrow> cell list" where
  "taskInsert cd task =
     [CText (taID task), CText (taTenantID task), CText (taInput task), CText (taStatus task), subtasksJSON cd (taSubtasks task),
      rawCell (taResult task), CTime (taCreatedAt task), CTime (taUpdatedAt task)]"

definition pg_CreateTask :: "'d DB \<Rightarrow> Codec \<Rightarrow> Task \<Rightarrow> 'd \<Rightarrow> (pg_error, Task) result \<times> 'd" where
  "pg_CreateTask db cd task d =
     execInsert db (Insert ''tasks'' taskCols [1, 2, 3, 4, 5, 6, 7, 8]) (taskInsert cd task) task d"

definition pg_GetTask :: "'d DB \<Rightarrow> Codec \<Rightarrow> string \<Rightarrow> string \<Rightarrow> 'd \<Rightarrow> (pg_error, Task) result \<times> 'd" where
  "pg_GetTask db cd tenantID i d =
     getRow db (scanTask cd) (Select taskCols ''tasks'' [(''tenant_id'', 1), (''id'', 2)] None) [CText tenantID, CText i] d"

definition pg_ListTasks :: "'d DB \<Rightarrow> Codec \<Rightarrow> string \<Rightarrow> 'd \<Rightarrow> (pg_error, Task list) result \<times> 'd" where
  "pg_ListTasks db cd tenantID d =
     listRows db (scanTask cd) (Select taskCols ''tasks'' [(''tenant_id'', 1)] (Some ''created_at'')) [CText tenantID] d"

definition taskSets :: "(string \<times> nat) list" where
  "taskSets = [(''input'', 1), (''status'', 2), (''subtasks'', 3), (''result'', 4), (''updated_at'', 5)]"

definition taskWhere :: "(string \<times> nat) list" where
  "taskWhere = [(''tenant_id'', 6), (''id'', 7)]"

definition taskUpdate :: "Codec \<Rightarrow> Task \<Rightarrow> cell list" where
  "taskUpdate cd task =
     [CText (taInput task), CText (taStatus task), subtasksJSON cd (taSubtasks task), rawCell (taResult task), CTime (taUpdatedAt task),
      CText (taTenantID task), CText (taID task)]"

definition pg_UpdateTask :: "'d DB \<Rightarrow> Codec \<Rightarrow> Task \<Rightarrow> 'd \<Rightarrow> (pg_error, Task) result \<times> 'd" where
  "pg_UpdateTask db cd task d =
     execAffected db (Update ''tasks'' taskSets taskWhere) (taskUpdate cd task) task d"

text \<open>Users\<close>

definition userCols :: "string list" where
  "userCols = [''id'', ''tenant_id'', ''username'', ''password_hash'', ''role'', ''created_at'', ''updated_at'']"

definition scanUser :: "cell list \<Rightarrow> (string, User) result" where
  "scanUser row = (case row of
      [i, t, n, h, r, c, u] \<Rightarrow>
        bind_res (asText i) (\<lambda>i. bind_res (asText t) (\<lambda>t. bind_res (asText n) (\<lambda>n. bind_res (asText h) (\<lambda>h. bind_res (asText r) (\<lambda>r.
        bind_res (asTime c) (\<lambda>c. bind_res (asTime u) (\<lambda>u.
          Inr \<lparr>usID = i, usTenantID = t, usUsername = n, usPasswordHash = h, usRole = r, usCreatedAt = c, usUpdatedAt = u\<rparr>)))))))
    | _ \<Rightarrow> Inl ''number of columns'')"

definition pg_ListUsers :: "'d DB \<Rightarrow> string \<Rightarrow> 'd \<Rightarrow> (pg_error, User list) result \<times> 'd" where
  "pg_ListUsers db tenantID d =
     listRows db scanUser (Select userCols ''users'' [(''tenant_id'', 1)] (Some ''username'')) [CText tenantID] d"

definition pg_GetUser :: "'d DB \<Rightarrow> string \<Rightarrow> string \<Rightarrow> 'd \<Rightarrow> (pg_error, User) result \<times> 'd" where
  "pg_GetUser db tenantID i d =
     getRow db scanUser (Select userCols ''users'' [(''tenant_id'', 1), (''id'', 2)] None) [CText tenantID, CText i] d"

definition pg_GetUserByUsername :: "'d DB \<Rightarrow> string \<Rightarrow> string \<Rightarrow> 'd \<Rightarrow> (pg_error, User) result \<times> 'd" where
  "pg_GetUserByUsername db tenantID username d =
     getRow db scanUser (Select userCols ''users'' [(''tenant_id'', 1), (''username'', 2)] None) [CText tenantID, CText username] d"

definition userInsert :: "User \<Rightarrow> cell list" where
  "userInsert user =
     [CText (usID user), CText (usTenantID user), CText (usUsername user), CText (usPasswordHash user), CText (usRole user),
      CTime (usCreatedAt user), CTime (usUpdatedAt user)]"

definition pg_CreateUser :: "'d DB \<Rightarrow> User \<Rightarrow> 'd \<Rightarrow> (pg_error, User) result \<times> 'd" where
  "pg_CreateUser db user d =
     execInsert db (Insert ''users'' userCols [1, 2, 3, 4, 5, 6, 7]) (userInsert user) user d"

definition userSets :: "(string \<times> nat) list" where
  "userSets = [(''username'', 1), (''password_hash'', 2), (''role'', 3), (''updated_at'', 4)]"

definition userWhere :: "(string \<times> nat) list" where
  "userWhere = [(''tenant_id'', 5), (''id'', 6)]"

definition userUpdate :: "User \<Rightarrow> cell list" where
  "userUpdate user =
     [CText (usUsername user), CText (usPasswordHash user), CText (usRole user), CTime (usUpdatedAt user), CText (usTenantID user),
      CText (usID user)]"

definition pg_UpdateUser :: "'d DB \<Rightarrow> User \<Rightarrow> 'd \<Rightarrow> (pg_error, User) result \<times> 'd" where
  "pg_UpdateUser db user d =
     execAffected db (Update ''users'' userSets userWhere) (userUpdate user) user d"

definition pg_DeleteUser :: "'d DB \<Rightarrow> string \<Rightarrow> string \<Rightarrow> 'd \<Rightarrow> (pg_error, unit) result \<times> 'd" where
  "pg_DeleteUser db tenantID i d =
     execAffected db (DeleteFrom ''users'' [(''tenant_id'', 1), (''id'', 2)]) [CText tenantID, CText i] () d"

text \<open>Tenants\<close>

definition tenantCols :: "string list" where
  "tenantCols = [''id'', ''name'', ''created_at'']"

definition scanTenant :: "cell list \<Rightarrow> (string, Tenant) result" where
  "scanTenant row = (case row of
      [i, n, c] \<Rightarrow> bind_res (asText i) (\<lambda>i. bind_res (asText n) (\<lambda>n. bind_res (asTime c) (\<lambda>c. Inr \<lparr>teID = i, teName = n, teCreatedAt = c\<rparr>)))
    | _ \<Rightarrow> Inl ''number of columns'')"

definition pg_GetTenant :: "'d DB \<Rightarrow> string \<Rightarrow> 'd \<Rightarrow> (pg_error, Tenant) result \<times> 'd" where
  "pg_GetTenant db i d = getRow db scanTenant (Select tenantCols ''tenants'' [(''id'', 1)] None) [CText i] d"

definition tenantInsert :: "Tenant \<Rightarrow> cell list" where
  "tenantInsert t =
     [CText (teID t), CText (teName t), CTime (teCreatedAt t)]"

definition pg_CreateTenant :: "'d DB \<Rightarrow> Tenant \<Rightarrow> 'd \<Rightarrow> (pg_error, Tenant) result \<times> 'd" where
  "pg_CreateTenant db t d =
     execInsert db (Insert ''tenants'' tenantCols [1, 2, 3]) (tenantInsert t) t d"

section \<open>What is used of PostgreSQL\<close>

type_synonym row = "string \<Rightarrow> cell"
type_synonym tables = "string \<Rightarrow> row multiset"

record Canon =
  cnUuid :: "string \<Rightarrow> string"
  cnTime :: "time \<Rightarrow> time"
  cnJson :: "raw \<Rightarrow> raw"
  cnLe :: "cell \<Rightarrow> cell \<Rightarrow> bool"

definition uuidCols :: "string list" where
  "uuidCols = [''id'', ''tenant_id'', ''flow_id'']"

definition canon :: "Canon \<Rightarrow> string \<Rightarrow> cell \<Rightarrow> cell" where
  "canon cn col c = (case c of
      CText s \<Rightarrow> CText (if col \<in> set uuidCols then cnUuid cn s else s)
    | CTime t \<Rightarrow> CTime (cnTime cn t)
    | CJson j \<Rightarrow> CJson (cnJson cn j)
    | CBool b \<Rightarrow> CBool b
    | CNull \<Rightarrow> CNull)"

definition argAt :: "cell list \<Rightarrow> nat \<Rightarrow> cell" where
  "argAt args n = (if 1 \<le> n \<and> n \<le> length args then args ! (n - 1) else CNull)"

definition matches :: "Canon \<Rightarrow> cell list \<Rightarrow> (string \<times> nat) list \<Rightarrow> row \<Rightarrow> bool" where
  "matches cn args cond r \<longleftrightarrow> list_all (\<lambda>(c, n). r c \<noteq> CNull \<and> r c = canon cn c (argAt args n)) cond"

definition setCols :: "Canon \<Rightarrow> cell list \<Rightarrow> (string \<times> nat) list \<Rightarrow> row \<Rightarrow> row" where
  "setCols cn args sets r = (\<lambda>c. case map_of sets c of Some n \<Rightarrow> canon cn c (argAt args n) | None \<Rightarrow> r c)"

definition uniqueOn :: "(row \<Rightarrow> 'k) \<Rightarrow> row multiset \<Rightarrow> bool" where
  "uniqueOn f M \<longleftrightarrow> (\<forall>k. size {#r \<in># M. f r = k#} \<le> 1)"

text \<open>The primary keys, \<open>UNIQUE (tenant_id, username)\<close>, and the foreign keys with \<open>ON DELETE CASCADE\<close> (child, column, parent).\<close>

definition constraints :: "tables \<Rightarrow> bool" where
  "constraints R \<longleftrightarrow> (\<forall>tab. uniqueOn (\<lambda>r. r ''id'') (R tab)) \<and> uniqueOn (\<lambda>r. (r ''tenant_id'', r ''username'')) (R ''users'')"

definition foreignKeys :: "(string \<times> string \<times> string) list" where
  "foreignKeys = [(''users'', ''tenant_id'', ''tenants''), (''agents'', ''tenant_id'', ''tenants''), (''mcp_servers'', ''tenant_id'', ''tenants''),
     (''flows'', ''tenant_id'', ''tenants''), (''runs'', ''flow_id'', ''flows''), (''runs'', ''tenant_id'', ''tenants''),
     (''tasks'', ''tenant_id'', ''tenants'')]"

definition orphaned :: "string \<Rightarrow> row multiset \<Rightarrow> string \<Rightarrow> row \<Rightarrow> bool" where
  "orphaned parent gone tab r \<longleftrightarrow>
     (\<exists>(child, fk, par) \<in> set foreignKeys. child = tab \<and> par = parent \<and> (\<exists>g \<in># gone. r fk = g ''id''))"

fun sqlEffect :: "Canon \<Rightarrow> sql \<Rightarrow> cell list \<Rightarrow> tables \<Rightarrow> nat \<Rightarrow> tables \<Rightarrow> bool" where
  "sqlEffect cn (Select cols tab cond ord) args R n R' \<longleftrightarrow> R' = R"
| "sqlEffect cn (Insert tab cols phs) args R n R' \<longleftrightarrow> n = 1 \<and> constraints R'
     \<and> (\<exists>r. list_all2 (\<lambda>c k. r c = canon cn c (argAt args k)) cols phs \<and> R' = R(tab := add_mset r (R tab)))"
| "sqlEffect cn (Update tab sets cond) args R n R' \<longleftrightarrow> n = size (filter_mset (matches cn args cond) (R tab)) \<and> constraints R'
     \<and> R' = R(tab := image_mset (\<lambda>r. if matches cn args cond r then setCols cn args sets r else r) (R tab))"
| "sqlEffect cn (DeleteFrom tab cond) args R n R' \<longleftrightarrow>
     (let gone = filter_mset (matches cn args cond) (R tab)
      in tab \<noteq> ''tenants'' \<longrightarrow> n = size gone
         \<and> R' = (\<lambda>t. filter_mset (\<lambda>r. \<not> (t = tab \<and> matches cn args cond r) \<and> \<not> orphaned tab gone t r) (R t)))"

definition sqlLaws :: "'d DB \<Rightarrow> Canon \<Rightarrow> ('d \<Rightarrow> tables) \<Rightarrow> bool" where
  "sqlLaws db cn rows \<longleftrightarrow>
     (\<forall>q args d. rows (snd (dbQuery db q args d)) = rows d)
     \<and> (\<forall>cols tab cond ord args d rs d'. dbQuery db (Select cols tab cond ord) args d = (Inr (rs, None), d') \<longrightarrow>
          (\<exists>ms. mset ms = filter_mset (matches cn args cond) (rows d tab) \<and> rs = map (\<lambda>r. map r cols) ms
             \<and> (case ord of None \<Rightarrow> True | Some c \<Rightarrow> sorted_wrt (\<lambda>r r'. cnLe cn (r c) (r' c)) ms)))
     \<and> (\<forall>q args d n d'. constraints (rows d) \<and> dbExec db q args d = (Inr n, d') \<longrightarrow> sqlEffect cn q args (rows d) n (rows d'))
     \<and> (\<forall>q args d e d'. constraints (rows d) \<and> dbExec db q args d = (Inl e, d') \<longrightarrow>
          rows d' = rows d \<or> (\<exists>n. sqlEffect cn q args (rows d) n (rows d')))"

end
