(* ===== verification/Pg_Refinement.thy ===== *)
theory Pg_Refinement
  imports Pg_Store
begin

text \<open>
  The PostgreSQL store refines the specification of the in-memory store, up to three differences that the specification \<open>pgSpec\<close>
  states: an update keeps the columns it does not set, deleting a flow deletes its runs, and an id that is taken or empty gives an error
  of the database and no sentinel error.

  The tables are read as partial maps from tenant and id; the lemmas on INSERT, UPDATE and DELETE are proved once, in the locale
  \<open>pg_resource\<close>, and interpreted for every resource.
\<close>

section \<open>Tables as partial maps\<close>

definition pgTable :: "(cell list \<Rightarrow> (string, 'r) result) \<Rightarrow> string list \<Rightarrow> ('r \<Rightarrow> string) \<Rightarrow> ('r \<Rightarrow> string) \<Rightarrow> row multiset \<Rightarrow> 'r pmap" where
  "pgTable scan cols tenant ident M t i =
     (let S = {r. \<exists>row \<in># M. scan (map row cols) = Inr r \<and> tenant r = t \<and> ident r = i}
      in if S = {} then None else Some (the_elem S))"

definition decodable :: "(cell list \<Rightarrow> (string, 'r) result) \<Rightarrow> string list \<Rightarrow> row multiset \<Rightarrow> bool" where
  "decodable scan cols M \<longleftrightarrow> (\<forall>row \<in># M. \<exists>r. scan (map row cols) = Inr r)"

lemma uniqueOn_eq:
  assumes "uniqueOn f M" "x \<in># M" "y \<in># M" "f x = f y"
  shows "x = y"
proof (rule ccontr)
  assume "x \<noteq> y"
  have "{#x, y#} \<subseteq># {#r \<in># M. f r = f x#}"
    using assms \<open>x \<noteq> y\<close> by (simp add: insert_subset_eq_iff multiset_eq_iff in_diff_count)
  then have "2 \<le> size {#r \<in># M. f r = f x#}" using size_mset_mono by fastforce
  with assms(1) show False unfolding uniqueOn_def by (metis not_less_eq_eq numeral_2_eq_2 One_nat_def)
qed

lemma uniqueOn_add:
  assumes "uniqueOn f (add_mset x M)" "y \<in># M"
  shows "f y \<noteq> f x"
proof
  assume "f y = f x"
  moreover have "size {#r \<in># add_mset x M. f r = f x#} \<le> 1" using assms(1) unfolding uniqueOn_def by blast
  ultimately show False using assms(2) by simp
qed

lemma size_filter_0: "size (filter_mset P M) = 0 \<longleftrightarrow> (\<forall>x \<in># M. \<not> P x)"
  by (induction M) auto

lemma option_eqI: "(\<And>r. a = Some r \<longleftrightarrow> b = Some r) \<Longrightarrow> a = b"
  by (cases a; cases b) auto

text \<open>The rows that \<open>WHERE tenant_id = t AND id = i\<close> selects.\<close>

definition rowAt :: "string \<Rightarrow> string \<Rightarrow> row \<Rightarrow> bool" where
  "rowAt t i row \<longleftrightarrow> row ''tenant_id'' = CText t \<and> row ''id'' = CText i"

text \<open>A table: its columns, scanning, the arguments of INSERT, and when a value is in the normal form of the database (\<open>good\<close>).\<close>

locale pg_table =
  fixes cols :: "string list"
    and scan :: "cell list \<Rightarrow> (string, 'r) result"
    and tenant :: "'r \<Rightarrow> string"
    and ident :: "'r \<Rightarrow> string"
    and phs :: "nat list"
    and args :: "'r \<Rightarrow> cell list"
    and good :: "Canon \<Rightarrow> 'r \<Rightarrow> bool"
  assumes scan_id: "scan (map row cols) = Inr r \<Longrightarrow> row ''id'' = CText (ident r)"
    and insert_row: "good cn r \<Longrightarrow> list_all2 (\<lambda>c k. row c = canon cn c (argAt (args r) k)) cols phs \<Longrightarrow> scan (map row cols) = Inr r"
    and good_ident: "good cn r \<Longrightarrow> ident r \<noteq> ''''"
begin

abbreviation "tabOf \<equiv> pgTable scan cols tenant ident"
abbreviation "tinv M \<equiv> uniqueOn (\<lambda>r. r ''id'') M \<and> decodable scan cols M"

lemma tabOf_iff:
  assumes "tinv M"
  shows "tabOf M t i = Some r \<longleftrightarrow> (\<exists>row \<in># M. scan (map row cols) = Inr r \<and> tenant r = t \<and> ident r = i)"
proof -
  have "r' = r" if "\<exists>row \<in># M. scan (map row cols) = Inr r \<and> tenant r = t \<and> ident r = i"
    "\<exists>row \<in># M. scan (map row cols) = Inr r' \<and> tenant r' = t \<and> ident r' = i" for r r'
  proof -
    from that obtain x y where x: "x \<in># M" "scan (map x cols) = Inr r" "ident r = i" and y: "y \<in># M" "scan (map y cols) = Inr r'" "ident r' = i"
      by auto
    then have "x ''id'' = y ''id''" using scan_id [of x r] scan_id [of y r'] by simp
    then have "x = y" using uniqueOn_eq [of "\<lambda>r. r ''id''" M x y] assms x y by simp
    with x y show ?thesis by simp
  qed
  then have "{r. \<exists>row \<in># M. scan (map row cols) = Inr r \<and> tenant r = t \<and> ident r = i} = {r}"
    if "\<exists>row \<in># M. scan (map row cols) = Inr r \<and> tenant r = t \<and> ident r = i" for r
    using that by blast
  then show ?thesis
    unfolding pgTable_def Let_def by (smt (verit, best) empty_Collect_eq mem_Collect_eq option.discI option.inject singletonD singletonI the_elem_eq)
qed

lemma tabOf_key: "tinv M \<Longrightarrow> tabOf M t i = Some r \<Longrightarrow> tenant r = t \<and> ident r = i"
  by (auto simp: tabOf_iff)

lemma tabOf_none: "tinv M \<Longrightarrow> tabOf M t i = None \<longleftrightarrow> (\<forall>row \<in># M. \<forall>r. scan (map row cols) = Inr r \<longrightarrow> \<not> (tenant r = t \<and> ident r = i))"
  using tabOf_iff [of M t i] by (metis not_None_eq)

lemma create_table:
  assumes "tinv M" "good cn r" "uniqueOn (\<lambda>r. r ''id'') (add_mset row M)"
    and "list_all2 (\<lambda>c k. row c = canon cn c (argAt (args r) k)) cols phs"
  shows "tinv (add_mset row M)" and "specCreate (tenant r) (ident r) r (tabOf M) = (None, tabOf (add_mset row M))"
proof -
  note row = insert_row [OF assms(2,4)]
  show inv': "tinv (add_mset row M)" using assms(1,3) row by (auto simp: decodable_def)
  have "tabOf M (tenant r) (ident r) = None"
    using assms(1) row scan_id uniqueOn_add [OF assms(3)] unfolding tabOf_none [OF assms(1)] by metis
  moreover have "tabOf (add_mset row M) = (tabOf M)(tenant r := (tabOf M (tenant r))(ident r \<mapsto> r))"
  proof (intro ext option_eqI)
    fix t i q
    show "tabOf (add_mset row M) t i = Some q \<longleftrightarrow> ((tabOf M)(tenant r := (tabOf M (tenant r))(ident r \<mapsto> r))) t i = Some q"
      using row calculation unfolding tabOf_iff [OF inv'] by (auto simp: tabOf_iff [OF assms(1)] tabOf_none [OF assms(1)])
  qed
  ultimately show "specCreate (tenant r) (ident r) r (tabOf M) = (None, tabOf (add_mset row M))"
    using good_ident [OF assms(2)] by (simp add: specCreate_def)
qed

lemma tabOf_filter:
  assumes "tinv M" and "\<And>row r. row \<in># M \<Longrightarrow> scan (map row cols) = Inr r \<Longrightarrow> P row \<longleftrightarrow> Q r"
  shows "tinv (filter_mset P M)"
    and "tabOf (filter_mset P M) t i = (case tabOf M t i of Some r \<Rightarrow> if Q r then Some r else None | None \<Rightarrow> None)"
proof -
  have "uniqueOn (\<lambda>r. r ''id'') (filter_mset P M)"
    using assms(1) order_trans [OF size_mset_mono [OF multiset_filter_mono [OF multiset_filter_subset [of P M]]]]
    unfolding uniqueOn_def by blast
  then show inv': "tinv (filter_mset P M)" using assms(1) by (auto simp: decodable_def)
  show "tabOf (filter_mset P M) t i = (case tabOf M t i of Some r \<Rightarrow> if Q r then Some r else None | None \<Rightarrow> None)"
  proof (rule option_eqI)
    fix q
    have "tabOf (filter_mset P M) t i = Some q \<longleftrightarrow> tabOf M t i = Some q \<and> Q q"
      using assms(2) unfolding tabOf_iff [OF inv'] tabOf_iff [OF assms(1)] by auto
    then show "tabOf (filter_mset P M) t i = Some q \<longleftrightarrow> (case tabOf M t i of Some r \<Rightarrow> if Q r then Some r else None | None \<Rightarrow> None) = Some q"
      by (auto split: option.splits)
  qed
qed

end

text \<open>A resource of a tenant, which can also be updated and deleted; \<open>keep\<close> is what UPDATE leaves of the old row.\<close>

locale pg_resource = pg_table cols scan tenant ident phs args good
  for cols :: "string list" and scan :: "cell list \<Rightarrow> (string, 'r) result" and tenant ident phs args good +
  fixes sets :: "(string \<times> nat) list"
    and cond :: "(string \<times> nat) list"
    and uargs :: "'r \<Rightarrow> cell list"
    and keep :: "'r \<Rightarrow> 'r \<Rightarrow> 'r"
  assumes scan_tenant: "scan (map row cols) = Inr r \<Longrightarrow> row ''tenant_id'' = CText (tenant r)"
    and update_where: "good cn r \<Longrightarrow> matches cn (uargs r) cond row \<longleftrightarrow> row ''tenant_id'' = CText (tenant r) \<and> row ''id'' = CText (ident r)"
    and update_row: "good cn r \<Longrightarrow> scan (map row cols) = Inr old \<Longrightarrow> tenant old = tenant r \<Longrightarrow> ident old = ident r \<Longrightarrow>
      scan (map (setCols cn (uargs r) sets row) cols) = Inr (keep old r)"
    and keep_key: "tenant (keep old r) = tenant r" "ident (keep old r) = ident r"
begin

lemma rowAt_scan: "scan (map row cols) = Inr r \<Longrightarrow> rowAt t i row \<longleftrightarrow> tenant r = t \<and> ident r = i"
  using scan_id [of row r] scan_tenant [of row r] by (auto simp: rowAt_def)

lemma none_at: "tinv M \<Longrightarrow> tabOf M t i = None \<longleftrightarrow> size (filter_mset (rowAt t i) M) = 0"
  unfolding tabOf_none size_filter_0 using rowAt_scan unfolding decodable_def by metis

lemma delete_table:
  assumes "tinv M"
  shows "tinv (filter_mset (\<lambda>row. \<not> rowAt t i row) M)"
    and "specDelete t i (tabOf M) =
      (if size (filter_mset (rowAt t i) M) = 0 then (Some ErrNotFound, tabOf M) else (None, tabOf (filter_mset (\<lambda>row. \<not> rowAt t i row) M)))"
proof -
  note F = tabOf_filter [OF assms, of "\<lambda>row. \<not> rowAt t i row" "\<lambda>r. \<not> (tenant r = t \<and> ident r = i)", OF rowAt_scan [THEN arg_cong [where f = Not]]]
  show "tinv (filter_mset (\<lambda>row. \<not> rowAt t i row) M)" by (rule F(1))
  have "tabOf (filter_mset (\<lambda>row. \<not> rowAt t i row) M) = (tabOf M)(t := (tabOf M t)(i := None))"
  proof (intro ext)
    fix t' i'
    show "tabOf (filter_mset (\<lambda>row. \<not> rowAt t i row) M) t' i' = ((tabOf M)(t := (tabOf M t)(i := None))) t' i'"
      using tabOf_key [OF assms, of t' i'] F(2) [of t' i'] by (cases "tabOf M t' i'") auto
  qed
  then show "specDelete t i (tabOf M) =
      (if size (filter_mset (rowAt t i) M) = 0 then (Some ErrNotFound, tabOf M) else (None, tabOf (filter_mset (\<lambda>row. \<not> rowAt t i row) M)))"
    using none_at [OF assms] by (simp add: specDelete_def)
qed

lemma update_table:
  assumes "tinv M" "good cn r"
    and M': "M' = image_mset (\<lambda>row. if matches cn (uargs r) cond row then setCols cn (uargs r) sets row else row) M"
    and "uniqueOn (\<lambda>r. r ''id'') M'"
  shows "tinv M'"
    and "specUpdate (tenant r) (ident r) (case tabOf M (tenant r) (ident r) of Some old \<Rightarrow> keep old r | None \<Rightarrow> r) (tabOf M) =
      (if size (filter_mset (matches cn (uargs r) cond) M) = 0 then (Some ErrNotFound, tabOf M) else (None, tabOf M'))"
    and "size (filter_mset (matches cn (uargs r) cond) M) = 0 \<Longrightarrow> M' = M"
proof -
  let ?t = "tenant r" and ?i = "ident r"
  have w: "matches cn (uargs r) cond row = rowAt ?t ?i row" for row using update_where [OF assms(2)] by (simp add: rowAt_def)
  have new: "scan (map (if rowAt ?t ?i row then setCols cn (uargs r) sets row else row) cols)
      = Inr (if tenant old = ?t \<and> ident old = ?i then keep old r else old)" if "scan (map row cols) = Inr old" for row old
    using that rowAt_scan [OF that] update_row [OF assms(2) that] by simp
  show inv': "tinv M'"
    using assms(1,4) new unfolding M' by (fastforce simp: decodable_def w)
  show "M' = M" if "size (filter_mset (matches cn (uargs r) cond) M) = 0"
    using that unfolding M' by (auto simp: size_filter_0 intro: multiset.map_ident_strong)
  have M'_tab: "tabOf M' t i = map_option (\<lambda>old. if tenant old = ?t \<and> ident old = ?i then keep old r else old) (tabOf M t i)" for t i
  proof (cases "tabOf M t i")
    case None
    have "tabOf M' t i \<noteq> Some q" for q
    proof
      assume "tabOf M' t i = Some q"
      then obtain row where row: "row \<in># M" "tenant q = t" "ident q = i"
        "scan (map (if rowAt ?t ?i row then setCols cn (uargs r) sets row else row) cols) = Inr q"
        unfolding tabOf_iff [OF inv'] unfolding M' w by auto
      obtain old where old: "scan (map row cols) = Inr old" using assms(1) row(1) by (auto simp: decodable_def)
      then have "tenant old = t \<and> ident old = i" using new [OF old] row keep_key by (auto split: if_splits)
      with old row None show False unfolding tabOf_none [OF assms(1)] by blast
    qed
    then show ?thesis using None by auto
  next
    case (Some old)
    then obtain row where row: "row \<in># M" "scan (map row cols) = Inr old" "tenant old = t" "ident old = i"
      unfolding tabOf_iff [OF assms(1)] by auto
    have "tabOf M' t i = Some (if tenant old = ?t \<and> ident old = ?i then keep old r else old)"
    proof (unfold tabOf_iff [OF inv'], intro bexI conjI)
      show "(if rowAt ?t ?i row then setCols cn (uargs r) sets row else row) \<in># M'"
        unfolding M' w set_image_mset by (rule imageI [OF row(1)])
    qed (use new [OF row(2)] row keep_key in simp_all)
    then show ?thesis using Some by simp
  qed
  have "tabOf M' = (tabOf M)(?t := (tabOf M ?t)(?i \<mapsto> keep old r))" if "tabOf M ?t ?i = Some old" for old
  proof (intro ext)
    fix t i
    show "tabOf M' t i = ((tabOf M)(?t := (tabOf M ?t)(?i \<mapsto> keep old r))) t i"
      using that tabOf_key [OF assms(1), of t i] M'_tab [of t i] by (cases "tabOf M t i") auto
  qed
  then show "specUpdate ?t ?i (case tabOf M ?t ?i of Some old \<Rightarrow> keep old r | None \<Rightarrow> r) (tabOf M) =
      (if size (filter_mset (matches cn (uargs r) cond) M) = 0 then (Some ErrNotFound, tabOf M) else (None, tabOf M'))"
    using none_at [OF assms(1), of ?t ?i] unfolding w by (auto simp: specUpdate_def split: option.splits)
qed

end

section \<open>Values in the normal form of the database\<close>

definition uuidOk :: "Canon \<Rightarrow> string \<Rightarrow> bool" where
  "uuidOk cn u \<longleftrightarrow> u \<noteq> '''' \<and> cnUuid cn u = u"

definition rawOk :: "Canon \<Rightarrow> raw \<Rightarrow> bool" where
  "rawOk cn j \<longleftrightarrow> j = '''' \<or> cnJson cn j = j"

definition agentOk :: "Codec \<Rightarrow> Canon \<Rightarrow> Agent \<Rightarrow> bool" where
  "agentOk cd cn r \<longleftrightarrow> uuidOk cn (agID r) \<and> uuidOk cn (agTenantID r) \<and> cnTime cn (agCreatedAt r) = agCreatedAt r \<and> cnTime cn (agUpdatedAt r) = agUpdatedAt r \<and> cdUnSkills cd (cnJson cn (cdSkills cd (agSkills r))) = Inr (agSkills r)"

definition serverOk :: "Canon \<Rightarrow> McpServer \<Rightarrow> bool" where
  "serverOk cn r \<longleftrightarrow> uuidOk cn (msvID r) \<and> uuidOk cn (msvTenantID r) \<and> cnTime cn (msvCreatedAt r) = msvCreatedAt r \<and> cnTime cn (msvUpdatedAt r) = msvUpdatedAt r \<and> rawOk cn (msvTransport r)"

definition flowOk :: "Codec \<Rightarrow> Canon \<Rightarrow> Flow \<Rightarrow> bool" where
  "flowOk cd cn r \<longleftrightarrow> uuidOk cn (flID r) \<and> uuidOk cn (flTenantID r) \<and> cnTime cn (flCreatedAt r) = flCreatedAt r \<and> cnTime cn (flUpdatedAt r) = flUpdatedAt r \<and> rawOk cn (flFlowJSON r) \<and> cdUnPermissions cd (cnJson cn (cdPermissions cd (flPermissions r))) = Inr (flPermissions r)"

definition runOk :: "Codec \<Rightarrow> Canon \<Rightarrow> Run \<Rightarrow> bool" where
  "runOk cd cn r \<longleftrightarrow> uuidOk cn (ruID r) \<and> uuidOk cn (ruFlowID r) \<and> uuidOk cn (ruTenantID r) \<and> cnTime cn (ruStartedAt r) = ruStartedAt r \<and> rawOk cn (ruResult r) \<and> (\<forall>x. ruFinishedAt r = Some x \<longrightarrow> cnTime cn x = x) \<and> cdUnLogs cd (cnJson cn (cdLogs cd (ruLogs r))) = Inr (ruLogs r)"

definition taskOk :: "Codec \<Rightarrow> Canon \<Rightarrow> Task \<Rightarrow> bool" where
  "taskOk cd cn r \<longleftrightarrow> uuidOk cn (taID r) \<and> uuidOk cn (taTenantID r) \<and> cnTime cn (taCreatedAt r) = taCreatedAt r \<and> cnTime cn (taUpdatedAt r) = taUpdatedAt r \<and> rawOk cn (taResult r) \<and> cdUnSubtasks cd (cnJson cn (cdSubtasks cd (taSubtasks r))) = Inr (taSubtasks r)"

definition userOk :: "Canon \<Rightarrow> User \<Rightarrow> bool" where
  "userOk cn r \<longleftrightarrow> uuidOk cn (usID r) \<and> uuidOk cn (usTenantID r) \<and> cnTime cn (usCreatedAt r) = usCreatedAt r \<and> cnTime cn (usUpdatedAt r) = usUpdatedAt r"

lemmas row_defs = scan_defs canon_def argAt_def uuidCols_def matches_def setCols_def uuidOk_def rawOk_def rawCell_def timePtr_def
  skillsJSON_def permissionsJSON_def logsJSON_def subtasksJSON_def

lemmas agent_row = scanAgent_def agentCols_def agentInsert_def agentSets_def agentWhere_def agentUpdate_def agentOk_def

interpretation pg_agents: pg_resource agentCols "scanAgent cd" agTenantID agID "[1, 2, 3, 4, 5, 6, 7, 8, 9]" "agentInsert cd" "agentOk cd"
  agentSets agentWhere "agentUpdate cd" "\<lambda>old r. r \<lparr>agCreatedAt := agCreatedAt old\<rparr>"
  for cd :: Codec
proof (unfold_locales, goal_cases)
  case (1 row r)
  then show ?case by (auto simp: agent_row row_defs bind_res_Inr_iff split: cell.splits)
next
  case (2 cn r row)
  then show ?case by (auto simp: agent_row row_defs split: option.splits)
next
  case (4 row r)
  then show ?case by (auto simp: agent_row row_defs bind_res_Inr_iff split: cell.splits)
next
  case (5 cn r row)
  then show ?case by (auto simp: agent_row row_defs)
next
  case (6 cn r row old)
  then show ?case by (auto simp: agent_row row_defs bind_res_Inr_iff split: cell.splits option.splits)
qed (auto simp: agentOk_def uuidOk_def)

lemmas server_row = scanMcpServer_def serverCols_def serverInsert_def serverSets_def serverWhere_def serverUpdate_def serverOk_def

interpretation pg_mcp_servers: pg_resource serverCols scanMcpServer msvTenantID msvID "[1, 2, 3, 4, 5, 6, 7, 8]" serverInsert serverOk
  serverSets serverWhere serverUpdate "\<lambda>old r. r \<lparr>msvCreatedAt := msvCreatedAt old\<rparr>"
proof (unfold_locales, goal_cases)
  case (1 row r)
  then show ?case by (auto simp: server_row row_defs bind_res_Inr_iff split: cell.splits)
next
  case (2 cn r row)
  then show ?case by (auto simp: server_row row_defs split: option.splits)
next
  case (4 row r)
  then show ?case by (auto simp: server_row row_defs bind_res_Inr_iff split: cell.splits)
next
  case (5 cn r row)
  then show ?case by (auto simp: server_row row_defs)
next
  case (6 cn r row old)
  then show ?case by (auto simp: server_row row_defs bind_res_Inr_iff split: cell.splits option.splits)
qed (auto simp: serverOk_def uuidOk_def)

lemmas flow_row = scanFlow_def flowCols_def flowInsert_def flowSets_def flowWhere_def flowUpdate_def flowOk_def

interpretation pg_flows: pg_resource flowCols "scanFlow cd" flTenantID flID "[1, 2, 3, 4, 5, 6, 7, 8]" "flowInsert cd" "flowOk cd"
  flowSets flowWhere "flowUpdate cd" "\<lambda>old r. r \<lparr>flCreatedAt := flCreatedAt old\<rparr>"
  for cd :: Codec
proof (unfold_locales, goal_cases)
  case (1 row r)
  then show ?case by (auto simp: flow_row row_defs bind_res_Inr_iff split: cell.splits)
next
  case (2 cn r row)
  then show ?case by (auto simp: flow_row row_defs split: option.splits)
next
  case (4 row r)
  then show ?case by (auto simp: flow_row row_defs bind_res_Inr_iff split: cell.splits)
next
  case (5 cn r row)
  then show ?case by (auto simp: flow_row row_defs)
next
  case (6 cn r row old)
  then show ?case by (auto simp: flow_row row_defs bind_res_Inr_iff split: cell.splits option.splits)
qed (auto simp: flowOk_def uuidOk_def)

lemmas run_row = scanRun_def runCols_def runInsert_def runSets_def runWhere_def runUpdate_def runOk_def

interpretation pg_runs: pg_resource runCols "scanRun cd" ruTenantID ruID "[1, 2, 3, 4, 5, 6, 7, 8]" "runInsert cd" "runOk cd"
  runSets runWhere "runUpdate cd" "\<lambda>old r. r \<lparr>ruFlowID := ruFlowID old\<rparr>"
  for cd :: Codec
proof (unfold_locales, goal_cases)
  case (1 row r)
  then show ?case by (auto simp: run_row row_defs bind_res_Inr_iff split: cell.splits)
next
  case (2 cn r row)
  then show ?case by (auto simp: run_row row_defs split: option.splits)
next
  case (4 row r)
  then show ?case by (auto simp: run_row row_defs bind_res_Inr_iff split: cell.splits)
next
  case (5 cn r row)
  then show ?case by (auto simp: run_row row_defs)
next
  case (6 cn r row old)
  then show ?case by (auto simp: run_row row_defs bind_res_Inr_iff split: cell.splits option.splits)
qed (auto simp: runOk_def uuidOk_def)

lemmas task_row = scanTask_def taskCols_def taskInsert_def taskSets_def taskWhere_def taskUpdate_def taskOk_def

interpretation pg_tasks: pg_resource taskCols "scanTask cd" taTenantID taID "[1, 2, 3, 4, 5, 6, 7, 8]" "taskInsert cd" "taskOk cd"
  taskSets taskWhere "taskUpdate cd" "\<lambda>old r. r \<lparr>taCreatedAt := taCreatedAt old\<rparr>"
  for cd :: Codec
proof (unfold_locales, goal_cases)
  case (1 row r)
  then show ?case by (auto simp: task_row row_defs bind_res_Inr_iff split: cell.splits)
next
  case (2 cn r row)
  then show ?case by (auto simp: task_row row_defs split: option.splits)
next
  case (4 row r)
  then show ?case by (auto simp: task_row row_defs bind_res_Inr_iff split: cell.splits)
next
  case (5 cn r row)
  then show ?case by (auto simp: task_row row_defs)
next
  case (6 cn r row old)
  then show ?case by (auto simp: task_row row_defs bind_res_Inr_iff split: cell.splits option.splits)
qed (auto simp: taskOk_def uuidOk_def)

lemmas user_row = scanUser_def userCols_def userInsert_def userSets_def userWhere_def userUpdate_def userOk_def

interpretation pg_users: pg_resource userCols scanUser usTenantID usID "[1, 2, 3, 4, 5, 6, 7]" userInsert userOk
  userSets userWhere userUpdate "\<lambda>old r. r \<lparr>usCreatedAt := usCreatedAt old\<rparr>"
proof (unfold_locales, goal_cases)
  case (1 row r)
  then show ?case by (auto simp: user_row row_defs bind_res_Inr_iff split: cell.splits)
next
  case (2 cn r row)
  then show ?case by (auto simp: user_row row_defs split: option.splits)
next
  case (4 row r)
  then show ?case by (auto simp: user_row row_defs bind_res_Inr_iff split: cell.splits)
next
  case (5 cn r row)
  then show ?case by (auto simp: user_row row_defs)
next
  case (6 cn r row old)
  then show ?case by (auto simp: user_row row_defs bind_res_Inr_iff split: cell.splits option.splits)
qed (auto simp: userOk_def uuidOk_def)

definition tenantOk :: "Canon \<Rightarrow> Tenant \<Rightarrow> bool" where
  "tenantOk cn r \<longleftrightarrow> uuidOk cn (teID r) \<and> cnTime cn (teCreatedAt r) = teCreatedAt r"

lemmas tenant_row = scanTenant_def tenantCols_def tenantInsert_def tenantOk_def

interpretation pg_tenants: pg_table tenantCols scanTenant "\<lambda>t. []" teID "[1, 2, 3]" tenantInsert tenantOk
proof (unfold_locales, goal_cases)
  case (1 row r)
  then show ?case by (auto simp: tenant_row row_defs bind_res_Inr_iff split: cell.splits)
next
  case (2 cn r row)
  then show ?case by (auto simp: tenant_row row_defs)
qed (auto simp: tenantOk_def uuidOk_def)

end
