(* ===== verification/Pg_Properties.thy ===== *)
theory Pg_Properties
  imports Pg_Refinement
begin

text \<open>
  The outcome of a statement of the PostgreSQL store against the specification on partial maps, the simulation for all operations, and what
  the reading methods return.
\<close>

section \<open>Outcomes of statements\<close>

lemma uniqueOn_filter: "uniqueOn f M \<Longrightarrow> uniqueOn f (filter_mset P M)"
  unfolding uniqueOn_def
  using order_trans [OF size_mset_mono [OF multiset_filter_mono [OF multiset_filter_subset [of P M]]]] by blast

lemma constraints_id: "constraints R \<Longrightarrow> uniqueOn (\<lambda>r. r ''id'') (R tab)"
  by (simp add: constraints_def)

lemma constraints_filter: "constraints R \<Longrightarrow> constraints (\<lambda>t. filter_mset (P t) (R t))"
  by (simp add: constraints_def uniqueOn_filter)

lemma laws_exec:
  assumes "sqlLaws db cn rows" "constraints (rows d)" "dbExec db q args d = (res, d')"
  shows "case res of Inr n \<Rightarrow> sqlEffect cn q args (rows d) n (rows d')
    | Inl e \<Rightarrow> rows d' = rows d \<or> (\<exists>n. sqlEffect cn q args (rows d) n (rows d'))"
proof (cases res)
  case (Inl e)
  have "\<forall>q args d e d'. constraints (rows d) \<and> dbExec db q args d = (Inl e, d') \<longrightarrow>
      rows d' = rows d \<or> (\<exists>n. sqlEffect cn q args (rows d) n (rows d'))"
    using assms(1) unfolding sqlLaws_def by (elim conjE)
  then show ?thesis using assms(2,3) Inl by simp
next
  case (Inr n)
  have "\<forall>q args d n d'. constraints (rows d) \<and> dbExec db q args d = (Inr n, d') \<longrightarrow> sqlEffect cn q args (rows d) n (rows d')"
    using assms(1) unfolding sqlLaws_def by (elim conjE)
  then show ?thesis using assms(2,3) Inr by simp
qed

lemma execInsert_laws:
  assumes "sqlLaws db cn rows" "constraints (rows d)" "execInsert db q args r d = (res, d')"
  shows "(res = Inr r \<and> (\<exists>n. sqlEffect cn q args (rows d) n (rows d')))
    \<or> (\<exists>e. res = Inl (DbErr e) \<and> (rows d' = rows d \<or> (\<exists>n. sqlEffect cn q args (rows d) n (rows d'))))"
proof -
  obtain x d1 where x: "dbExec db q args d = (x, d1)" by force
  then show ?thesis using laws_exec [OF assms(1,2) x] assms(3) by (cases x) (auto simp: execInsert_def)
qed

lemma execAffected_laws:
  assumes "sqlLaws db cn rows" "constraints (rows d)" "execAffected db q args r d = (res, d')"
  shows "(res = Inr r \<and> (\<exists>n. n \<noteq> 0 \<and> sqlEffect cn q args (rows d) n (rows d')))
    \<or> (res = Inl (Sentinel ErrNotFound) \<and> sqlEffect cn q args (rows d) 0 (rows d'))
    \<or> (\<exists>e. res = Inl (DbErr e) \<and> (rows d' = rows d \<or> (\<exists>n. sqlEffect cn q args (rows d) n (rows d'))))"
proof -
  obtain x d1 where x: "dbExec db q args d = (x, d1)" by force
  then show ?thesis using laws_exec [OF assms(1,2) x] assms(3) by (cases x) (auto simp: execAffected_def split: if_splits)
qed

text \<open>What a result says, given what the specification prescribes for the table: a success or a sentinel error is the one prescribed, and after an
  error of the database the table is as before or as after a success.\<close>

definition conforms :: "(pg_error, 'x) result \<Rightarrow> store_error option \<times> 'a \<Rightarrow> 'a \<Rightarrow> 'a \<Rightarrow> bool" where
  "conforms res spec old new \<longleftrightarrow> (case res of
      Inr _ \<Rightarrow> spec = (None, new)
    | Inl (Sentinel e) \<Rightarrow> spec = (Some e, old) \<and> new = old
    | Inl (DbErr _) \<Rightarrow> new = old \<or> spec = (None, new))"

lemma conforms_same: "conforms (Inl (DbErr e)) spec x x"
  by (simp add: conforms_def)

lemma conforms_effect:
  assumes "n = 0 \<longrightarrow> (\<forall>x. res \<noteq> Inr x)" "\<forall>e. res = Inl (Sentinel e) \<longrightarrow> n = (0::nat) \<and> e = e'" "n = 0 \<longrightarrow> y = x"
  shows "conforms res (if n = 0 then (Some e', x) else (None, y)) x y"
  using assms by (auto simp: conforms_def split: sum.splits pg_error.splits)

lemma rowAt_where:
  "cnUuid cn t = t \<Longrightarrow> cnUuid cn i = i \<Longrightarrow> matches cn [CText t, CText i] [(''tenant_id'', 1), (''id'', 2)] = rowAt t i"
  by (auto simp: matches_def rowAt_def canon_def argAt_def uuidCols_def)

context pg_table
begin

lemma insert_effect:
  assumes "constraints R" "decodable scan cols (R tab)" "good cn r" "sqlEffect cn (Insert tab cols phs) (args r) R n R'"
  shows "constraints R' \<and> (\<exists>M'. R' = R(tab := M') \<and> decodable scan cols M'
    \<and> specCreate (tenant r) (ident r) r (tabOf (R tab)) = (None, tabOf M'))"
proof -
  from assms(4) obtain row where c: "constraints R'" and row: "list_all2 (\<lambda>c k. row c = canon cn c (argAt (args r) k)) cols phs"
    and R': "R' = R(tab := add_mset row (R tab))" by auto
  have "uniqueOn (\<lambda>r. r ''id'') (add_mset row (R tab))" using constraints_id [OF c, of tab] by (simp add: R')
  from create_table [OF _ assms(3) this row] c R' show ?thesis using assms(2) constraints_id [OF assms(1)] by blast
qed

lemma create_outcome:
  assumes "sqlLaws db cn rows" "constraints (rows d)" "decodable scan cols (rows d tab)" "good cn r"
    and "execInsert db (Insert tab cols phs) (args r) r d = (res, d')"
  shows "constraints (rows d') \<and> (\<exists>M'. rows d' = (rows d)(tab := M') \<and> decodable scan cols M'
    \<and> conforms res (specCreate (tenant r) (ident r) r (tabOf (rows d tab))) (tabOf (rows d tab)) (tabOf M'))"
proof -
  note eff = insert_effect [OF assms(2,3,4), where R' = "rows d'"]
  consider n where "sqlEffect cn (Insert tab cols phs) (args r) (rows d) n (rows d')" "\<forall>e. res \<noteq> Inl (Sentinel e)"
    | e where "rows d' = rows d" "res = Inl (DbErr e)"
    using execInsert_laws [OF assms(1,2,5)] by blast
  then show ?thesis
  proof cases
    case 1
    obtain M' where M': "rows d' = (rows d)(tab := M')" "decodable scan cols M'"
      "specCreate (tenant r) (ident r) r (tabOf (rows d tab)) = (None, tabOf M')" "constraints (rows d')"
      using eff [OF 1(1)] by blast
    have "conforms res (None, tabOf M') (tabOf (rows d tab)) (tabOf M')"
      using conforms_effect [of 1 res] 1(2) by simp
    with M' show ?thesis by (intro conjI exI [of _ M']) simp_all
  next
    case 2
    then show ?thesis using assms(2,3) conforms_same by (intro conjI exI [of _ "rows d tab"]) simp_all
  qed
qed

end

context pg_resource
begin

lemma update_effect:
  assumes "constraints R" "decodable scan cols (R tab)" "good cn r" "sqlEffect cn (Update tab sets cond) (uargs r) R n R'"
  shows "constraints R' \<and> (\<exists>M'. R' = R(tab := M') \<and> decodable scan cols M'
    \<and> specUpdate (tenant r) (ident r) (case tabOf (R tab) (tenant r) (ident r) of Some old \<Rightarrow> keep old r | None \<Rightarrow> r) (tabOf (R tab))
        = (if n = 0 then (Some ErrNotFound, tabOf (R tab)) else (None, tabOf M')) \<and> (n = 0 \<longrightarrow> M' = R tab))"
proof -
  let ?M = "image_mset (\<lambda>row. if matches cn (uargs r) cond row then setCols cn (uargs r) sets row else row) (R tab)"
  from assms(4) have c: "constraints R'" and R': "R' = R(tab := ?M)" and n: "n = size (filter_mset (matches cn (uargs r) cond) (R tab))"
    by auto
  have "uniqueOn (\<lambda>r. r ''id'') ?M" using constraints_id [OF c, of tab] by (simp add: R')
  note U = update_table [OF conjI [OF constraints_id [OF assms(1)] assms(2)] assms(3) refl this]
  show ?thesis unfolding n using c U R' by (intro conjI exI [of _ ?M] impI) simp_all
qed

lemma update_outcome:
  assumes "sqlLaws db cn rows" "constraints (rows d)" "decodable scan cols (rows d tab)" "good cn r"
    and "execAffected db (Update tab sets cond) (uargs r) r d = (res, d')"
  shows "constraints (rows d') \<and> (\<exists>M'. rows d' = (rows d)(tab := M') \<and> decodable scan cols M'
    \<and> conforms res (specUpdate (tenant r) (ident r) (case tabOf (rows d tab) (tenant r) (ident r) of Some old \<Rightarrow> keep old r | None \<Rightarrow> r)
        (tabOf (rows d tab))) (tabOf (rows d tab)) (tabOf M'))"
proof -
  note eff = update_effect [OF assms(2,3,4), where R' = "rows d'"]
  consider n where "sqlEffect cn (Update tab sets cond) (uargs r) (rows d) n (rows d')" "n = 0 \<longrightarrow> (\<forall>x. res \<noteq> Inr x)"
      "\<forall>e. res = Inl (Sentinel e) \<longrightarrow> n = 0 \<and> e = ErrNotFound"
    | e where "rows d' = rows d" "res = Inl (DbErr e)"
    using execAffected_laws [OF assms(1,2,5)] by blast
  then show ?thesis
  proof cases
    case 1
    obtain M' where M': "rows d' = (rows d)(tab := M')" "decodable scan cols M'" "constraints (rows d')"
      "specUpdate (tenant r) (ident r) (case tabOf (rows d tab) (tenant r) (ident r) of Some old \<Rightarrow> keep old r | None \<Rightarrow> r) (tabOf (rows d tab))
        = (if n = 0 then (Some ErrNotFound, tabOf (rows d tab)) else (None, tabOf M'))" "n = 0 \<longrightarrow> M' = rows d tab"
      using eff [OF 1(1)] by blast
    have "conforms res (if n = 0 then (Some ErrNotFound, tabOf (rows d tab)) else (None, tabOf M')) (tabOf (rows d tab)) (tabOf M')"
      by (rule conforms_effect [OF 1(2,3)]) (simp add: M'(5))
    with M' show ?thesis by (intro conjI exI [of _ M']) simp_all
  next
    case 2
    then show ?thesis using assms(2,3) conforms_same by (intro conjI exI [of _ "rows d tab"]) simp_all
  qed
qed

lemma delete_effect:
  assumes "constraints R" "decodable scan cols (R tab)" "cnUuid cn t = t" "cnUuid cn i = i" "tab \<noteq> ''tenants''"
    and "sqlEffect cn (DeleteFrom tab [(''tenant_id'', 1), (''id'', 2)]) [CText t, CText i] R n R'"
    and "M' = filter_mset (\<lambda>row. \<not> rowAt t i row) (R tab)" and "\<forall>r. \<not> orphaned tab (filter_mset (rowAt t i) (R tab)) tab r"
  shows "constraints R'" and "R' tab = M'" and "decodable scan cols M'"
    and "s \<noteq> tab \<Longrightarrow> R' s = filter_mset (\<lambda>r. \<not> orphaned tab (filter_mset (rowAt t i) (R tab)) s r) (R s)"
    and "specDelete t i (tabOf (R tab)) = (if n = 0 then (Some ErrNotFound, tabOf (R tab)) else (None, tabOf M'))"
    and "n = 0 \<Longrightarrow> R' = R"
proof -
  have w: "matches cn [CText t, CText i] [(''tenant_id'', 1), (''id'', 2)] = rowAt t i"
    using assms(3,4) by (rule rowAt_where)
  have n: "n = size (filter_mset (rowAt t i) (R tab))"
    and R': "R' = (\<lambda>s. filter_mset (\<lambda>r. \<not> (s = tab \<and> rowAt t i r) \<and> \<not> orphaned tab (filter_mset (rowAt t i) (R tab)) s r) (R s))"
    using assms(5,6) unfolding sqlEffect.simps w Let_def by simp_all
  note D = delete_table [OF conjI [OF constraints_id [OF assms(1)] assms(2)], of t i]
  show "constraints R'" unfolding R' by (rule constraints_filter [OF assms(1)])
  show "R' tab = M'" using assms(8) by (simp add: R' assms(7))
  show "decodable scan cols M'" using D(1) assms(7) by blast
  show "specDelete t i (tabOf (R tab)) = (if n = 0 then (Some ErrNotFound, tabOf (R tab)) else (None, tabOf M'))"
    using D(2) unfolding n assms(7) .
  show "R' s = filter_mset (\<lambda>r. \<not> orphaned tab (filter_mset (rowAt t i) (R tab)) s r) (R s)" if "s \<noteq> tab"
    using that by (simp add: R')
  show "R' = R" if "n = 0"
  proof -
    have none: "\<forall>r \<in># R tab. \<not> rowAt t i r" using that unfolding n size_filter_0 .
    then have "\<not> orphaned tab (filter_mset (rowAt t i) (R tab)) s r" for s r by (auto simp: orphaned_def)
    moreover have "filter_mset (\<lambda>r. \<not> (s = tab \<and> rowAt t i r)) (R s) = R s" for s
      using none filter_mset_cong [OF refl, of "R s" "\<lambda>r. \<not> (s = tab \<and> rowAt t i r)" "\<lambda>_. True"] by auto
    ultimately show ?thesis unfolding R' by simp
  qed
qed

text \<open>Deleting from a table to which no foreign key points.\<close>

lemma delete_outcome:
  assumes "sqlLaws db cn rows" "constraints (rows d)" "decodable scan cols (rows d tab)" "cnUuid cn t = t" "cnUuid cn i = i"
    and leaf: "list_all (\<lambda>(child, fk, par). par \<noteq> tab) foreignKeys" "tab \<noteq> ''tenants''"
    and "execAffected db (DeleteFrom tab [(''tenant_id'', 1), (''id'', 2)]) [CText t, CText i] () d = (res, d')"
  shows "constraints (rows d') \<and> (\<exists>M'. rows d' = (rows d)(tab := M') \<and> decodable scan cols M'
    \<and> conforms res (specDelete t i (tabOf (rows d tab))) (tabOf (rows d tab)) (tabOf M'))"
proof -
  let ?q = "DeleteFrom tab [(''tenant_id'', 1), (''id'', 2)]" and ?M' = "filter_mset (\<lambda>row. \<not> rowAt t i row) (rows d tab)"
  have o: "\<not> orphaned tab gone s r" for gone s r using leaf(1) by (auto simp: orphaned_def list_all_iff)
  consider n where "sqlEffect cn ?q [CText t, CText i] (rows d) n (rows d')" "n = 0 \<longrightarrow> (\<forall>x. res \<noteq> Inr x)"
      "\<forall>e. res = Inl (Sentinel e) \<longrightarrow> n = 0 \<and> e = ErrNotFound"
    | e where "rows d' = rows d" "res = Inl (DbErr e)"
    using execAffected_laws [OF assms(1,2,8)] by blast
  then show ?thesis
  proof cases
    case 1
    note D = delete_effect [OF assms(2-5) leaf(2) 1(1) refl]
    have "rows d' s = ((rows d)(tab := ?M')) s" for s using D(2) [OF allI] D(4) [OF allI, of s] o by (cases "s = tab") simp_all
    then have r: "rows d' = (rows d)(tab := ?M')" by blast
    have "conforms res (if n = 0 then (Some ErrNotFound, tabOf (rows d tab)) else (None, tabOf ?M')) (tabOf (rows d tab)) (tabOf ?M')"
      using D(2,6) [OF allI] o by (intro conforms_effect [OF 1(2,3)]) metis
    then show ?thesis using r D(1,3,5) [OF allI] o by (intro conjI exI [of _ ?M']) simp_all
  next
    case 2
    then show ?thesis using assms(2,3) conforms_same by (intro conjI exI [of _ "rows d tab"]) simp_all
  qed
qed

end

section \<open>The store as a whole\<close>

fun pg_step :: "'d DB \<Rightarrow> Codec \<Rightarrow> store_op \<Rightarrow> 'd \<Rightarrow> (pg_error, unit) result \<times> 'd" where
  "pg_step db cd (OpCreateAgent r) d = apfst (map_res (\<lambda>_. ())) (pg_CreateAgent db cd r d)"
| "pg_step db cd (OpUpdateAgent r) d = apfst (map_res (\<lambda>_. ())) (pg_UpdateAgent db cd r d)"
| "pg_step db cd (OpDeleteAgent t i) d = pg_DeleteAgent db t i d"
| "pg_step db cd (OpCreateMcpServer r) d = apfst (map_res (\<lambda>_. ())) (pg_CreateMcpServer db r d)"
| "pg_step db cd (OpUpdateMcpServer r) d = apfst (map_res (\<lambda>_. ())) (pg_UpdateMcpServer db r d)"
| "pg_step db cd (OpDeleteMcpServer t i) d = pg_DeleteMcpServer db t i d"
| "pg_step db cd (OpCreateFlow r) d = apfst (map_res (\<lambda>_. ())) (pg_CreateFlow db cd r d)"
| "pg_step db cd (OpUpdateFlow r) d = apfst (map_res (\<lambda>_. ())) (pg_UpdateFlow db cd r d)"
| "pg_step db cd (OpDeleteFlow t i) d = pg_DeleteFlow db t i d"
| "pg_step db cd (OpCreateRun r) d = apfst (map_res (\<lambda>_. ())) (pg_CreateRun db cd r d)"
| "pg_step db cd (OpUpdateRun r) d = apfst (map_res (\<lambda>_. ())) (pg_UpdateRun db cd r d)"
| "pg_step db cd (OpCreateTask r) d = apfst (map_res (\<lambda>_. ())) (pg_CreateTask db cd r d)"
| "pg_step db cd (OpUpdateTask r) d = apfst (map_res (\<lambda>_. ())) (pg_UpdateTask db cd r d)"
| "pg_step db cd (OpCreateUser r) d = apfst (map_res (\<lambda>_. ())) (pg_CreateUser db r d)"
| "pg_step db cd (OpUpdateUser r) d = apfst (map_res (\<lambda>_. ())) (pg_UpdateUser db r d)"
| "pg_step db cd (OpDeleteUser t i) d = pg_DeleteUser db t i d"
| "pg_step db cd (OpCreateTenant r) d = apfst (map_res (\<lambda>_. ())) (pg_CreateTenant db r d)"

definition pgAbs :: "Codec \<Rightarrow> tables \<Rightarrow> AbsStore" where
  "pgAbs cd R = \<lparr>aAgents = pgTable (scanAgent cd) agentCols agTenantID agID (R ''agents''),
     aMcpServers = pgTable scanMcpServer serverCols msvTenantID msvID (R ''mcp_servers''),
     aFlows = pgTable (scanFlow cd) flowCols flTenantID flID (R ''flows''),
     aRuns = pgTable (scanRun cd) runCols ruTenantID ruID (R ''runs''),
     aTasks = pgTable (scanTask cd) taskCols taTenantID taID (R ''tasks''),
     aUsers = pgTable scanUser userCols usTenantID usID (R ''users''),
     aTenants = pgTable scanTenant tenantCols (\<lambda>_. '''') teID (R ''tenants'') ''''\<rparr>"

definition pgInv :: "Codec \<Rightarrow> tables \<Rightarrow> bool" where
  "pgInv cd R \<longleftrightarrow> constraints R \<and> decodable (scanAgent cd) agentCols (R ''agents'') \<and> decodable scanMcpServer serverCols (R ''mcp_servers'')
     \<and> decodable (scanFlow cd) flowCols (R ''flows'') \<and> decodable (scanRun cd) runCols (R ''runs'') \<and> decodable (scanTask cd) taskCols (R ''tasks'')
     \<and> decodable scanUser userCols (R ''users'') \<and> decodable scanTenant tenantCols (R ''tenants'')"

text \<open>The values of an operation are in the normal form of the database.\<close>

fun opOk :: "Codec \<Rightarrow> Canon \<Rightarrow> store_op \<Rightarrow> bool" where
  "opOk cd cn (OpCreateAgent r) = agentOk cd cn r"
| "opOk cd cn (OpUpdateAgent r) = agentOk cd cn r"
| "opOk cd cn (OpDeleteAgent t i) = (uuidOk cn t \<and> uuidOk cn i)"
| "opOk cd cn (OpCreateMcpServer r) = serverOk cn r"
| "opOk cd cn (OpUpdateMcpServer r) = serverOk cn r"
| "opOk cd cn (OpDeleteMcpServer t i) = (uuidOk cn t \<and> uuidOk cn i)"
| "opOk cd cn (OpCreateFlow r) = flowOk cd cn r"
| "opOk cd cn (OpUpdateFlow r) = flowOk cd cn r"
| "opOk cd cn (OpDeleteFlow t i) = (uuidOk cn t \<and> uuidOk cn i)"
| "opOk cd cn (OpCreateRun r) = runOk cd cn r"
| "opOk cd cn (OpUpdateRun r) = runOk cd cn r"
| "opOk cd cn (OpCreateTask r) = taskOk cd cn r"
| "opOk cd cn (OpUpdateTask r) = taskOk cd cn r"
| "opOk cd cn (OpCreateUser r) = userOk cn r"
| "opOk cd cn (OpUpdateUser r) = userOk cn r"
| "opOk cd cn (OpDeleteUser t i) = (uuidOk cn t \<and> uuidOk cn i)"
| "opOk cd cn (OpCreateTenant r) = tenantOk cn r"

text \<open>An UPDATE keeps what it does not set.\<close>

definition orOld :: "'r pmap \<Rightarrow> string \<Rightarrow> string \<Rightarrow> ('r \<Rightarrow> 'r) \<Rightarrow> 'r \<Rightarrow> 'r" where
  "orOld f t i keep r = (case f t i of Some old \<Rightarrow> keep old | None \<Rightarrow> r)"

fun keepOld :: "AbsStore \<Rightarrow> store_op \<Rightarrow> store_op" where
  "keepOld s (OpUpdateAgent r) = OpUpdateAgent (orOld (aAgents s) (agTenantID r) (agID r) (\<lambda>old. r \<lparr>agCreatedAt := agCreatedAt old\<rparr>) r)"
| "keepOld s (OpUpdateMcpServer r) =
     OpUpdateMcpServer (orOld (aMcpServers s) (msvTenantID r) (msvID r) (\<lambda>old. r \<lparr>msvCreatedAt := msvCreatedAt old\<rparr>) r)"
| "keepOld s (OpUpdateFlow r) = OpUpdateFlow (orOld (aFlows s) (flTenantID r) (flID r) (\<lambda>old. r \<lparr>flCreatedAt := flCreatedAt old\<rparr>) r)"
| "keepOld s (OpUpdateRun r) = OpUpdateRun (orOld (aRuns s) (ruTenantID r) (ruID r) (\<lambda>old. r \<lparr>ruFlowID := ruFlowID old\<rparr>) r)"
| "keepOld s (OpUpdateTask r) = OpUpdateTask (orOld (aTasks s) (taTenantID r) (taID r) (\<lambda>old. r \<lparr>taCreatedAt := taCreatedAt old\<rparr>) r)"
| "keepOld s (OpUpdateUser r) = OpUpdateUser (orOld (aUsers s) (usTenantID r) (usID r) (\<lambda>old. r \<lparr>usCreatedAt := usCreatedAt old\<rparr>) r)"
| "keepOld s op = op"

text \<open>Deleting a flow deletes its runs.\<close>

fun cascade :: "store_op \<Rightarrow> AbsStore \<Rightarrow> AbsStore" where
  "cascade (OpDeleteFlow t i) s =
     s \<lparr>aRuns := (\<lambda>t' j. case aRuns s t' j of Some r \<Rightarrow> if ruFlowID r = i then None else Some r | None \<Rightarrow> None)\<rparr>"
| "cascade op s = s"

definition pgSpec :: "store_op \<Rightarrow> AbsStore \<Rightarrow> store_error option \<times> AbsStore" where
  "pgSpec op s = (case spec_step (keepOld s op) s of (e, s') \<Rightarrow> (e, if e = None then cascade op s' else s'))"

lemma conforms_map_res [simp]: "conforms (map_res f res) spec x y = conforms res spec x y"
  by (cases res) (simp_all add: conforms_def)

lemma conforms_lift: "conforms res spec x y \<Longrightarrow> conforms res (apsnd put spec) (put x) (put y)"
  by (auto simp: conforms_def split: sum.splits pg_error.splits)

lemma pgAbs_upd:
  "pgAbs cd (R(''agents'' := M)) = pgAbs cd R \<lparr>aAgents := pgTable (scanAgent cd) agentCols agTenantID agID M\<rparr>"
  "pgAbs cd (R(''mcp_servers'' := M)) = pgAbs cd R \<lparr>aMcpServers := pgTable scanMcpServer serverCols msvTenantID msvID M\<rparr>"
  "pgAbs cd (R(''flows'' := M)) = pgAbs cd R \<lparr>aFlows := pgTable (scanFlow cd) flowCols flTenantID flID M\<rparr>"
  "pgAbs cd (R(''runs'' := M)) = pgAbs cd R \<lparr>aRuns := pgTable (scanRun cd) runCols ruTenantID ruID M\<rparr>"
  "pgAbs cd (R(''tasks'' := M)) = pgAbs cd R \<lparr>aTasks := pgTable (scanTask cd) taskCols taTenantID taID M\<rparr>"
  "pgAbs cd (R(''users'' := M)) = pgAbs cd R \<lparr>aUsers := pgTable scanUser userCols usTenantID usID M\<rparr>"
  "pgAbs cd (R(''tenants'' := M)) = pgAbs cd R \<lparr>aTenants := pgTable scanTenant tenantCols (\<lambda>_. '''') teID M ''''\<rparr>"
  by (simp_all add: pgAbs_def)

lemma lift_outcome:
  assumes "constraints R' \<and> (\<exists>M'. R' = R(tab := M') \<and> decodable scan cols M' \<and> conforms x spec (tabf (R tab)) (tabf M'))"
    and "\<And>M'. pgAbs cd (R(tab := M')) = put (tabf M')"
    and "\<And>M'. constraints (R(tab := M')) \<Longrightarrow> decodable scan cols M' \<Longrightarrow> pgInv cd (R(tab := M'))"
    and "pgSpec op (pgAbs cd R) = apsnd put spec"
  shows "pgInv cd R' \<and> conforms x (pgSpec op (pgAbs cd R)) (pgAbs cd R) (pgAbs cd R')"
proof -
  obtain M' where M': "R' = R(tab := M')" "decodable scan cols M'" "conforms x spec (tabf (R tab)) (tabf M')" "constraints R'"
    using assms(1) by blast
  have "pgAbs cd R = put (tabf (R tab))" using assms(2) [of "R tab"] by simp
  with M' conforms_lift [OF M'(3), of put] assms(2,3,4) show ?thesis by simp
qed

lemma pgInvD:
  assumes "pgInv cd R"
  shows "constraints R" "decodable (scanAgent cd) agentCols (R ''agents'')" "decodable scanMcpServer serverCols (R ''mcp_servers'')"
    "decodable (scanFlow cd) flowCols (R ''flows'')" "decodable (scanRun cd) runCols (R ''runs'')" "decodable (scanTask cd) taskCols (R ''tasks'')"
    "decodable scanUser userCols (R ''users'')" "decodable scanTenant tenantCols (R ''tenants'')"
  using assms by (simp_all add: pgInv_def)

lemma pgAbs_sel [simp]:
  "aAgents (pgAbs cd R) = pgTable (scanAgent cd) agentCols agTenantID agID (R ''agents'')"
  "aMcpServers (pgAbs cd R) = pgTable scanMcpServer serverCols msvTenantID msvID (R ''mcp_servers'')"
  "aFlows (pgAbs cd R) = pgTable (scanFlow cd) flowCols flTenantID flID (R ''flows'')"
  "aRuns (pgAbs cd R) = pgTable (scanRun cd) runCols ruTenantID ruID (R ''runs'')"
  "aTasks (pgAbs cd R) = pgTable (scanTask cd) taskCols taTenantID taID (R ''tasks'')"
  "aUsers (pgAbs cd R) = pgTable scanUser userCols usTenantID usID (R ''users'')"
  "aTenants (pgAbs cd R) = pgTable scanTenant tenantCols (\<lambda>_. '''') teID (R ''tenants'') ''''"
  by (simp_all add: pgAbs_def)

lemma pgSpec_plain: "(\<And>s. cascade op s = s) \<Longrightarrow> pgSpec op s = spec_step (keepOld s op) s"
  by (simp add: pgSpec_def split: prod.split)

lemma pgSpec_create:
  "pgSpec (OpCreateAgent r0) s = apsnd (\<lambda>f. s \<lparr>aAgents := f\<rparr>) (specCreate (agTenantID r0) (agID r0) r0 (aAgents s))"
  "pgSpec (OpCreateMcpServer r1) s = apsnd (\<lambda>f. s \<lparr>aMcpServers := f\<rparr>) (specCreate (msvTenantID r1) (msvID r1) r1 (aMcpServers s))"
  "pgSpec (OpCreateFlow r2) s = apsnd (\<lambda>f. s \<lparr>aFlows := f\<rparr>) (specCreate (flTenantID r2) (flID r2) r2 (aFlows s))"
  "pgSpec (OpCreateRun r3) s = apsnd (\<lambda>f. s \<lparr>aRuns := f\<rparr>) (specCreate (ruTenantID r3) (ruID r3) r3 (aRuns s))"
  "pgSpec (OpCreateTask r4) s = apsnd (\<lambda>f. s \<lparr>aTasks := f\<rparr>) (specCreate (taTenantID r4) (taID r4) r4 (aTasks s))"
  "pgSpec (OpCreateUser r5) s = apsnd (\<lambda>f. s \<lparr>aUsers := f\<rparr>) (specCreate (usTenantID r5) (usID r5) r5 (aUsers s))"
  by (simp_all add: pgSpec_plain)

lemma pgSpec_update:
  "pgSpec (OpUpdateAgent r0) s = apsnd (\<lambda>f. s \<lparr>aAgents := f\<rparr>) (specUpdate (agTenantID r0) (agID r0)
     (case aAgents s (agTenantID r0) (agID r0) of Some old \<Rightarrow> r0 \<lparr>agCreatedAt := agCreatedAt old\<rparr> | None \<Rightarrow> r0) (aAgents s))"
  "pgSpec (OpUpdateMcpServer r1) s = apsnd (\<lambda>f. s \<lparr>aMcpServers := f\<rparr>) (specUpdate (msvTenantID r1) (msvID r1)
     (case aMcpServers s (msvTenantID r1) (msvID r1) of Some old \<Rightarrow> r1 \<lparr>msvCreatedAt := msvCreatedAt old\<rparr> | None \<Rightarrow> r1) (aMcpServers s))"
  "pgSpec (OpUpdateFlow r2) s = apsnd (\<lambda>f. s \<lparr>aFlows := f\<rparr>) (specUpdate (flTenantID r2) (flID r2)
     (case aFlows s (flTenantID r2) (flID r2) of Some old \<Rightarrow> r2 \<lparr>flCreatedAt := flCreatedAt old\<rparr> | None \<Rightarrow> r2) (aFlows s))"
  "pgSpec (OpUpdateRun r3) s = apsnd (\<lambda>f. s \<lparr>aRuns := f\<rparr>) (specUpdate (ruTenantID r3) (ruID r3)
     (case aRuns s (ruTenantID r3) (ruID r3) of Some old \<Rightarrow> r3 \<lparr>ruFlowID := ruFlowID old\<rparr> | None \<Rightarrow> r3) (aRuns s))"
  "pgSpec (OpUpdateTask r4) s = apsnd (\<lambda>f. s \<lparr>aTasks := f\<rparr>) (specUpdate (taTenantID r4) (taID r4)
     (case aTasks s (taTenantID r4) (taID r4) of Some old \<Rightarrow> r4 \<lparr>taCreatedAt := taCreatedAt old\<rparr> | None \<Rightarrow> r4) (aTasks s))"
  "pgSpec (OpUpdateUser r5) s = apsnd (\<lambda>f. s \<lparr>aUsers := f\<rparr>) (specUpdate (usTenantID r5) (usID r5)
     (case aUsers s (usTenantID r5) (usID r5) of Some old \<Rightarrow> r5 \<lparr>usCreatedAt := usCreatedAt old\<rparr> | None \<Rightarrow> r5) (aUsers s))"
  by (simp_all add: pgSpec_plain orOld_def split: option.split)

lemma pgSpec_delete:
  "pgSpec (OpDeleteAgent t i) s = apsnd (\<lambda>f. s \<lparr>aAgents := f\<rparr>) (specDelete t i (aAgents s))"
  "pgSpec (OpDeleteMcpServer t i) s = apsnd (\<lambda>f. s \<lparr>aMcpServers := f\<rparr>) (specDelete t i (aMcpServers s))"
  "pgSpec (OpDeleteUser t i) s = apsnd (\<lambda>f. s \<lparr>aUsers := f\<rparr>) (specDelete t i (aUsers s))"
  by (simp_all add: pgSpec_plain)

text \<open>An operation and its outcome.\<close>

definition simulated :: "('d \<Rightarrow> tables) \<Rightarrow> Codec \<Rightarrow> store_op \<Rightarrow> 'd \<Rightarrow> (pg_error, 'x) result \<Rightarrow> 'd \<Rightarrow> bool" where
  "simulated rows cd op d res d' \<longleftrightarrow> pgInv cd (rows d')
     \<and> conforms res (pgSpec op (pgAbs cd (rows d))) (pgAbs cd (rows d)) (pgAbs cd (rows d'))"

lemma create_simulated:
  assumes laws: "sqlLaws db cn rows" and inv: "pgInv cd (rows d)"
  shows "agentOk cd cn r0 \<Longrightarrow> pg_CreateAgent db cd r0 d = (x0, d') \<Longrightarrow> simulated rows cd (OpCreateAgent r0) d x0 d'"
    and "serverOk cn r1 \<Longrightarrow> pg_CreateMcpServer db r1 d = (x1, d') \<Longrightarrow> simulated rows cd (OpCreateMcpServer r1) d x1 d'"
    and "flowOk cd cn r2 \<Longrightarrow> pg_CreateFlow db cd r2 d = (x2, d') \<Longrightarrow> simulated rows cd (OpCreateFlow r2) d x2 d'"
    and "runOk cd cn r3 \<Longrightarrow> pg_CreateRun db cd r3 d = (x3, d') \<Longrightarrow> simulated rows cd (OpCreateRun r3) d x3 d'"
    and "taskOk cd cn r4 \<Longrightarrow> pg_CreateTask db cd r4 d = (x4, d') \<Longrightarrow> simulated rows cd (OpCreateTask r4) d x4 d'"
    and "userOk cn r5 \<Longrightarrow> pg_CreateUser db r5 d = (x5, d') \<Longrightarrow> simulated rows cd (OpCreateUser r5) d x5 d'"
proof -
  note D = pgInvD [OF inv]
  show "simulated rows cd (OpCreateAgent r0) d x0 d'" if "agentOk cd cn r0" "pg_CreateAgent db cd r0 d = (x0, d')"
    using D that unfolding simulated_def
    by (intro lift_outcome [OF pg_agents.create_outcome [OF laws D(1) _ that(1) that(2) [unfolded pg_CreateAgent_def]]])
      (simp_all add: pgAbs_upd pgInv_def pgSpec_create)
  show "simulated rows cd (OpCreateMcpServer r1) d x1 d'" if "serverOk cn r1" "pg_CreateMcpServer db r1 d = (x1, d')"
    using D that unfolding simulated_def
    by (intro lift_outcome [OF pg_mcp_servers.create_outcome [OF laws D(1) _ that(1) that(2) [unfolded pg_CreateMcpServer_def]]])
      (simp_all add: pgAbs_upd pgInv_def pgSpec_create)
  show "simulated rows cd (OpCreateFlow r2) d x2 d'" if "flowOk cd cn r2" "pg_CreateFlow db cd r2 d = (x2, d')"
    using D that unfolding simulated_def
    by (intro lift_outcome [OF pg_flows.create_outcome [OF laws D(1) _ that(1) that(2) [unfolded pg_CreateFlow_def]]])
      (simp_all add: pgAbs_upd pgInv_def pgSpec_create)
  show "simulated rows cd (OpCreateRun r3) d x3 d'" if "runOk cd cn r3" "pg_CreateRun db cd r3 d = (x3, d')"
    using D that unfolding simulated_def
    by (intro lift_outcome [OF pg_runs.create_outcome [OF laws D(1) _ that(1) that(2) [unfolded pg_CreateRun_def]]])
      (simp_all add: pgAbs_upd pgInv_def pgSpec_create)
  show "simulated rows cd (OpCreateTask r4) d x4 d'" if "taskOk cd cn r4" "pg_CreateTask db cd r4 d = (x4, d')"
    using D that unfolding simulated_def
    by (intro lift_outcome [OF pg_tasks.create_outcome [OF laws D(1) _ that(1) that(2) [unfolded pg_CreateTask_def]]])
      (simp_all add: pgAbs_upd pgInv_def pgSpec_create)
  show "simulated rows cd (OpCreateUser r5) d x5 d'" if "userOk cn r5" "pg_CreateUser db r5 d = (x5, d')"
    using D that unfolding simulated_def
    by (intro lift_outcome [OF pg_users.create_outcome [OF laws D(1) _ that(1) that(2) [unfolded pg_CreateUser_def]]])
      (simp_all add: pgAbs_upd pgInv_def pgSpec_create)
qed

lemma update_simulated:
  assumes laws: "sqlLaws db cn rows" and inv: "pgInv cd (rows d)"
  shows "agentOk cd cn r0 \<Longrightarrow> pg_UpdateAgent db cd r0 d = (x0, d') \<Longrightarrow> simulated rows cd (OpUpdateAgent r0) d x0 d'"
    and "serverOk cn r1 \<Longrightarrow> pg_UpdateMcpServer db r1 d = (x1, d') \<Longrightarrow> simulated rows cd (OpUpdateMcpServer r1) d x1 d'"
    and "flowOk cd cn r2 \<Longrightarrow> pg_UpdateFlow db cd r2 d = (x2, d') \<Longrightarrow> simulated rows cd (OpUpdateFlow r2) d x2 d'"
    and "runOk cd cn r3 \<Longrightarrow> pg_UpdateRun db cd r3 d = (x3, d') \<Longrightarrow> simulated rows cd (OpUpdateRun r3) d x3 d'"
    and "taskOk cd cn r4 \<Longrightarrow> pg_UpdateTask db cd r4 d = (x4, d') \<Longrightarrow> simulated rows cd (OpUpdateTask r4) d x4 d'"
    and "userOk cn r5 \<Longrightarrow> pg_UpdateUser db r5 d = (x5, d') \<Longrightarrow> simulated rows cd (OpUpdateUser r5) d x5 d'"
proof -
  note D = pgInvD [OF inv]
  show "simulated rows cd (OpUpdateAgent r0) d x0 d'" if "agentOk cd cn r0" "pg_UpdateAgent db cd r0 d = (x0, d')"
    using D that unfolding simulated_def
    by (intro lift_outcome [OF pg_agents.update_outcome [OF laws D(1) _ that(1) that(2) [unfolded pg_UpdateAgent_def]]])
      (simp_all add: pgAbs_upd pgInv_def pgSpec_update)
  show "simulated rows cd (OpUpdateMcpServer r1) d x1 d'" if "serverOk cn r1" "pg_UpdateMcpServer db r1 d = (x1, d')"
    using D that unfolding simulated_def
    by (intro lift_outcome [OF pg_mcp_servers.update_outcome [OF laws D(1) _ that(1) that(2) [unfolded pg_UpdateMcpServer_def]]])
      (simp_all add: pgAbs_upd pgInv_def pgSpec_update)
  show "simulated rows cd (OpUpdateFlow r2) d x2 d'" if "flowOk cd cn r2" "pg_UpdateFlow db cd r2 d = (x2, d')"
    using D that unfolding simulated_def
    by (intro lift_outcome [OF pg_flows.update_outcome [OF laws D(1) _ that(1) that(2) [unfolded pg_UpdateFlow_def]]])
      (simp_all add: pgAbs_upd pgInv_def pgSpec_update)
  show "simulated rows cd (OpUpdateRun r3) d x3 d'" if "runOk cd cn r3" "pg_UpdateRun db cd r3 d = (x3, d')"
    using D that unfolding simulated_def
    by (intro lift_outcome [OF pg_runs.update_outcome [OF laws D(1) _ that(1) that(2) [unfolded pg_UpdateRun_def]]])
      (simp_all add: pgAbs_upd pgInv_def pgSpec_update)
  show "simulated rows cd (OpUpdateTask r4) d x4 d'" if "taskOk cd cn r4" "pg_UpdateTask db cd r4 d = (x4, d')"
    using D that unfolding simulated_def
    by (intro lift_outcome [OF pg_tasks.update_outcome [OF laws D(1) _ that(1) that(2) [unfolded pg_UpdateTask_def]]])
      (simp_all add: pgAbs_upd pgInv_def pgSpec_update)
  show "simulated rows cd (OpUpdateUser r5) d x5 d'" if "userOk cn r5" "pg_UpdateUser db r5 d = (x5, d')"
    using D that unfolding simulated_def
    by (intro lift_outcome [OF pg_users.update_outcome [OF laws D(1) _ that(1) that(2) [unfolded pg_UpdateUser_def]]])
      (simp_all add: pgAbs_upd pgInv_def pgSpec_update)
qed

lemma delete_simulated:
  assumes laws: "sqlLaws db cn rows" and inv: "pgInv cd (rows d)"
  shows "uuidOk cn t \<and> uuidOk cn i \<Longrightarrow> pg_DeleteAgent db t i d = (x0, d') \<Longrightarrow> simulated rows cd (OpDeleteAgent t i) d x0 d'"
    and "uuidOk cn t \<and> uuidOk cn i \<Longrightarrow> pg_DeleteMcpServer db t i d = (x1, d') \<Longrightarrow> simulated rows cd (OpDeleteMcpServer t i) d x1 d'"
    and "uuidOk cn t \<and> uuidOk cn i \<Longrightarrow> pg_DeleteUser db t i d = (x2, d') \<Longrightarrow> simulated rows cd (OpDeleteUser t i) d x2 d'"
proof -
  note D = pgInvD [OF inv]
  show "simulated rows cd (OpDeleteAgent t i) d x0 d'" if "uuidOk cn t \<and> uuidOk cn i" "pg_DeleteAgent db t i d = (x0, d')"
    using D that unfolding simulated_def
    by (intro lift_outcome [OF pg_agents.delete_outcome [OF laws D(1) _ _ _ _ _ that(2) [unfolded pg_DeleteAgent_def]]])
      (simp_all add: pgAbs_upd pgInv_def pgSpec_delete uuidOk_def foreignKeys_def)
  show "simulated rows cd (OpDeleteMcpServer t i) d x1 d'" if "uuidOk cn t \<and> uuidOk cn i" "pg_DeleteMcpServer db t i d = (x1, d')"
    using D that unfolding simulated_def
    by (intro lift_outcome [OF pg_mcp_servers.delete_outcome [OF laws D(1) _ _ _ _ _ that(2) [unfolded pg_DeleteMcpServer_def]]])
      (simp_all add: pgAbs_upd pgInv_def pgSpec_delete uuidOk_def foreignKeys_def)
  show "simulated rows cd (OpDeleteUser t i) d x2 d'" if "uuidOk cn t \<and> uuidOk cn i" "pg_DeleteUser db t i d = (x2, d')"
    using D that unfolding simulated_def
    by (intro lift_outcome [OF pg_users.delete_outcome [OF laws D(1) _ _ _ _ _ that(2) [unfolded pg_DeleteUser_def]]])
      (simp_all add: pgAbs_upd pgInv_def pgSpec_delete uuidOk_def foreignKeys_def)
qed

lemma tenant_simulated:
  assumes laws: "sqlLaws db cn rows" and inv: "pgInv cd (rows d)" and "tenantOk cn r" "pg_CreateTenant db r d = (x, d')"
  shows "simulated rows cd (OpCreateTenant r) d x d'"
proof -
  note D = pgInvD [OF inv]
  have "pgSpec (OpCreateTenant r) (pgAbs cd (rows d)) = apsnd (\<lambda>f. pgAbs cd (rows d) \<lparr>aTenants := f ''''\<rparr>)
      (specCreate '''' (teID r) r (pgTable scanTenant tenantCols (\<lambda>_. '''') teID (rows d ''tenants'')))"
    by (simp add: pgSpec_plain specCreate_def)
  then show ?thesis
    using D unfolding simulated_def
    by (intro lift_outcome [OF pg_tenants.create_outcome [OF laws D(1) _ assms(3) assms(4) [unfolded pg_CreateTenant_def]]])
      (simp_all add: pgAbs_upd pgInv_def)
qed

lemma orphaned_runs:
  "orphaned ''flows'' gone s r \<longleftrightarrow> s = ''runs'' \<and> (\<exists>g \<in># gone. r ''flow_id'' = g ''id'')"
  by (auto simp: orphaned_def foreignKeys_def)

lemma deleteFlow_effect:
  assumes inv: "pgInv cd R" and ok: "uuidOk cn t" "uuidOk cn i"
    and eff: "sqlEffect cn (DeleteFrom ''flows'' [(''tenant_id'', 1), (''id'', 2)]) [CText t, CText i] R n R'"
  shows "pgInv cd R'" and "n = 0 \<Longrightarrow> pgSpec (OpDeleteFlow t i) (pgAbs cd R) = (Some ErrNotFound, pgAbs cd R) \<and> R' = R"
    and "n \<noteq> 0 \<Longrightarrow> pgSpec (OpDeleteFlow t i) (pgAbs cd R) = (None, pgAbs cd R')"
proof -
  let ?gone = "filter_mset (rowAt t i) (R ''flows'')" and ?M' = "filter_mset (\<lambda>row. \<not> rowAt t i row) (R ''flows'')"
  let ?runs = "filter_mset (\<lambda>r. \<not> orphaned ''flows'' ?gone ''runs'' r) (R ''runs'')"
  note D = pgInvD [OF inv]
  have u: "cnUuid cn t = t" "cnUuid cn i = i" using ok by (simp_all add: uuidOk_def)
  have leaf: "\<forall>r. \<not> orphaned ''flows'' ?gone ''flows'' r" by (simp add: orphaned_runs)
  note E = pg_flows.delete_effect [OF D(1,4) u _ eff refl leaf, simplified]
  have "R' s = (R(''flows'' := ?M', ''runs'' := ?runs)) s" for s
    using E(2) E(4) [of s] by (cases "s = ''flows''"; cases "s = ''runs''") (simp_all add: orphaned_runs)
  then have R': "R' = R(''flows'' := ?M', ''runs'' := ?runs)" by blast
  have row: "scanRun cd (map row runCols) = Inr r \<Longrightarrow> row ''flow_id'' = CText (ruFlowID r)" for row r
    by (auto simp: run_row row_defs bind_res_Inr_iff split: cell.splits)
  have orph: "\<not> orphaned ''flows'' ?gone ''runs'' row \<longleftrightarrow> \<not> (?gone \<noteq> {#} \<and> ruFlowID r = i)" if "scanRun cd (map row runCols) = Inr r" for row r
    using row [OF that] by (auto simp: orphaned_runs rowAt_def)
  note F = pg_runs.tabOf_filter [OF conjI [OF constraints_id [OF D(1)] D(5)],
      of "\<lambda>r. \<not> orphaned ''flows'' ?gone ''runs'' r" "\<lambda>r. \<not> (?gone \<noteq> {#} \<and> ruFlowID r = i)", OF orph]
  show "pgInv cd R'" using E(1,3) F(1) D unfolding pgInv_def by (simp add: R')
  have n: "n = size ?gone" using eff unfolding sqlEffect.simps rowAt_where [OF u] Let_def by simp
  show "pgSpec (OpDeleteFlow t i) (pgAbs cd R) = (Some ErrNotFound, pgAbs cd R) \<and> R' = R" if "n = 0"
    using E(5,6) that by (simp add: pgSpec_def)
  show "pgSpec (OpDeleteFlow t i) (pgAbs cd R) = (None, pgAbs cd R')" if "n \<noteq> 0"
  proof -
    have "?gone \<noteq> {#}" using that n by auto
    then have "pg_runs.tabOf cd ?runs t' j = (case pg_runs.tabOf cd (R ''runs'') t' j of Some r \<Rightarrow> if ruFlowID r = i then None else Some r | None \<Rightarrow> None)" for t' j
      using F(2) [of t' j] by (auto split: option.splits)
    then have "pg_runs.tabOf cd ?runs = (\<lambda>t' j. case pg_runs.tabOf cd (R ''runs'') t' j of Some r \<Rightarrow> if ruFlowID r = i then None else Some r | None \<Rightarrow> None)"
      by blast
    then show ?thesis using E(5) that unfolding R' by (simp add: pgSpec_def pgAbs_upd)
  qed
qed

lemma deleteFlow_simulated:
  assumes laws: "sqlLaws db cn rows" and inv: "pgInv cd (rows d)" and ok: "uuidOk cn t \<and> uuidOk cn i" and "pg_DeleteFlow db t i d = (x, d')"
  shows "simulated rows cd (OpDeleteFlow t i) d x d'"
proof -
  let ?q = "DeleteFrom ''flows'' [(''tenant_id'', 1), (''id'', 2)]"
  note E = deleteFlow_effect [OF inv conjunct1 [OF ok] conjunct2 [OF ok], where R' = "rows d'"]
  consider n where "sqlEffect cn ?q [CText t, CText i] (rows d) n (rows d')" "n = 0 \<longrightarrow> (\<forall>y. x \<noteq> Inr y)"
      "\<forall>e. x = Inl (Sentinel e) \<longrightarrow> n = 0 \<and> e = ErrNotFound"
    | e where "rows d' = rows d" "x = Inl (DbErr e)"
    using execAffected_laws [OF laws pgInvD(1) [OF inv] assms(4) [unfolded pg_DeleteFlow_def]] by blast
  then show ?thesis
  proof cases
    case 1
    have "pgSpec (OpDeleteFlow t i) (pgAbs cd (rows d)) = (if n = 0 then (Some ErrNotFound, pgAbs cd (rows d)) else (None, pgAbs cd (rows d')))"
      using E(2,3) [OF 1(1)] by simp
    moreover have "conforms x (if n = 0 then (Some ErrNotFound, pgAbs cd (rows d)) else (None, pgAbs cd (rows d'))) (pgAbs cd (rows d)) (pgAbs cd (rows d'))"
      using E(2) [OF 1(1)] by (intro conforms_effect [OF 1(2,3)]) simp
    ultimately show ?thesis using E(1) [OF 1(1)] by (simp add: simulated_def)
  next
    case 2
    then show ?thesis using inv conforms_same by (simp add: simulated_def)
  qed
qed

lemma simulated_map_res [simp]: "simulated rows cd op d (map_res f x) d' = simulated rows cd op d x d'"
  by (simp add: simulated_def)

lemma step_simulated:
  assumes "sqlLaws db cn rows" "pgInv cd (rows d)" "opOk cd cn op" "pg_step db cd op d = (res, d')"
  shows "simulated rows cd op d res d'"
proof -
  note S = create_simulated [OF assms(1,2)] update_simulated [OF assms(1,2)] delete_simulated [OF assms(1,2)]
    deleteFlow_simulated [OF assms(1,2)] tenant_simulated [OF assms(1,2)]
  have m: "apfst (map_res f) p = (res, d') \<Longrightarrow> \<exists>x. p = (x, d') \<and> res = map_res f x" for f :: "'y \<Rightarrow> unit" and p :: "(pg_error, 'y) result \<times> 'a"
    by (cases p) auto
  show ?thesis using assms(3,4) by (cases op) (auto dest!: m intro: S)
qed

section \<open>Reading\<close>

lemma laws_query:
  assumes "sqlLaws db cn rows"
  shows "rows (snd (dbQuery db q args d)) = rows d"
    and "dbQuery db (Select cols tab cond ord) args d = (Inr (rs, None), d') \<Longrightarrow>
      \<exists>ms. mset ms = filter_mset (matches cn args cond) (rows d tab) \<and> rs = map (\<lambda>r. map r cols) ms
        \<and> (case ord of None \<Rightarrow> True | Some c \<Rightarrow> sorted_wrt (\<lambda>r r'. cnLe cn (r c) (r' c)) ms)"
proof -
  show "rows (snd (dbQuery db q args d)) = rows d"
    using assms unfolding sqlLaws_def by (elim conjE allE)
  assume q: "dbQuery db (Select cols tab cond ord) args d = (Inr (rs, None), d')"
  have "\<forall>cols tab cond ord args d rs d'. dbQuery db (Select cols tab cond ord) args d = (Inr (rs, None), d') \<longrightarrow>
          (\<exists>ms. mset ms = filter_mset (matches cn args cond) (rows d tab) \<and> rs = map (\<lambda>r. map r cols) ms
             \<and> (case ord of None \<Rightarrow> True | Some c \<Rightarrow> sorted_wrt (\<lambda>r r'. cnLe cn (r c) (r' c)) ms))"
    using assms unfolding sqlLaws_def by (elim conjE)
  then show "\<exists>ms. mset ms = filter_mset (matches cn args cond) (rows d tab) \<and> rs = map (\<lambda>r. map r cols) ms
      \<and> (case ord of None \<Rightarrow> True | Some c \<Rightarrow> sorted_wrt (\<lambda>r r'. cnLe cn (r c) (r' c)) ms)"
    using q by blast
qed

text \<open>What a reading method may return when the table holds \<open>found\<close> at the key.\<close>

definition reads :: "(pg_error, 'r) result \<Rightarrow> 'r option \<Rightarrow> bool" where
  "reads res found \<longleftrightarrow> (case res of
      Inr r \<Rightarrow> found = Some r
    | Inl (Sentinel e) \<Rightarrow> e = ErrNotFound \<and> found = None
    | Inl (DbErr _) \<Rightarrow> True)"

lemma getRow_failed:
  "dbQuery db q args d = (Inl e, d') \<Longrightarrow> getRow db scan q args d = (Inl (DbErr e), d')"
  "dbQuery db q args d = (Inr (rs, Some e), d') \<Longrightarrow> getRow db scan q args d = (Inl (DbErr e), d')"
  by (cases rs; simp add: getRow_def queryRow_def wrapNotFound_def)+

lemma getRow_reads:
  assumes laws: "sqlLaws db cn rows"
    and one: "\<And>row r. row \<in># rows d tab \<Longrightarrow> matches cn args cond row \<Longrightarrow> scan (map row cols) = Inr r \<Longrightarrow> found = Some r"
    and none: "filter_mset (matches cn args cond) (rows d tab) = {#} \<Longrightarrow> found = None"
  shows "reads (fst (getRow db scan (Select cols tab cond ord) args d)) found
    \<and> rows (snd (getRow db scan (Select cols tab cond ord) args d)) = rows d"
proof -
  obtain x d' where x: "dbQuery db (Select cols tab cond ord) args d = (x, d')" by force
  have d': "rows d' = rows d" using laws_query(1) [OF laws, of "Select cols tab cond ord" args d] x by simp
  show ?thesis
  proof (cases "\<exists>rs. x = Inr (rs, None)")
    case True
    then obtain rs where rs: "x = Inr (rs, None)" by blast
    from laws_query(2) [OF laws x [unfolded rs]] obtain ms where ms: "mset ms = filter_mset (matches cn args cond) (rows d tab)"
      "rs = map (\<lambda>r. map r cols) ms" by blast
    show ?thesis
    proof (cases ms)
      case Nil
      then have "found = None" using none ms(1) by simp
      then show ?thesis using x rs ms(2) Nil d' by (simp add: getRow_def queryRow_def reads_def wrapNotFound_def)
    next
      case (Cons row rest)
      then have "row \<in># filter_mset (matches cn args cond) (rows d tab)" unfolding ms(1) [symmetric] by simp
      then have "scan (map row cols) = Inr r \<Longrightarrow> found = Some r" for r using one [of row r] by simp
      then show ?thesis using x rs ms(2) Cons d'
        by (cases "scan (map row cols)") (simp_all add: getRow_def queryRow_def reads_def wrapNotFound_def)
    qed
  next
    case False
    then have "(\<exists>e. x = Inl e) \<or> (\<exists>rs e. x = Inr (rs, Some e))" by (metis obj_sumE prod.exhaust option.exhaust)
    then obtain e where "getRow db scan (Select cols tab cond ord) args d = (Inl (DbErr e), d')"
      using x getRow_failed [of db "Select cols tab cond ord" args d] by blast
    then show ?thesis using d' by (simp add: reads_def)
  qed
qed

lemma scanRows_ok: "scanRows scan rs err = Inr xs \<longleftrightarrow> err = None \<and> list_all2 (\<lambda>r x. scan r = Inr x) rs xs"
  by (induction rs arbitrary: xs)
    (auto split: option.splits sum.splits simp: list_all2_Cons1 map_res_Inr_iff)

lemma uniqueOn_mset: "uniqueOn f (mset xs) \<longleftrightarrow> distinct (map f xs)"
proof (induction xs)
  case Nil
  then show ?case by (simp add: uniqueOn_def)
next
  case (Cons x xs)
  show ?case
  proof
    assume u: "uniqueOn f (mset (x # xs))"
    then have "uniqueOn f (mset xs)" unfolding uniqueOn_def
      using order_trans [OF size_mset_mono [OF multiset_filter_mono [of "mset xs" "mset (x # xs)"]]] by fastforce
    moreover have "f y \<noteq> f x" if "y \<in> set xs" for y using uniqueOn_add [of f x "mset xs" y] u that by simp
    ultimately show "distinct (map f (x # xs))" using Cons.IH by force
  next
    assume d: "distinct (map f (x # xs))"
    then have "\<forall>y \<in># mset xs. f y \<noteq> f x" by (metis distinct.simps(2) image_eqI list.simps(9) set_map set_mset_mset)
    then have "filter_mset (\<lambda>r. f r = f x) (mset xs) = {#}" by simp
    then show "uniqueOn f (mset (x # xs))" using Cons.IH d by (auto simp: uniqueOn_def)
  qed
qed

text \<open>A listing: no id twice, exactly the given resources, in the order of the database on a cell.\<close>

definition listed :: "Canon \<Rightarrow> ('r \<Rightarrow> string) \<Rightarrow> ('r \<Rightarrow> cell) \<Rightarrow> 'r list \<Rightarrow> 'r set \<Rightarrow> bool" where
  "listed cn ident cell xs S \<longleftrightarrow> distinct (map ident xs) \<and> set xs = S \<and> sorted_wrt (\<lambda>r r'. cnLe cn (cell r) (cell r')) xs"

context pg_resource
begin

lemma get_reads:
  assumes "sqlLaws db cn rows" "constraints (rows d)" "decodable scan cols (rows d tab)" "cnUuid cn t = t" "cnUuid cn i = i"
  shows "reads (fst (getRow db scan (Select cols tab [(''tenant_id'', 1), (''id'', 2)] None) [CText t, CText i] d)) (tabOf (rows d tab) t i)
    \<and> rows (snd (getRow db scan (Select cols tab [(''tenant_id'', 1), (''id'', 2)] None) [CText t, CText i] d)) = rows d"
proof (rule getRow_reads [OF assms(1)], unfold rowAt_where [OF assms(4,5)])
  have inv: "tinv (rows d tab)" using assms(2,3) constraints_id by blast
  show "tabOf (rows d tab) t i = Some r" if "row \<in># rows d tab" "rowAt t i row" "scan (map row cols) = Inr r" for row r
    using that rowAt_scan [OF that(3)] unfolding tabOf_iff [OF inv] by blast
  show "tabOf (rows d tab) t i = None" if "filter_mset (rowAt t i) (rows d tab) = {#}"
    using that none_at [OF inv, of t i] by simp
qed

lemma list_reads:
  assumes laws: "sqlLaws db cn rows" and "constraints (rows d)" "decodable scan cols (rows d tab)"
    and key: "\<forall>row r. scan (map row cols) = Inr r \<longrightarrow> row c = cell r"
    and sel: "\<forall>row r. scan (map row cols) = Inr r \<longrightarrow> (matches cn as cnd row \<longleftrightarrow> tenant r = t \<and> Q r)"
    and "listRows db scan (Select cols tab cnd (Some c)) as d = (Inr xs, d')"
  shows "rows d' = rows d \<and> distinct (map ident xs) \<and> set xs = {r. \<exists>i. tabOf (rows d tab) t i = Some r \<and> Q r}
    \<and> sorted_wrt (\<lambda>r r'. cnLe cn (cell r) (cell r')) xs"
proof -
  have inv: "tinv (rows d tab)" using assms(2,3) constraints_id by blast
  obtain rs where x: "dbQuery db (Select cols tab cnd (Some c)) as d = (Inr (rs, None), d')" and xs: "list_all2 (\<lambda>r x. scan r = Inr x) rs xs"
    using assms(6) by (auto simp: listRows_def scanRows_ok split: prod.splits sum.splits)
  have d': "rows d' = rows d" using laws_query(1) [OF laws, of "Select cols tab cnd (Some c)" as d] x by simp
  from laws_query(2) [OF laws x] obtain ms where ms: "mset ms = filter_mset (matches cn as cnd) (rows d tab)"
      "rs = map (\<lambda>r. map r cols) ms" "sorted_wrt (\<lambda>r r'. cnLe cn (r c) (r' c)) ms" by auto
  have mx: "list_all2 (\<lambda>row x. scan (map row cols) = Inr x) ms xs" using xs by (simp add: ms(2) list_all2_map1)
  then have "map (\<lambda>r. r ''id'') ms = map (\<lambda>x. CText (ident x)) xs" "map (\<lambda>r. r c) ms = map cell xs"
    by (induction rule: list_all2_induct) (simp_all add: scan_id key)
  moreover have "distinct (map (\<lambda>r. r ''id'') ms)"
    using uniqueOn_filter [OF conjunct1 [OF inv]] unfolding uniqueOn_mset [symmetric] ms(1) .
  moreover have "sorted_wrt (cnLe cn) (map (\<lambda>r. r c) ms)" using ms(3) by (simp add: sorted_wrt_map)
  ultimately have "distinct (map (\<lambda>x. CText (ident x)) xs)" "sorted_wrt (cnLe cn) (map cell xs)" by simp_all
  moreover have "set xs = {r. \<exists>i. tabOf (rows d tab) t i = Some r \<and> Q r}"
  proof -
    have "x \<in> set xs \<longleftrightarrow> (\<exists>row \<in> set ms. scan (map row cols) = Inr x)" for x
      using mx by (induction rule: list_all2_induct) auto
    moreover have "row \<in> set ms \<longleftrightarrow> row \<in># rows d tab \<and> matches cn as cnd row" for row
      using arg_cong [OF ms(1), of set_mset] by (auto simp del: mset_filter)
    ultimately have "x \<in> set xs \<longleftrightarrow> (\<exists>row \<in># rows d tab. scan (map row cols) = Inr x \<and> tenant x = t \<and> Q x)" for x
      using sel by metis
    then show ?thesis unfolding tabOf_iff [OF inv] by auto
  qed
  ultimately show ?thesis using d' by (auto simp: distinct_map sorted_wrt_map inj_on_def)
qed

lemma list_tenant:
  assumes "sqlLaws db cn rows" "constraints (rows d)" "decodable scan cols (rows d tab)" "cnUuid cn t = t"
    and "\<forall>row r. scan (map row cols) = Inr r \<longrightarrow> row c = cell r"
    and "listRows db scan (Select cols tab [(''tenant_id'', 1)] (Some c)) [CText t] d = (Inr xs, d')"
  shows "rows d' = rows d \<and> listed cn ident cell xs {r. \<exists>i. tabOf (rows d tab) t i = Some r}"
proof -
  have "matches cn [CText t] [(''tenant_id'', 1)] row \<longleftrightarrow> tenant r = t \<and> True" if "scan (map row cols) = Inr r" for row r
    using scan_tenant [OF that] assms(4) by (auto simp: matches_def canon_def argAt_def uuidCols_def)
  then show ?thesis
    using list_reads [where rows = rows and tab = tab and d = d and c = c and cell = cell and Q = "\<lambda>_. True", OF assms(1-3,5) _ assms(6), of t]
    by (simp add: listed_def)
qed

end

section \<open>A database that satisfies the laws\<close>

type_synonym listDB = "string \<Rightarrow> row list"

definition cellKey :: "cell \<Rightarrow> int" where
  "cellKey c = (case c of CTime t \<Rightarrow> t | _ \<Rightarrow> 0)"

definition demoCanon :: Canon where
  "demoCanon = \<lparr>cnUuid = (\<lambda>u. u), cnTime = (\<lambda>t. t div 1000 * 1000), cnJson = (\<lambda>j. j), cnLe = (\<lambda>a b. cellKey a \<le> cellKey b)\<rparr>"

definition keysOk :: "string \<Rightarrow> row list \<Rightarrow> bool" where
  "keysOk tab rs \<longleftrightarrow> distinct (map (\<lambda>r. r ''id'') rs)
     \<and> (tab = ''users'' \<longrightarrow> distinct (map (\<lambda>r. (r ''tenant_id'', r ''username'')) rs))"

definition insertedRow :: "string list \<Rightarrow> nat list \<Rightarrow> cell list \<Rightarrow> row" where
  "insertedRow cols phs args c = (case map_of (zip cols phs) c of Some k \<Rightarrow> canon demoCanon c (argAt args k) | None \<Rightarrow> CNull)"

fun demoExec :: "sql \<Rightarrow> cell list \<Rightarrow> listDB \<Rightarrow> (string, nat) result \<times> listDB" where
  "demoExec (Select cols tab cond ord) args d = (Inr 0, d)"
| "demoExec (Insert tab cols phs) args d =
     (let rs = insertedRow cols phs args # d tab
      in if distinct cols \<and> length cols = length phs \<and> keysOk tab rs then (Inr 1, d(tab := rs)) else (Inl ''constraint violation'', d))"
| "demoExec (Update tab sets cond) args d =
     (let rs = map (\<lambda>r. if matches demoCanon args cond r then setCols demoCanon args sets r else r) (d tab)
      in if keysOk tab rs then (Inr (length (filter (matches demoCanon args cond) (d tab))), d(tab := rs)) else (Inl ''constraint violation'', d))"
| "demoExec (DeleteFrom tab cond) args d =
     (let gone = filter (matches demoCanon args cond) (d tab)
      in (Inr (length gone), (\<lambda>t. filter (\<lambda>r. \<not> (t = tab \<and> matches demoCanon args cond r) \<and> \<not> orphaned tab (mset gone) t r) (d t))))"

fun demoQuery :: "sql \<Rightarrow> cell list \<Rightarrow> listDB \<Rightarrow> (string, cell list list \<times> string option) result \<times> listDB" where
  "demoQuery (Select cols tab cond ord) args d =
     (let rs = filter (matches demoCanon args cond) (d tab)
      in (Inr (map (\<lambda>r. map r cols) (case ord of None \<Rightarrow> rs | Some c \<Rightarrow> sort_key (\<lambda>r. cellKey (r c)) rs), None), d))"
| "demoQuery q args d = (Inl ''not a query'', d)"

definition demoDB :: "listDB DB" where
  "demoDB = \<lparr>dbExec = demoExec, dbQuery = demoQuery\<rparr>"

definition demoRows :: "listDB \<Rightarrow> tables" where
  "demoRows d = (\<lambda>t. mset (d t))"

lemma demo_keys:
  assumes "constraints (demoRows d)" "keysOk tab rs"
  shows "constraints (demoRows (d(tab := rs)))"
  using assms by (auto simp: constraints_def demoRows_def keysOk_def uniqueOn_mset)

lemma demo_row: "distinct cols \<Longrightarrow> length cols = length phs \<Longrightarrow>
    list_all2 (\<lambda>c k. insertedRow cols phs args c = canon demoCanon c (argAt args k)) cols phs"
  by (auto simp: insertedRow_def list_all2_conv_all_nth map_of_zip_nth)

lemma demo_upd: "demoRows (d(tab := rs)) = (demoRows d)(tab := mset rs)"
  by (auto simp: demoRows_def)

lemma demo_effect:
  assumes "constraints (demoRows d)" "demoExec q args d = (res, d')"
  shows "case res of Inl e \<Rightarrow> d' = d | Inr n \<Rightarrow> sqlEffect demoCanon q args (demoRows d) n (demoRows d')"
proof (cases q)
  case (Select cols tab cond ord)
  with assms show ?thesis by auto
next
  case (Insert tab cols phs)
  let ?r = "insertedRow cols phs args"
  show ?thesis
  proof (cases "distinct cols \<and> length cols = length phs \<and> keysOk tab (?r # d tab)")
    case True
    then have "constraints ((demoRows d)(tab := add_mset ?r (demoRows d tab)))"
      using demo_keys [OF assms(1), of tab "?r # d tab"] by (simp add: demo_upd) (simp add: demoRows_def)
    with True demo_row [of cols phs args] have "sqlEffect demoCanon q args (demoRows d) 1 (demoRows (d(tab := ?r # d tab)))"
      unfolding Insert demo_upd by (auto simp: demoRows_def)
    then show ?thesis using True assms(2) Insert by auto
  next
    case False
    then show ?thesis using assms(2) Insert by auto
  qed
next
  case (Update tab sets cond)
  let ?rs = "map (\<lambda>r. if matches demoCanon args cond r then setCols demoCanon args sets r else r) (d tab)"
  show ?thesis
  proof (cases "keysOk tab ?rs")
    case True
    have "size (filter_mset (matches demoCanon args cond) (mset (d tab))) = length (filter (matches demoCanon args cond) (d tab))"
      by (simp flip: mset_filter)
    then have "sqlEffect demoCanon q args (demoRows d) (length (filter (matches demoCanon args cond) (d tab))) (demoRows (d(tab := ?rs)))"
      using demo_keys [OF assms(1) True] unfolding Update sqlEffect.simps by (simp add: demo_upd) (simp add: demoRows_def)
    then show ?thesis using True assms(2) Update by auto
  next
    case False
    then show ?thesis using assms(2) Update by auto
  qed
next
  case (DeleteFrom tab cond)
  have "size (filter_mset (matches demoCanon args cond) (mset (d tab))) = length (filter (matches demoCanon args cond) (d tab))"
    by (simp flip: mset_filter)
  then show ?thesis using assms(2) DeleteFrom by (auto simp: demoRows_def Let_def)
qed

lemma demoDB_laws: "sqlLaws demoDB demoCanon demoRows"
proof -
  have 1: "demoRows (snd (demoQuery q args d)) = demoRows d" for q args d by (cases q) (simp_all add: Let_def)
  have 2: "\<exists>ms. mset ms = filter_mset (matches demoCanon args cond) (demoRows d tab) \<and> rs = map (\<lambda>r. map r cols) ms
      \<and> (case ord of None \<Rightarrow> True | Some c \<Rightarrow> sorted_wrt (\<lambda>r r'. cnLe demoCanon (r c) (r' c)) ms)"
    if "demoQuery (Select cols tab cond ord) args d = (Inr (rs, None), d')" for cols tab cond ord args d rs d'
  proof -
    let ?ms = "filter (matches demoCanon args cond) (d tab)"
    have "sorted_wrt (\<lambda>r r'. cellKey (r c) \<le> cellKey (r' c)) (sort_key (\<lambda>r. cellKey (r c)) ?ms)" for c
      using sorted_sort_key [of "\<lambda>r. cellKey (r c)" ?ms] by (simp add: sorted_map)
    then show ?thesis
      using that by (intro exI [of _ "case ord of None \<Rightarrow> ?ms | Some c \<Rightarrow> sort_key (\<lambda>r. cellKey (r c)) ?ms"])
        (auto simp: demoRows_def demoCanon_def Let_def split: option.splits)
  qed
  have 3: "sqlEffect demoCanon q args (demoRows d) n (demoRows d')" if "constraints (demoRows d)" "demoExec q args d = (Inr n, d')" for q args d n d'
    using demo_effect [OF that] by simp
  have 4: "demoRows d' = demoRows d" if "constraints (demoRows d)" "demoExec q args d = (Inl e, d')" for q args d e d'
    using demo_effect [OF that] by simp
  show ?thesis unfolding sqlLaws_def demoDB_def DB.simps
    by (intro conjI allI impI; (elim conjE)?) (rule 1, erule 2, erule (1) 3, rule disjI1, erule (1) 4)
qed

section \<open>Users by name\<close>

lemma userName_reads:
  assumes "sqlLaws db cn rows" "pgInv cd (rows d)" "cnUuid cn t = t"
  shows "\<exists>found. (\<forall>u. found = Some u \<longleftrightarrow> (\<exists>j. aUsers (pgAbs cd (rows d)) t j = Some u \<and> usUsername u = name))
    \<and> reads (fst (pg_GetUserByUsername db t name d)) found"
proof -
  let ?M = "rows d ''users''"
  let ?P = "\<lambda>row. row ''tenant_id'' = CText t \<and> row ''username'' = CText name"
  note D = pgInvD [OF assms(2)]
  note iff = pg_users.tabOf_iff [OF conjI [OF constraints_id [OF D(1)] D(7)]]
  have row: "scanUser (map row userCols) = Inr u \<Longrightarrow> row ''username'' = CText (usUsername u) \<and> row ''tenant_id'' = CText (usTenantID u)" for row u
    by (auto simp: user_row row_defs bind_res_Inr_iff split: cell.splits)
  have w: "matches cn [CText t, CText name] [(''tenant_id'', 1), (''username'', 2)] r \<longleftrightarrow> ?P r" for r
    using assms(3) by (auto simp: matches_def canon_def argAt_def uuidCols_def)
  have same: "x = y" if "x \<in># ?M" "y \<in># ?M" "?P x" "?P y" for x y
    using uniqueOn_eq [of "\<lambda>r. (r ''tenant_id'', r ''username'')" ?M x y] D(1) that by (simp add: constraints_def)
  have ex: "(\<exists>j. aUsers (pgAbs cd (rows d)) t j = Some u \<and> usUsername u = name) \<longleftrightarrow> (\<exists>x \<in># ?M. ?P x \<and> scanUser (map x userCols) = Inr u)" for u
    unfolding pgAbs_sel iff using row by fastforce
  define found where "found = (if \<exists>x \<in># ?M. ?P x then Some (THE u. \<exists>x \<in># ?M. ?P x \<and> scanUser (map x userCols) = Inr u) else None)"
  have f: "found = Some u \<longleftrightarrow> (\<exists>x \<in># ?M. ?P x \<and> scanUser (map x userCols) = Inr u)" for u
  proof (cases "\<exists>x \<in># ?M. ?P x")
    case True
    then obtain x where x: "x \<in># ?M" "?P x" by blast
    then obtain v where v: "scanUser (map x userCols) = Inr v" using D(7) by (auto simp: decodable_def)
    have "(\<exists>x \<in># ?M. ?P x \<and> scanUser (map x userCols) = Inr u') \<longleftrightarrow> u' = v" for u'
      using x v same by (metis sum.inject(2))
    then show ?thesis using True by (auto simp: found_def)
  next
    case False
    then show ?thesis by (auto simp: found_def)
  qed
  have "reads (fst (pg_GetUserByUsername db t name d)) found"
    unfolding pg_GetUserByUsername_def
  proof (rule conjunct1 [OF getRow_reads [OF assms(1)]])
    show "found = Some r" if "x \<in># ?M" "matches cn [CText t, CText name] [(''tenant_id'', 1), (''username'', 2)] x" "scanUser (map x userCols) = Inr r" for x r
      using that unfolding f w by blast
    show "found = None" if "filter_mset (matches cn [CText t, CText name] [(''tenant_id'', 1), (''username'', 2)]) ?M = {#}"
      using that unfolding filter_mset_eq_mempty_iff w by (auto simp: found_def)
  qed
  with f ex show ?thesis by blast
qed

lemma sort_columns:
  "\<forall>row r. scanAgent cd (map row agentCols) = Inr r \<longrightarrow> row ''name'' = CText (agName r)"
  "\<forall>row r. scanMcpServer (map row serverCols) = Inr r \<longrightarrow> row ''name'' = CText (msvName r)"
  "\<forall>row r. scanFlow cd (map row flowCols) = Inr r \<longrightarrow> row ''name'' = CText (flName r)"
  "\<forall>row r. scanTask cd (map row taskCols) = Inr r \<longrightarrow> row ''created_at'' = CTime (taCreatedAt r)"
  "\<forall>row r. scanUser (map row userCols) = Inr r \<longrightarrow> row ''username'' = CText (usUsername r)"
  subgoal by (auto simp: agent_row row_defs bind_res_Inr_iff split: cell.splits)
  subgoal by (auto simp: server_row row_defs bind_res_Inr_iff split: cell.splits)
  subgoal by (auto simp: flow_row row_defs bind_res_Inr_iff split: cell.splits)
  subgoal by (auto simp: task_row row_defs bind_res_Inr_iff split: cell.splits)
  subgoal by (auto simp: user_row row_defs bind_res_Inr_iff split: cell.splits)
  done

lemma runs_listed:
  assumes "sqlLaws db cn rows" "constraints (rows d)" "decodable (scanRun cd) runCols (rows d ''runs'')" "cnUuid cn t = t" "f = '''' \<or> uuidOk cn f"
    and l: "pg_ListRuns db cd t f d = (Inr rs, d')"
  shows "rows d' = rows d \<and> listed cn ruID (\<lambda>r. CTime (ruStartedAt r)) rs
    {r. \<exists>i. pg_runs.tabOf cd (rows d ''runs'') t i = Some r \<and> (f = '''' \<or> ruFlowID r = f)}"
proof -
  define as where "as = (if f \<noteq> '''' then [CText t, CText f] else [CText t])"
  define cnd :: "(string \<times> nat) list" where "cnd = (if f \<noteq> '''' then [(''tenant_id'', 1), (''flow_id'', 2)] else [(''tenant_id'', 1)])"
  have row: "scanRun cd (map row runCols) = Inr r \<Longrightarrow> row ''started_at'' = CTime (ruStartedAt r) \<and> row ''flow_id'' = CText (ruFlowID r)" for row r
    by (auto simp: run_row row_defs bind_res_Inr_iff split: cell.splits)
  then have key: "\<forall>row r. scanRun cd (map row runCols) = Inr r \<longrightarrow> row ''started_at'' = CTime (ruStartedAt r)" by blast
  have w: "matches cn as cnd row \<longleftrightarrow> row ''tenant_id'' = CText t \<and> (f = '''' \<or> row ''flow_id'' = CText f)" for row
    using assms(4,5) by (cases "f = ''''") (auto simp: as_def cnd_def matches_def canon_def argAt_def uuidCols_def uuidOk_def)
  have "matches cn as cnd row \<longleftrightarrow> ruTenantID r = t \<and> (f = '''' \<or> ruFlowID r = f)" if "scanRun cd (map row runCols) = Inr r" for row r
    using row [OF that] pg_runs.scan_tenant [OF that] by (simp add: w)
  then have sel: "\<forall>row r. scanRun cd (map row runCols) = Inr r \<longrightarrow> (matches cn as cnd row \<longleftrightarrow> ruTenantID r = t \<and> (f = '''' \<or> ruFlowID r = f))" by blast
  have q: "listRows db (scanRun cd) (Select runCols ''runs'' cnd (Some ''started_at'')) as d = (Inr rs, d')"
    using l by (auto simp: pg_ListRuns_def as_def cnd_def)
  show ?thesis
    using pg_runs.list_reads [where rows = rows and tab = "''runs''" and d = d and c = "''started_at''" and cell = "\<lambda>r. CTime (ruStartedAt r)",
        OF assms(1-3) key sel q]
    by (simp add: listed_def)
qed

section \<open>Properties\<close>


definition demoCodec :: Codec where
  "demoCodec = \<lparr>cdSkills = (\<lambda>_. ''[]''), cdUnSkills = (\<lambda>_. Inr []), cdPermissions = (\<lambda>_. ''{}''),
     cdUnPermissions = (\<lambda>_. Inr \<lparr>fpResources = [], fpFiles = [], fpDatabases = []\<rparr>), cdLogs = (\<lambda>_. ''[]''), cdUnLogs = (\<lambda>_. Inr []),
     cdSubtasks = (\<lambda>_. ''[]''), cdUnSubtasks = (\<lambda>_. Inr [])\<rparr>"

lemma demo_empty: "pgInv demoCodec (demoRows (\<lambda>_. []))"
  by (simp add: pgInv_def demoRows_def constraints_def uniqueOn_def decodable_def)

lemma demo_create:
  "fst (pg_step demoDB demoCodec (OpCreateUser (sampleUser ''u1'' ''ann'')) (\<lambda>_. [])) = Inr ()"
  by (simp add: pg_CreateUser_def execInsert_def demoDB_def keysOk_def userCols_def)

definition demoOne :: listDB where
  "demoOne = snd (pg_step demoDB demoCodec (OpCreateUser (sampleUser ''u1'' ''ann'')) (\<lambda>_. []))"

lemma demoOne_step: "pg_step demoDB demoCodec (OpCreateUser (sampleUser ''u1'' ''ann'')) (\<lambda>_. []) = (Inr (), demoOne)"
  using demo_create by (simp add: demoOne_def prod_eq_iff)

lemma demoOne_inv: "pgInv demoCodec (demoRows demoOne)"
  using step_simulated [OF demoDB_laws demo_empty _ demoOne_step]
  by (simp add: simulated_def userOk_def uuidOk_def demoCanon_def sampleUser_def)


text \<open>Looking up a resource by tenant and id returns what the tables hold there, \<open>ErrNotFound\<close> when they hold nothing, or an error of the database, and
  changes nothing; looking up a user by name finds the only user of the tenant with that name.\<close>

theorem pg_gets:
  assumes "sqlLaws db cn rows" "pgInv cd (rows d)" "uuidOk cn t" "uuidOk cn i"
  shows "reads (fst (pg_GetAgent db cd t i d)) (aAgents (pgAbs cd (rows d)) t i)
    \<and> reads (fst (pg_GetMcpServer db t i d)) (aMcpServers (pgAbs cd (rows d)) t i)
    \<and> reads (fst (pg_GetFlow db cd t i d)) (aFlows (pgAbs cd (rows d)) t i)
    \<and> reads (fst (pg_GetRun db cd t i d)) (aRuns (pgAbs cd (rows d)) t i)
    \<and> reads (fst (pg_GetTask db cd t i d)) (aTasks (pgAbs cd (rows d)) t i)
    \<and> reads (fst (pg_GetUser db t i d)) (aUsers (pgAbs cd (rows d)) t i)
    \<and> reads (fst (pg_GetTenant db i d)) (aTenants (pgAbs cd (rows d)) i)
    \<and> (\<exists>found. (\<forall>u. found = Some u \<longleftrightarrow> (\<exists>j. aUsers (pgAbs cd (rows d)) t j = Some u \<and> usUsername u = name))
         \<and> reads (fst (pg_GetUserByUsername db t name d)) found)"
proof -
  note D = pgInvD [OF assms(2)]
  have u: "cnUuid cn t = t" "cnUuid cn i = i" using assms(3,4) by (simp_all add: uuidOk_def)
  note G = pg_agents.get_reads [where tab = "''agents''" and d = d, OF assms(1) D(1,2) u] pg_mcp_servers.get_reads [where tab = "''mcp_servers''" and d = d, OF assms(1) D(1,3) u]
    pg_flows.get_reads [where tab = "''flows''" and d = d, OF assms(1) D(1,4) u] pg_runs.get_reads [where tab = "''runs''" and d = d, OF assms(1) D(1,5) u] pg_tasks.get_reads [where tab = "''tasks''" and d = d, OF assms(1) D(1,6) u]
    pg_users.get_reads [where tab = "''users''" and d = d, OF assms(1) D(1,7) u]
  note get_defs = pg_GetAgent_def pg_GetMcpServer_def pg_GetFlow_def pg_GetRun_def pg_GetTask_def pg_GetUser_def
  have "reads (fst (pg_GetTenant db i d)) (aTenants (pgAbs cd (rows d)) i)"
    unfolding pg_GetTenant_def pgAbs_sel
  proof (rule conjunct1 [OF getRow_reads [OF assms(1)]])
    note iff = pg_tenants.tabOf_iff [OF conjI [OF constraints_id [OF D(1)] D(8)], of "''''" i]
    have w: "matches cn [CText i] [(''id'', 1)] row \<longleftrightarrow> row ''id'' = CText i" for row
      using u by (auto simp: matches_def canon_def argAt_def uuidCols_def)
    show "pg_tenants.tabOf (rows d ''tenants'') '''' i = Some r"
      if "row \<in># rows d ''tenants''" "matches cn [CText i] [(''id'', 1)] row" "scanTenant (map row tenantCols) = Inr r" for row r
      using that pg_tenants.scan_id [OF that(3)] unfolding iff w by auto
    show "pg_tenants.tabOf (rows d ''tenants'') '''' i = None" if "filter_mset (matches cn [CText i] [(''id'', 1)]) (rows d ''tenants'') = {#}"
      using that pg_tenants.scan_id iff unfolding filter_mset_eq_mempty_iff w by (metis not_None_eq)
  qed
  moreover note userName_reads [OF assms(1,2) u(1), of name]
  ultimately show ?thesis using G by (simp add: get_defs)
qed

theorem pg_gets_witness:
  "fst (pg_GetUser demoDB ''t1'' ''u1'' demoOne) = Inr (sampleUser ''u1'' ''ann'')
   \<and> aUsers (pgAbs demoCodec (demoRows demoOne)) ''t1'' ''u1'' = Some (sampleUser ''u1'' ''ann'')"
proof -
  have g: "fst (pg_GetUser demoDB ''t1'' ''u1'' demoOne) = Inr (sampleUser ''u1'' ''ann'')"
    by (simp add: pg_GetUser_def getRow_def queryRow_def demoDB_def demoOne_def pg_CreateUser_def execInsert_def user_row row_defs keysOk_def insertedRow_def
        demoCanon_def sampleUser_def)
  have "uuidOk demoCanon ''t1''" "uuidOk demoCanon ''u1''" by (simp_all add: uuidOk_def demoCanon_def)
  from pg_gets [where rows = demoRows and d = demoOne, OF demoDB_laws demoOne_inv this] have "reads (fst (pg_GetUser demoDB ''t1'' ''u1'' demoOne)) (aUsers (pgAbs demoCodec (demoRows demoOne)) ''t1'' ''u1'')"
    by blast
  with g show ?thesis by (simp add: reads_def del: pgAbs_sel)
qed

text \<open>C18: A listing that succeeds holds every resource of the tenant once and nothing else, in the order of the database on the sort column; the listing
  of runs can be restricted to a flow. Nothing changes.\<close>

theorem pg_lists:
  assumes "sqlLaws db cn rows" "pgInv cd (rows d)" "uuidOk cn t" "f = '''' \<or> uuidOk cn f"
  shows "(pg_ListAgents db cd t d = (Inr as, d1) \<longrightarrow> rows d1 = rows d
        \<and> listed cn agID (\<lambda>r. CText (agName r)) as {r. \<exists>i. aAgents (pgAbs cd (rows d)) t i = Some r})
    \<and> (pg_ListMcpServers db t d = (Inr ms, d2) \<longrightarrow> rows d2 = rows d
        \<and> listed cn msvID (\<lambda>r. CText (msvName r)) ms {r. \<exists>i. aMcpServers (pgAbs cd (rows d)) t i = Some r})
    \<and> (pg_ListFlows db cd t d = (Inr fs, d3) \<longrightarrow> rows d3 = rows d
        \<and> listed cn flID (\<lambda>r. CText (flName r)) fs {r. \<exists>i. aFlows (pgAbs cd (rows d)) t i = Some r})
    \<and> (pg_ListRuns db cd t f d = (Inr rs, d4) \<longrightarrow> rows d4 = rows d
        \<and> listed cn ruID (\<lambda>r. CTime (ruStartedAt r)) rs {r. \<exists>i. aRuns (pgAbs cd (rows d)) t i = Some r \<and> (f = '''' \<or> ruFlowID r = f)})
    \<and> (pg_ListTasks db cd t d = (Inr ts, d5) \<longrightarrow> rows d5 = rows d
        \<and> listed cn taID (\<lambda>r. CTime (taCreatedAt r)) ts {r. \<exists>i. aTasks (pgAbs cd (rows d)) t i = Some r})
    \<and> (pg_ListUsers db t d = (Inr us, d6) \<longrightarrow> rows d6 = rows d
        \<and> listed cn usID (\<lambda>r. CText (usUsername r)) us {r. \<exists>i. aUsers (pgAbs cd (rows d)) t i = Some r})"
proof -
  note D = pgInvD [OF assms(2)]
  have u: "cnUuid cn t = t" using assms(3) by (simp add: uuidOk_def)
  have "rows d1 = rows d \<and> listed cn agID (\<lambda>r. CText (agName r)) as {r. \<exists>i. aAgents (pgAbs cd (rows d)) t i = Some r}"
    if "pg_ListAgents db cd t d = (Inr as, d1)"
    using pg_agents.list_tenant [where rows = rows and tab = "''agents''" and d = d and c = "''name''", OF assms(1) D(1,2) u sort_columns(1) that [unfolded pg_ListAgents_def]] by simp
  moreover
  have "rows d2 = rows d \<and> listed cn msvID (\<lambda>r. CText (msvName r)) ms {r. \<exists>i. aMcpServers (pgAbs cd (rows d)) t i = Some r}"
    if "pg_ListMcpServers db t d = (Inr ms, d2)"
    using pg_mcp_servers.list_tenant [where rows = rows and tab = "''mcp_servers''" and d = d and c = "''name''", OF assms(1) D(1,3) u sort_columns(2) that [unfolded pg_ListMcpServers_def]] by simp
  moreover
  have "rows d3 = rows d \<and> listed cn flID (\<lambda>r. CText (flName r)) fs {r. \<exists>i. aFlows (pgAbs cd (rows d)) t i = Some r}"
    if "pg_ListFlows db cd t d = (Inr fs, d3)"
    using pg_flows.list_tenant [where rows = rows and tab = "''flows''" and d = d and c = "''name''", OF assms(1) D(1,4) u sort_columns(3) that [unfolded pg_ListFlows_def]] by simp
  moreover
  have "rows d5 = rows d \<and> listed cn taID (\<lambda>r. CTime (taCreatedAt r)) ts {r. \<exists>i. aTasks (pgAbs cd (rows d)) t i = Some r}"
    if "pg_ListTasks db cd t d = (Inr ts, d5)"
    using pg_tasks.list_tenant [where rows = rows and tab = "''tasks''" and d = d and c = "''created_at''", OF assms(1) D(1,6) u sort_columns(4) that [unfolded pg_ListTasks_def]] by simp
  moreover
  have "rows d6 = rows d \<and> listed cn usID (\<lambda>r. CText (usUsername r)) us {r. \<exists>i. aUsers (pgAbs cd (rows d)) t i = Some r}"
    if "pg_ListUsers db t d = (Inr us, d6)"
    using pg_users.list_tenant [where rows = rows and tab = "''users''" and d = d and c = "''username''", OF assms(1) D(1,7) u sort_columns(5) that [unfolded pg_ListUsers_def]] by simp
  moreover
  note runs_listed [OF assms(1) D(1,5) u assms(4), of rs d4]
  ultimately show ?thesis by (simp only: pgAbs_sel) blast
qed

theorem pg_lists_witness:
  "pg_ListUsers demoDB ''t1'' demoOne = (Inr [sampleUser ''u1'' ''ann''], demoOne)
   \<and> {r. \<exists>i. aUsers (pgAbs demoCodec (demoRows demoOne)) ''t1'' i = Some r} = {sampleUser ''u1'' ''ann''}"
proof -
  have g: "pg_ListUsers demoDB ''t1'' demoOne = (Inr [sampleUser ''u1'' ''ann''], demoOne)"
    by (simp add: pg_ListUsers_def listRows_def demoDB_def demoOne_def pg_CreateUser_def execInsert_def user_row row_defs keysOk_def insertedRow_def
        demoCanon_def sampleUser_def)
  have "uuidOk demoCanon ''t1''" "'''' = '''' \<or> uuidOk demoCanon ''''" by (simp_all add: uuidOk_def demoCanon_def)
  from pg_lists [where rows = demoRows and d = demoOne, OF demoDB_laws demoOne_inv this]
  have "listed demoCanon usID (\<lambda>r. CText (usUsername r)) [sampleUser ''u1'' ''ann''] {r. \<exists>i. aUsers (pgAbs demoCodec (demoRows demoOne)) ''t1'' i = Some r}"
    using g by blast
  then have "set [sampleUser ''u1'' ''ann''] = {r. \<exists>i. aUsers (pgAbs demoCodec (demoRows demoOne)) ''t1'' i = Some r}"
    unfolding listed_def by blast
  with g show ?thesis by (simp del: pgAbs_sel)
qed


end
