(* ===== verification/Configuration.thy ===== *)
theory Configuration
  imports Expr_Lexer Orchestrator
begin

text \<open>
  The configuration of the hub (\<open>internal/config/config.go\<close>) with the parsers of the standard library that it uses (\<open>strconv.Atoi\<close>,
  \<open>strconv.ParseBool\<close>, \<open>time.ParseDuration\<close>) and the options of the orchestrator (\<open>New\<close>, \<open>WithWorkers\<close>, \<open>WithTimeout\<close>).

  The environment is a partial function. A duration is its nanoseconds, an \<open>int64\<close>; that every value \<open>Load\<close> returns is one is a theorem.
\<close>

section \<open>Configuration\<close>

abbreviation "maxInt64 \<equiv> (2 ^ 63 - 1 :: int)"

definition Atoi :: "string \<Rightarrow> int option" where
  "Atoi s =
     (let signed = (take 1 s = ''-'' \<or> take 1 s = ''+''); body = (if signed then drop 1 s else s);
          v = (if take 1 s = ''-'' then - digits_val body else digits_val body)
      in if body \<noteq> [] \<and> list_all isDigit body \<and> - (2 ^ 63) \<le> v \<and> v \<le> maxInt64 then Some v else None)"

definition ParseBool :: "string \<Rightarrow> bool option" where
  "ParseBool s =
     (if s \<in> set [''1'', ''t'', ''T'', ''true'', ''TRUE'', ''True''] then Some True
      else if s \<in> set [''0'', ''f'', ''F'', ''false'', ''FALSE'', ''False''] then Some False
      else None)"

text \<open>\<open>time.ParseDuration\<close>: numbers with units, \<open>leadingInt\<close> and \<open>leadingFraction\<close>; the fraction is scaled in float64.\<close>

fun leadingInt :: "string \<Rightarrow> int \<Rightarrow> (int \<times> string) option" where
  "leadingInt [] x = Some (x, [])"
| "leadingInt (c # s) x =
     (if \<not> isDigit c then Some (x, c # s)
      else if 2 ^ 63 div 10 < x then None
      else let x' = x * 10 + digit_val c in if 2 ^ 63 < x' then None else leadingInt s x')"

fun leadingFraction :: "string \<Rightarrow> int \<Rightarrow> int \<Rightarrow> bool \<Rightarrow> int \<times> int \<times> string" where
  "leadingFraction [] x scale overflow = (x, scale, [])"
| "leadingFraction (c # s) x scale overflow =
     (if \<not> isDigit c then (x, scale, c # s)
      else if overflow \<or> maxInt64 div 10 < x then leadingFraction s x scale True
      else let y = x * 10 + digit_val c
           in if 2 ^ 63 < y then leadingFraction s x scale True else leadingFraction s y (scale * 10) overflow)"

definition unitOf :: "string \<Rightarrow> int option" where
  "unitOf u = map_of [(''ns'', 1), (''us'', 10 ^ 3), (map char_of [0xC2, 0xB5, 0x73 :: nat], 10 ^ 3), (map char_of [0xCE, 0xBC, 0x73 :: nat], 10 ^ 3), (''ms'', 10 ^ 6),
     (''s'', 10 ^ 9), (''m'', 60 * 10 ^ 9), (''h'', 3600 * 10 ^ 9)] u"

definition f64_rat :: "float64 \<Rightarrow> rat" where
  "f64_rat x = (case x of Fin q \<Rightarrow> q | _ \<Rightarrow> 0)"

definition round_rat :: "rat \<Rightarrow> float64" where
  "round_rat q = (let (n, d) = quotient_of q in round64 False n d)"

definition scaledFraction :: "int \<Rightarrow> int \<Rightarrow> int \<Rightarrow> int" where
  "scaledFraction f unit scale =
     \<lfloor>f64_rat (round_rat (f64_rat (float64_of_int f) * f64_rat (round_rat (f64_rat (float64_of_int unit) / f64_rat (float64_of_int scale)))))\<rfloor>"

definition numberPart :: "char \<Rightarrow> bool" where
  "numberPart c \<longleftrightarrow> c = CHR ''.'' \<or> isDigit c"

text \<open>One number with its unit: the nanoseconds and the rest.\<close>

definition durationTerm :: "string \<Rightarrow> (int \<times> string) option" where
  "durationTerm s = (if s = [] \<or> \<not> numberPart (hd s) then None else
     (case leadingInt s 0 of
        None \<Rightarrow> None
      | Some (v, s1) \<Rightarrow>
          (let pre = (length s1 \<noteq> length s);
               (f, scale, s2) = (if s1 \<noteq> [] \<and> hd s1 = CHR ''.'' then leadingFraction (tl s1) 0 1 False else (0, 1, s1));
               post = (s1 \<noteq> [] \<and> hd s1 = CHR ''.'' \<and> length s2 \<noteq> length (tl s1));
               u = takeWhile (\<lambda>c. \<not> numberPart c) s2; rest = dropWhile (\<lambda>c. \<not> numberPart c) s2
           in if \<not> pre \<and> \<not> post \<or> u = [] then None
              else (case unitOf u of
                 None \<Rightarrow> None
               | Some unit \<Rightarrow>
                   (if 2 ^ 63 div unit < v then None
                    else let v' = v * unit + (if 0 < f then scaledFraction f unit scale else 0)
                         in if 2 ^ 63 < v' then None else Some (v', rest))))))"

lemma leadingInt_length: "leadingInt s x = Some (v, s') \<Longrightarrow> length s' \<le> length s"
  by (induction s x arbitrary: v s' rule: leadingInt.induct) (auto simp: Let_def split: if_splits intro: le_SucI)

lemma leadingFraction_length: "leadingFraction s x scale ov = (f, sc, s') \<Longrightarrow> length s' \<le> length s"
  by (induction s x scale ov arbitrary: f sc s' rule: leadingFraction.induct) (auto simp: Let_def split: if_splits intro: le_SucI)

lemma durationTerm_shorter:
  assumes "durationTerm s = Some (v, rest)"
  shows "length rest < length s"
proof -
  obtain n s1 where l: "leadingInt s 0 = Some (n, s1)"
    using assms by (auto simp: durationTerm_def split: if_splits option.splits)
  obtain f scale s2 where f: "(if s1 \<noteq> [] \<and> hd s1 = CHR ''.'' then leadingFraction (tl s1) 0 1 False else (0, 1, s1)) = (f, scale, s2)"
    by (metis prod.exhaust)
  have s2: "length s2 \<le> length s1"
    using f leadingFraction_length [of "tl s1" 0 1 False] by (cases s1) (auto split: if_splits intro: le_SucI)
  have "rest = dropWhile (\<lambda>c. \<not> numberPart c) s2" "takeWhile (\<lambda>c. \<not> numberPart c) s2 \<noteq> []"
    using assms l f unfolding durationTerm_def by (auto simp: Let_def split: if_splits option.splits)
  then have "length rest < length s2"
    by (metis append_self_conv2 length_append length_greater_0_conv less_add_same_cancel2 takeWhile_dropWhile_id)
  then show ?thesis using s2 leadingInt_length [OF l] by simp
qed

function durationLoop :: "string \<Rightarrow> int \<Rightarrow> int option" where
  "durationLoop s d = (if s = [] then Some d
     else (case durationTerm s of
         None \<Rightarrow> None
       | Some (v, rest) \<Rightarrow> if 2 ^ 63 < d + v then None else durationLoop rest (d + v)))"
  by pat_completeness auto
termination
  by (relation "measure (\<lambda>(s, d). length s)") (auto dest: durationTerm_shorter)

declare durationLoop.simps [simp del]

definition ParseDuration :: "string \<Rightarrow> int option" where
  "ParseDuration s =
     (let neg = (take 1 s = ''-''); body = (if take 1 s = ''-'' \<or> take 1 s = ''+'' then drop 1 s else s)
      in if body = ''0'' then Some 0
         else if body = '''' then None
         else (case durationLoop body 0 of
             None \<Rightarrow> None
           | Some d \<Rightarrow> if neg then Some (- d) else if maxInt64 < d then None else Some d))"

record Config =
  cfPort :: int
  cfHost :: string
  cfDatabaseURL :: string
  cfJWTSecret :: string
  cfJWTExpiry :: int
  cfLogLevel :: string
  cfSeedOwnerUsername :: string
  cfSeedOwnerPassword :: string
  cfUseMemoryStore :: bool
  cfTaskWorkerPool :: int
  cfTaskTimeout :: int
  cfDashboardHistoryCapacity :: int
  cfDashboardHistoryInterval :: int

type_synonym environ = "string \<Rightarrow> string option"

definition envStr :: "environ \<Rightarrow> string \<Rightarrow> string \<Rightarrow> string" where
  "envStr env key fallback = (case env key of Some v \<Rightarrow> if v \<noteq> '''' then v else fallback | None \<Rightarrow> fallback)"

definition envParsed :: "(string \<Rightarrow> 'a option) \<Rightarrow> environ \<Rightarrow> string \<Rightarrow> 'a \<Rightarrow> 'a" where
  "envParsed parse env key fallback = (case env key of
      Some v \<Rightarrow> if v \<noteq> '''' then (case parse v of Some n \<Rightarrow> n | None \<Rightarrow> fallback) else fallback
    | None \<Rightarrow> fallback)"

definition envInt :: "environ \<Rightarrow> string \<Rightarrow> int \<Rightarrow> int" where
  "envInt = envParsed Atoi"

definition envBool :: "environ \<Rightarrow> string \<Rightarrow> bool \<Rightarrow> bool" where
  "envBool = envParsed ParseBool"

definition envDuration :: "environ \<Rightarrow> string \<Rightarrow> int \<Rightarrow> int" where
  "envDuration = envParsed ParseDuration"

definition Load :: "environ \<Rightarrow> Config" where
  "Load env = \<lparr>cfPort = envInt env ''PORT'' 8080, cfHost = envStr env ''HOST'' ''0.0.0.0'', cfDatabaseURL = envStr env ''DATABASE_URL'' '''',
     cfJWTSecret = envStr env ''JWT_SECRET'' '''', cfJWTExpiry = envDuration env ''JWT_EXPIRY'' (24 * 3600 * 10 ^ 9),
     cfLogLevel = envStr env ''LOG_LEVEL'' ''info'', cfSeedOwnerUsername = envStr env ''SEED_OWNER_USERNAME'' ''admin'',
     cfSeedOwnerPassword = envStr env ''SEED_OWNER_PASSWORD'' ''admin'', cfUseMemoryStore = envBool env ''USE_MEMORY_STORE'' False,
     cfTaskWorkerPool = envInt env ''TASK_WORKER_POOL'' 4, cfTaskTimeout = envDuration env ''TASK_TIMEOUT'' (30 * 10 ^ 9),
     cfDashboardHistoryCapacity = envInt env ''DASHBOARD_HISTORY_CAPACITY'' 120,
     cfDashboardHistoryInterval = envDuration env ''DASHBOARD_HISTORY_INTERVAL'' (5 * 10 ^ 9)\<rparr>"

datatype config_error = BadPort int | MissingDatabaseURL | MissingJWTSecret

definition Config_Validate :: "Config \<Rightarrow> config_error option" where
  "Config_Validate c =
     (if cfPort c < 1 \<or> 65535 < cfPort c then Some (BadPort (cfPort c))
      else if cfUseMemoryStore c then None
      else if cfDatabaseURL c = '''' then Some MissingDatabaseURL
      else if cfJWTSecret c = '''' then Some MissingJWTSecret
      else None)"

text \<open>The options of the orchestrator: the number of workers and the timeout.\<close>

definition orchestrator_New :: "(int \<times> int \<Rightarrow> int \<times> int) list \<Rightarrow> int \<times> int" where
  "orchestrator_New opts = (case fold (\<lambda>opt. opt) opts (4, 30 * 10 ^ 9) of (workers, timeout) \<Rightarrow> (if workers < 1 then 1 else workers, timeout))"

definition WithWorkers :: "int \<Rightarrow> int \<times> int \<Rightarrow> int \<times> int" where
  "WithWorkers n o' = (n, snd o')"

definition WithTimeout :: "int \<Rightarrow> int \<times> int \<Rightarrow> int \<times> int" where
  "WithTimeout d o' = (fst o', d)"

section \<open>Parsing what was printed\<close>

lemma digit_val_nat: "digit_val c = int (of_char c) - 48"
  by (simp add: digit_val_def of_nat_of_char)

lemma digit_val_nonneg: "isDigit c \<Longrightarrow> 0 \<le> digit_val c"
  by (simp add: isDigit_def digit_val_nat)

lemma digit_char: "n < 10 \<Longrightarrow> isDigit (char_of (48 + n :: nat)) \<and> digit_val (char_of (48 + n :: nat)) = int n"
  by (simp add: isDigit_def digit_val_nat of_char_of)

lemma show_nat_digits: "list_all isDigit (show_nat n) \<and> show_nat n \<noteq> [] \<and> digits_val (show_nat n) = int n"
proof (induction n rule: show_nat.induct)
  case (1 n)
  show ?case
  proof (cases "n < 10")
    case True
    then show ?thesis using digit_char [of n] by (simp add: show_nat.simps [of n] digits_val_def)
  next
    case False
    then have "list_all isDigit (show_nat (n div 10)) \<and> digits_val (show_nat (n div 10)) = int (n div 10)" using 1 by simp
    moreover have "int n = 10 * int (n div 10) + int (n mod 10)" by presburger
    ultimately show ?thesis using False digit_char [of "n mod 10"] by (simp add: show_nat.simps [of n] digits_val_def)
  qed
qed

lemma digits_val_mono: "list_all isDigit ds \<Longrightarrow> 0 \<le> x \<Longrightarrow> x \<le> foldl (\<lambda>n c. 10 * n + digit_val c) x ds"
proof (induction ds arbitrary: x)
  case (Cons c ds)
  have "0 \<le> digit_val c" using Cons.prems by (simp add: digit_val_nonneg)
  then show ?case using Cons.IH [of "10 * x + digit_val c"] Cons.prems by simp
qed simp

lemma leadingInt_digits:
  assumes "list_all isDigit ds" "0 \<le> x" "foldl (\<lambda>n c. 10 * n + digit_val c) x ds \<le> 2 ^ 63" "rest = [] \<or> \<not> isDigit (hd rest)"
  shows "leadingInt (ds @ rest) x = Some (foldl (\<lambda>n c. 10 * n + digit_val c) x ds, rest)"
  using assms
proof (induction ds arbitrary: x)
  case Nil
  then show ?case by (cases rest) auto
next
  case (Cons c ds)
  have c: "0 \<le> digit_val c" using Cons.prems(1) by (simp add: digit_val_nonneg)
  then have le: "10 * x + digit_val c \<le> 2 ^ 63"
    using digits_val_mono [of ds "10 * x + digit_val c"] Cons.prems by simp
  then have "x \<le> 2 ^ 63 div 10" using c by simp
  then show ?case using Cons c le by (simp add: algebra_simps)
qed

definition showInt :: "int \<Rightarrow> string" where
  "showInt n = (if n < 0 then ''-'' @ show_nat (nat (- n)) else show_nat (nat n))"

lemma digit_not_sign: "isDigit c \<Longrightarrow> c \<noteq> CHR ''-'' \<and> c \<noteq> CHR ''+''"
  by (auto simp: isDigit_def)

lemma Atoi_showInt:
  assumes "- (2 ^ 63) \<le> n" "n \<le> maxInt64"
  shows "Atoi (showInt n) = Some n"
proof (cases "n < 0")
  case True
  then show ?thesis using assms show_nat_digits [of "nat (- n)"] by (simp add: Atoi_def showInt_def Let_def)
next
  case False
  obtain c cs where s: "show_nat (nat n) = c # cs" using show_nat_digits [of "nat n"] by (cases "show_nat (nat n)") auto
  then have "isDigit c" using show_nat_digits [of "nat n"] by simp
  then show ?thesis using False assms show_nat_digits [of "nat n"] s digit_not_sign [of c] by (auto simp: Atoi_def showInt_def Let_def)
qed

lemma ParseDuration_seconds:
  assumes "0 \<le> n" "n * 10 ^ 9 \<le> maxInt64"
  shows "ParseDuration (showInt n @ ''s'') = Some (n * 10 ^ 9)"
proof -
  let ?ds = "show_nat (nat n)"
  note D = show_nat_digits [of "nat n"]
  obtain c cs where s: "?ds = c # cs" using D by (cases ?ds) auto
  then have c: "isDigit c" using D by simp
  have v: "foldl (\<lambda>n c. 10 * n + digit_val c) 0 ?ds = n" using D assms by (simp add: digits_val_def)
  have "leadingInt (?ds @ ''s'') 0 = Some (n, ''s'')"
    using leadingInt_digits [of ?ds 0 "''s''"] D v assms by (simp add: isDigit_def)
  then have "durationTerm (?ds @ ''s'') = Some (n * 10 ^ 9, '''')"
    using c s assms by (simp add: durationTerm_def numberPart_def unitOf_def isDigit_def Let_def)
  then have "durationLoop (?ds @ ''s'') 0 = Some (n * 10 ^ 9)"
    using assms s by (simp add: durationLoop.simps [of "c # cs @ ''s''"] durationLoop.simps [of "''''"])
  moreover have "showInt n = ?ds" using assms by (simp add: showInt_def)
  ultimately show ?thesis using s c digit_not_sign [of c] assms by (auto simp: ParseDuration_def Let_def)
qed


section \<open>Bounds\<close>

definition isInt64 :: "int \<Rightarrow> bool" where
  "isInt64 n \<longleftrightarrow> - (2 ^ 63) \<le> n \<and> n \<le> maxInt64"

lemma round64_nonneg: "0 \<le> n \<Longrightarrow> 0 < d \<Longrightarrow> 0 \<le> f64_rat (round64 False n d)"
  by (auto simp: round64_def f64_rat_def Let_def rne_def pow2_def)

lemma float64_of_int_nonneg:
  assumes "0 \<le> i"
  shows "0 \<le> f64_rat (float64_of_int i)"
proof (cases "i = 0")
  case True
  then show ?thesis by (simp add: float64_of_int_def f64_rat_def)
next
  case False
  then show ?thesis using round64_nonneg [OF assms, of 1] assms by (simp add: float64_of_int_def)
qed

lemma round_rat_nonneg:
  assumes "0 \<le> q"
  shows "0 \<le> f64_rat (round_rat q)"
proof (cases "quotient_of q")
  case (Pair n d)
  then have d: "0 < d" and q: "q = of_int n / of_int d" by (simp_all add: quotient_of_denom_pos quotient_of_div)
  then have "0 \<le> n" using assms by (simp add: zero_le_divide_iff)
  then show ?thesis using Pair d by (simp add: round_rat_def round64_nonneg)
qed

lemma leadingInt_nonneg: "leadingInt s x = Some (v, s') \<Longrightarrow> 0 \<le> x \<Longrightarrow> 0 \<le> v"
  by (induction s x arbitrary: v s' rule: leadingInt.induct) (auto simp: Let_def digit_val_nonneg split: if_splits)

lemma leadingFraction_nonneg: "leadingFraction s x scale ov = (f, sc, s') \<Longrightarrow> 0 \<le> x \<Longrightarrow> 0 \<le> scale \<Longrightarrow> 0 \<le> f \<and> 0 \<le> sc"
  by (induction s x scale ov arbitrary: f sc s' rule: leadingFraction.induct) (auto simp: Let_def digit_val_nonneg split: if_splits)

lemma unitOf_pos: "unitOf u = Some n \<Longrightarrow> 0 < n"
  unfolding unitOf_def by (drule map_of_SomeD) auto

lemma scaledFraction_nonneg:
  assumes "0 \<le> f" "0 \<le> unit" "0 \<le> scale"
  shows "0 \<le> scaledFraction f unit scale"
  using assms unfolding scaledFraction_def zero_le_floor
  by (intro round_rat_nonneg mult_nonneg_nonneg divide_nonneg_nonneg float64_of_int_nonneg)

lemma durationTerm_nonneg:
  assumes "durationTerm s = Some (v, rest)"
  shows "0 \<le> v \<and> v \<le> 2 ^ 63"
proof -
  obtain n s1 where l: "leadingInt s 0 = Some (n, s1)"
    using assms by (auto simp: durationTerm_def split: if_splits option.splits)
  obtain f scale s2 where f: "(if s1 \<noteq> [] \<and> hd s1 = CHR ''.'' then leadingFraction (tl s1) 0 1 False else (0, 1, s1)) = (f, scale, s2)"
    by (metis prod.exhaust)
  have fs: "0 \<le> f \<and> 0 \<le> scale"
    using f leadingFraction_nonneg [of "tl s1" 0 1 False f scale s2] by (auto split: if_splits)
  obtain unit where u: "unitOf (takeWhile (\<lambda>c. \<not> numberPart c) s2) = Some unit"
      and v: "v = n * unit + (if 0 < f then scaledFraction f unit scale else 0)" "v \<le> 2 ^ 63"
    using assms l f unfolding durationTerm_def by (auto simp: Let_def split: if_splits option.splits)
  show ?thesis using v unitOf_pos [OF u] leadingInt_nonneg [OF l] fs scaledFraction_nonneg [of f unit scale] by auto
qed

lemma durationLoop_bounds: "durationLoop s d = Some v \<Longrightarrow> 0 \<le> d \<Longrightarrow> d \<le> 2 ^ 63 \<Longrightarrow> 0 \<le> v \<and> v \<le> 2 ^ 63"
proof (induction s d rule: durationLoop.induct)
  case (1 s d)
  show ?case
  proof (cases "s = []")
    case True
    then show ?thesis using 1 by (simp add: durationLoop.simps [of "[]"])
  next
    case False
    then obtain t rest where t: "durationTerm s = Some (t, rest)" "\<not> 2 ^ 63 < d + t" "durationLoop rest (d + t) = Some v"
      using 1(2) by (subst (asm) durationLoop.simps) (auto split: option.splits prod.splits if_splits)
    show ?thesis using 1(1) [OF False t(1) refl t(2) t(3)] durationTerm_nonneg [OF t(1)] 1(3) t(2) by simp
  qed
qed

lemma ParseDuration_int64: "ParseDuration s = Some d \<Longrightarrow> isInt64 d"
  using durationLoop_bounds [of _ 0]
  by (fastforce simp: ParseDuration_def isInt64_def Let_def split: if_splits option.splits)

lemma Atoi_int64: "Atoi s = Some n \<Longrightarrow> isInt64 n"
  by (auto simp: Atoi_def isInt64_def Let_def split: if_splits)

lemma envParsed_cases: "envParsed parse env key fallback = fallback \<or>
    (\<exists>v. env key = Some v \<and> v \<noteq> '''' \<and> parse v = Some (envParsed parse env key fallback))"
  by (auto simp: envParsed_def split: option.splits)

lemma envInt_int64: "isInt64 fallback \<Longrightarrow> isInt64 (envInt env key fallback)"
  using envParsed_cases [of Atoi env key fallback] by (auto simp: envInt_def dest: Atoi_int64)

lemma envDuration_int64: "isInt64 fallback \<Longrightarrow> isInt64 (envDuration env key fallback)"
  using envParsed_cases [of ParseDuration env key fallback] by (auto simp: envDuration_def dest: ParseDuration_int64)

section \<open>Malformed values\<close>

lemma Atoi_malformed: "c \<in> set (drop 1 s) \<Longrightarrow> \<not> isDigit c \<Longrightarrow> Atoi s = None"
  by (cases s) (auto simp: Atoi_def Let_def list_all_iff)

text \<open>A number needs a unit: a plain number of seconds is not a duration, except zero.\<close>

lemma leadingInt_all_digits: "leadingInt s x = Some (v, s1) \<Longrightarrow> list_all isDigit s \<Longrightarrow> s1 = []"
  by (induction s x arbitrary: v s1 rule: leadingInt.induct) (auto simp: Let_def split: if_splits)

lemma ParseDuration_unitless:
  assumes "list_all isDigit s" "s \<noteq> ''0''"
  shows "ParseDuration s = None"
proof (cases s)
  case Nil
  then show ?thesis by (simp add: ParseDuration_def)
next
  case (Cons c cs)
  have "durationTerm s = None"
    using leadingInt_all_digits [OF _ assms(1)] by (fastforce simp: durationTerm_def Let_def split: option.splits)
  then have "durationLoop s 0 = None" using Cons by (subst durationLoop.simps) simp
  moreover have "isDigit c" using assms Cons by simp
  ultimately show ?thesis using assms Cons digit_not_sign [of c] by (simp add: ParseDuration_def Let_def)
qed

section \<open>Properties\<close>

lemma envParsed_set: "env key = Some v \<Longrightarrow> v \<noteq> '''' \<Longrightarrow> parse v = Some n \<Longrightarrow> envParsed parse env key fallback = n"
  by (simp add: envParsed_def)

lemma envParsed_bad: "env key = Some v \<Longrightarrow> parse v = None \<Longrightarrow> envParsed parse env key fallback = fallback"
  by (simp add: envParsed_def)

lemma showInt_nonempty: "showInt n \<noteq> ''''"
  using show_nat_digits [of "nat n"] by (simp add: showInt_def)

lemma envInt_showInt: "env key = Some (showInt n) \<Longrightarrow> isInt64 n \<Longrightarrow> envInt env key fallback = n"
  unfolding envInt_def by (erule envParsed_set) (simp_all add: showInt_nonempty Atoi_showInt isInt64_def)

lemma envDuration_seconds: "env key = Some (showInt n @ ''s'') \<Longrightarrow> 0 \<le> n \<Longrightarrow> n * 10 ^ 9 \<le> maxInt64 \<Longrightarrow> envDuration env key fallback = n * 10 ^ 9"
  unfolding envDuration_def by (erule envParsed_set) (simp_all add: ParseDuration_seconds)

lemma envBool_printed: "env key = Some (if b then ''true'' else ''false'') \<Longrightarrow> envBool env key fallback = b"
  unfolding envBool_def by (erule envParsed_set) (simp_all add: ParseBool_def)


definition demoEnv :: environ where
  "demoEnv = map_of [(''PORT'', ''8081''), (''TASK_WORKER_POOL'', ''-3''), (''TASK_TIMEOUT'', ''45s''), (''USE_MEMORY_STORE'', ''false''),
     (''DATABASE_URL'', ''postgres://hub''), (''JWT_SECRET'', ''secret''), (''JWT_EXPIRY'', ''90''), (''DASHBOARD_HISTORY_CAPACITY'', ''12O'')]"

lemma demo_printed: "showInt 8081 = ''8081''" "showInt (- 3) = ''-3''" "showInt 45 = ''45''"
  by (simp_all add: showInt_def show_nat.simps) code_simp+



text \<open>A malformed value is ignored, not refused: a number with a character that is no digit after the first, and a duration without a unit, leave
  the default in place, and \<open>Validate\<close> does not see them.\<close>

theorem Load_malformed:
  assumes "env ''DASHBOARD_HISTORY_CAPACITY'' = Some v" "c \<in> set (drop 1 v)" "\<not> isDigit c"
    and "env ''JWT_EXPIRY'' = Some u" "list_all isDigit u" "u \<noteq> ''0''"
  shows "cfDashboardHistoryCapacity (Load env) = 120 \<and> cfJWTExpiry (Load env) = 24 * 3600 * 10 ^ 9"
  using envParsed_bad [of env _ _ Atoi, OF assms(1) Atoi_malformed [OF assms(2,3)]] envParsed_bad [of env _ _ ParseDuration, OF assms(4) ParseDuration_unitless [OF assms(5,6)]]
  by (simp add: Load_def envInt_def envDuration_def)

theorem Load_malformed_witness: "cfDashboardHistoryCapacity (Load demoEnv) = 120 \<and> cfJWTExpiry (Load demoEnv) = 86400 * 10 ^ 9"
  using Load_malformed [of demoEnv "''12O''" "CHR ''O''" "''90''"] by (simp add: demoEnv_def isDigit_def)

end
