(* ===== verification/Startup.thy ===== *)
theory Startup
  imports Configuration
begin

text \<open>
  How the hub starts and ends: the embedded migrations (\<open>internal/store/migrations.go\<close>), the set-up of the PostgreSQL store
  (\<open>NewPG\<close>, \<open>Migrate\<close>, \<open>NewPGWithMigrations\<close>, \<open>Close\<close> of \<open>internal/store/pgx.go\<close>), the level of the logger (\<open>internal/logging\<close>) and \<open>main\<close> with
  \<open>buildStore\<close> (\<open>cmd/hub/main.go\<close>).

  pgxpool is the record \<open>Pool\<close> over an unknown state \<open>'d\<close>; the embedded file system is the record \<open>EmbedFS\<close>. What \<open>main\<close> waits for (a signal or
  the failure of the server) and what \<open>Shutdown\<close> returns are arguments.
\<close>

section \<open>Migrations\<close>

text \<open>\<open>strings.Split(s, ";")\<close>.\<close>

fun splitSemi :: "string \<Rightarrow> string list" where
  "splitSemi [] = [[]]"
| "splitSemi (c # s) = (if c = CHR '';'' then [] # splitSemi s else (case splitSemi s of p # ps \<Rightarrow> (c # p) # ps | [] \<Rightarrow> [[c]]))"

record DirEntry =
  deName :: string
  deIsDir :: bool

record EmbedFS =
  fsReadDir :: "(string, DirEntry list) result"
  fsReadFile :: "string \<Rightarrow> (string, string) result"

definition sqlNames :: "DirEntry list \<Rightarrow> string list" where
  "sqlNames entries = sort (map deName (filter (\<lambda>e. \<not> (deIsDir e \<or> \<not> HasSuffix (deName e) ''.sql'')) entries))"

definition fileStatements :: "string \<Rightarrow> string list" where
  "fileStatements raw = filter (\<lambda>stmt. stmt \<noteq> '''') (map TrimSpace (splitSemi raw))"

fun readAll :: "EmbedFS \<Rightarrow> string list \<Rightarrow> (string, string list) result" where
  "readAll fs [] = Inr []"
| "readAll fs (name # names) = (case fsReadFile fs name of
      Inl e \<Rightarrow> Inl (''store: read migration '' @ name @ '': '' @ e)
    | Inr raw \<Rightarrow> map_res (\<lambda>rest. fileStatements raw @ rest) (readAll fs names))"

definition parseMigrations :: "EmbedFS \<Rightarrow> (string, string list) result" where
  "parseMigrations fs = (case fsReadDir fs of
      Inl e \<Rightarrow> Inl (''store: read migrations: '' @ e)
    | Inr entries \<Rightarrow> readAll fs (sqlNames entries))"

text \<open>\<open>migrationsOnce\<close>: the first call parses, the others return what it found.\<close>

type_synonym once_cell = "(string, string list) result option"

definition loadMigrationStatements :: "EmbedFS \<Rightarrow> once_cell \<Rightarrow> (string, string list) result \<times> once_cell" where
  "loadMigrationStatements fs once = (let r = (case once of Some r \<Rightarrow> r | None \<Rightarrow> parseMigrations fs) in (r, Some r))"

section \<open>The PostgreSQL pool\<close>

record 'd Pool =
  poParse :: "string \<Rightarrow> (string, string) result"
  poNew :: "string \<Rightarrow> 'd \<Rightarrow> (string, nat) result \<times> 'd"
  poPing :: "nat \<Rightarrow> 'd \<Rightarrow> string option \<times> 'd"
  poExec :: "nat \<Rightarrow> string \<Rightarrow> 'd \<Rightarrow> string option \<times> 'd"
  poClose :: "nat \<Rightarrow> 'd \<Rightarrow> 'd"

definition NewPG :: "'d Pool \<Rightarrow> string \<Rightarrow> 'd \<Rightarrow> (string, nat) result \<times> 'd" where
  "NewPG po databaseURL d = (case poParse po databaseURL of
      Inl e \<Rightarrow> (Inl (''store: parse database url: '' @ e), d)
    | Inr cfg \<Rightarrow> (case poNew po cfg d of
        (Inl e, d1) \<Rightarrow> (Inl (''store: create pool: '' @ e), d1)
      | (Inr pool, d1) \<Rightarrow> (case poPing po pool d1 of
          (Some e, d2) \<Rightarrow> (Inl (''store: ping: '' @ e), poClose po pool d2)
        | (None, d2) \<Rightarrow> (Inr pool, d2))))"

fun execAll :: "'d Pool \<Rightarrow> nat \<Rightarrow> string list \<Rightarrow> 'd \<Rightarrow> string option \<times> 'd" where
  "execAll po pool [] d = (None, d)"
| "execAll po pool (stmt # stmts) d = (case poExec po pool stmt d of
      (Some e, d1) \<Rightarrow> (Some (''store: migrate: '' @ e), d1)
    | (None, d1) \<Rightarrow> execAll po pool stmts d1)"

definition Migrate :: "'d Pool \<Rightarrow> EmbedFS \<Rightarrow> nat \<Rightarrow> once_cell \<Rightarrow> 'd \<Rightarrow> string option \<times> once_cell \<times> 'd" where
  "Migrate po fs pool once d = (case loadMigrationStatements fs once of
      (Inl e, once') \<Rightarrow> (Some e, once', d)
    | (Inr statements, once') \<Rightarrow> (case execAll po pool statements d of (e, d') \<Rightarrow> (e, once', d')))"

definition PG_Close :: "'d Pool \<Rightarrow> nat \<Rightarrow> 'd \<Rightarrow> 'd" where
  "PG_Close po pool d = poClose po pool d"

definition NewPGWithMigrations :: "'d Pool \<Rightarrow> EmbedFS \<Rightarrow> string \<Rightarrow> once_cell \<Rightarrow> 'd \<Rightarrow> (string, nat) result \<times> once_cell \<times> 'd" where
  "NewPGWithMigrations po fs databaseURL once d = (case NewPG po databaseURL d of
      (Inl e, d1) \<Rightarrow> (Inl e, once, d1)
    | (Inr pg, d1) \<Rightarrow> (case Migrate po fs pg once d1 of
        (Some e, once', d2) \<Rightarrow> (Inl e, once', PG_Close po pg d2)
      | (None, once', d2) \<Rightarrow> (Inr pg, once', d2)))"

section \<open>The entry point\<close>

datatype Level = LevelDebug | LevelInfo | LevelWarn | LevelError

definition logging_New :: "(string \<Rightarrow> string) \<Rightarrow> string \<Rightarrow> Level" where
  "logging_New toLower level =
     (let l = toLower level in
      if l = ''debug'' then LevelDebug else if l = ''warn'' then LevelWarn else if l = ''error'' then LevelError else LevelInfo)"

datatype store_kind = MemoryStore | PGStore nat

definition buildStore :: "'d Pool \<Rightarrow> EmbedFS \<Rightarrow> Config \<Rightarrow> once_cell \<Rightarrow> 'd \<Rightarrow> (string, store_kind) result \<times> once_cell \<times> 'd" where
  "buildStore po fs cfg once d =
     (if cfUseMemoryStore cfg then (Inr MemoryStore, once, d)
      else (case NewPGWithMigrations po fs (cfDatabaseURL cfg) once d of
        (Inl e, once', d1) \<Rightarrow> (Inl e, once', d1)
      | (Inr pg, once', d1) \<Rightarrow> (Inr (PGStore pg), once', d1)))"

fun store_Close :: "'d Pool \<Rightarrow> store_kind \<Rightarrow> 'd \<Rightarrow> 'd" where
  "store_Close po MemoryStore d = d"
| "store_Close po (PGStore pg) d = PG_Close po pg d"

text \<open>What the select waits for, and how the process ends: the exit status, what was served and what was logged.\<close>

datatype stop_event = SignalReceived string | ServerError string

datatype log_line = ConfigError config_error | StoreError string | ShutdownSignal string | ServerFailed string | ShutdownFailed string | ShutdownComplete

record hub_run =
  hrExit :: int
  hrServed :: "(string \<times> store_kind) option"
  hrHistory :: "bool option"
  hrLog :: "log_line list"

definition stopLine :: "stop_event \<Rightarrow> log_line" where
  "stopLine ev = (case ev of SignalReceived sig \<Rightarrow> ShutdownSignal sig | ServerError e \<Rightarrow> ServerFailed e)"

text \<open>\<open>hrServed\<close> is the address and the store of the server, \<open>hrHistory\<close> whether the collector was stopped, if it was started, \<open>hrLog\<close> what is printed or
  handed to the logger, which shows it at the level that \<open>logging_New\<close> chooses. The process starts
  with \<open>migrationsOnce\<close> unused; a call of \<open>os.Exit\<close> does not run the deferred calls, the return of \<open>main\<close> does.\<close>

definition hub_main :: "'d Pool \<Rightarrow> EmbedFS \<Rightarrow> environ \<Rightarrow> stop_event \<Rightarrow> string option \<Rightarrow> 'd \<Rightarrow> hub_run \<times> 'd" where
  "hub_main po fs env event shutdownErr d =
     (let cfg = Load env in
      (case Config_Validate cfg of
         Some e \<Rightarrow> (\<lparr>hrExit = 1, hrServed = None, hrHistory = None, hrLog = [ConfigError e]\<rparr>, d)
       | None \<Rightarrow> (case buildStore po fs cfg None d of
           (Inl e, _, d1) \<Rightarrow> (\<lparr>hrExit = 1, hrServed = None, hrHistory = None, hrLog = [StoreError e]\<rparr>, d1)
         | (Inr st, _, d1) \<Rightarrow>
             (let served = Some (cfHost cfg @ '':'' @ showInt (cfPort cfg), st) in
              (case shutdownErr of
                 Some e \<Rightarrow> (\<lparr>hrExit = 1, hrServed = served, hrHistory = Some False, hrLog = [stopLine event, ShutdownFailed e]\<rparr>, d1)
               | None \<Rightarrow> (\<lparr>hrExit = 0, hrServed = served, hrHistory = Some True, hrLog = [stopLine event, ShutdownComplete]\<rparr>, store_Close po st d1))))))"

section \<open>Statements\<close>

lemma splitSemi_ne: "splitSemi s \<noteq> []"
  by (induction s) (auto split: list.splits)

lemma splitSemi_join: "Join (splitSemi s) '';'' = s"
proof (induction s)
  case (Cons c s)
  show ?case
  proof (cases "splitSemi s")
    case Nil
    then show ?thesis using splitSemi_ne [of s] by simp
  next
    case p: (Cons p ps)
    then show ?thesis using Cons by (cases ps) auto
  qed
qed simp

lemma splitSemi_free: "p \<in> set (splitSemi s) \<Longrightarrow> CHR '';'' \<notin> set p"
proof (induction s arbitrary: p)
  case (Cons c s)
  then show ?case using splitSemi_ne [of s] by (cases "splitSemi s") (auto split: if_splits)
qed simp

lemma Join_sublist: "p \<in> set ps \<Longrightarrow> sublist p (Join ps sep)"
proof (induction ps sep rule: Join.induct)
  case (3 x y xs sep)
  then show ?case by (auto intro: sublist_appendI sublist_order.order.trans [OF _ sublist_append_leftI] simp: sublist_append)
qed auto

lemma fileStatements_ok:
  assumes "stmt \<in> set (fileStatements raw)"
  shows "stmt \<noteq> '''' \<and> CHR '';'' \<notin> set stmt \<and> sublist stmt raw"
proof -
  obtain p where p: "p \<in> set (splitSemi raw)" "stmt = TrimSpace p" "stmt \<noteq> ''''" using assms by (auto simp: fileStatements_def)
  have sub: "sublist stmt p" using TrimSpace_sublist p by simp
  moreover have "sublist p raw" using Join_sublist [OF p(1), of "'';''"] by (simp add: splitSemi_join)
  ultimately show ?thesis using p splitSemi_free [OF p(1)] set_mono_sublist [OF sub] by (meson sublist_order.order.trans subsetD)
qed

lemma readAll_ok: "\<forall>n \<in> set names. fsReadFile fs n = Inr (content n) \<Longrightarrow> readAll fs names = Inr (concat (map (\<lambda>n. fileStatements (content n)) names))"
  by (induction names) (simp_all add: map_res_def)

lemma sqlNames_perm: "mset entries' = mset entries \<Longrightarrow> sqlNames entries' = sqlNames entries"
  unfolding sqlNames_def by (rule properties_for_sort) (simp_all add: mset_map mset_filter)


definition demoEntries :: "DirEntry list" where
  "demoEntries = [\<lparr>deName = ''2.sql'', deIsDir = False\<rparr>, \<lparr>deName = ''embed.go'', deIsDir = False\<rparr>, \<lparr>deName = ''1.sql'', deIsDir = False\<rparr>]"

definition demoContent :: "string \<Rightarrow> string" where
  "demoContent n = (if n = ''1.sql'' then ''A; B; '' else ''A'')"

definition demoFS :: EmbedFS where
  "demoFS = \<lparr>fsReadDir = Inr demoEntries, fsReadFile = (\<lambda>n. Inr (demoContent n))\<rparr>"

lemma demoFS_names: "sqlNames demoEntries = [''1.sql'', ''2.sql'']"
  by code_simp

lemma demoFS_statements: "fileStatements ''A; B; '' = [''A'', ''B'']" "fileStatements ''A'' = [''A'']"
  by (simp_all add: fileStatements_def TrimSpace_examples)


section \<open>Pools are closed\<close>

text \<open>What \<open>main\<close> relies on of pgxpool: \<open>pools\<close> are the open pools of a state and \<open>ranStmts\<close> the statements executed. A new pool is a pool that was not
  open; pinging and executing open and close none; a statement that fails has not run; closing closes that pool.\<close>

definition poolOk :: "'d Pool \<Rightarrow> ('d \<Rightarrow> nat set) \<Rightarrow> ('d \<Rightarrow> string list) \<Rightarrow> bool" where
  "poolOk po pools ranStmts \<longleftrightarrow>
     (\<forall>cfg d. case poNew po cfg d of
        (Inl e, d') \<Rightarrow> pools d' = pools d \<and> ranStmts d' = ranStmts d
      | (Inr p, d') \<Rightarrow> p \<notin> pools d \<and> pools d' = insert p (pools d) \<and> ranStmts d' = ranStmts d)
     \<and> (\<forall>p d. pools (snd (poPing po p d)) = pools d \<and> ranStmts (snd (poPing po p d)) = ranStmts d)
     \<and> (\<forall>p stmt d. case poExec po p stmt d of (err, d') \<Rightarrow> pools d' = pools d \<and> ranStmts d' = (if err = None then ranStmts d @ [stmt] else ranStmts d))
     \<and> (\<forall>p d. pools (poClose po p d) = pools d - {p} \<and> ranStmts (poClose po p d) = ranStmts d)"

lemma poolOk_new:
  assumes "poolOk po pools ranStmts"
  shows "poNew po cfg d = (Inl e, d') \<Longrightarrow> pools d' = pools d \<and> ranStmts d' = ranStmts d"
    and "poNew po cfg d = (Inr p, d') \<Longrightarrow> p \<notin> pools d \<and> pools d' = insert p (pools d) \<and> ranStmts d' = ranStmts d"
proof -
  have new: "case poNew po cfg d of
        (Inl e, d') \<Rightarrow> pools d' = pools d \<and> ranStmts d' = ranStmts d
      | (Inr p, d') \<Rightarrow> p \<notin> pools d \<and> pools d' = insert p (pools d) \<and> ranStmts d' = ranStmts d"
    using assms unfolding poolOk_def by (elim conjE) (erule allE, erule allE)
  show "poNew po cfg d = (Inl e, d') \<Longrightarrow> pools d' = pools d \<and> ranStmts d' = ranStmts d"
    and "poNew po cfg d = (Inr p, d') \<Longrightarrow> p \<notin> pools d \<and> pools d' = insert p (pools d) \<and> ranStmts d' = ranStmts d"
    using new by simp_all
qed

lemma poolOk_ping: "poolOk po pools ranStmts \<Longrightarrow> poPing po p d = (r, d') \<Longrightarrow> pools d' = pools d \<and> ranStmts d' = ranStmts d"
  unfolding poolOk_def by (metis snd_conv)

lemma poolOk_exec:
  assumes "poolOk po pools ranStmts" "poExec po p stmt d = (r, d')"
  shows "pools d' = pools d \<and> ranStmts d' = (if r = None then ranStmts d @ [stmt] else ranStmts d)"
proof -
  have "case poExec po p stmt d of (err, d') \<Rightarrow> pools d' = pools d \<and> ranStmts d' = (if err = None then ranStmts d @ [stmt] else ranStmts d)"
    using assms(1) unfolding poolOk_def by (elim conjE) (rule spec [where x = d], rule spec [where x = stmt], rule spec [where x = p])
  then show ?thesis using assms(2) by simp
qed

lemma poolOk_close: "poolOk po pools ranStmts \<Longrightarrow> pools (poClose po p d) = pools d - {p} \<and> ranStmts (poClose po p d) = ranStmts d"
  unfolding poolOk_def by blast

lemma NewPG_pools:
  assumes "poolOk po pools ranStmts" "NewPG po url d = (r, d')"
  shows "ranStmts d' = ranStmts d \<and> (case r of Inl e \<Rightarrow> pools d' = pools d | Inr p \<Rightarrow> p \<notin> pools d \<and> pools d' = insert p (pools d))"
proof (cases "poParse po url")
  case (Inl e)
  then show ?thesis using assms(2) by (auto simp: NewPG_def)
next
  case (Inr cfg)
  note parsed = this
  obtain r1 d1 where n: "poNew po cfg d = (r1, d1)" by fastforce
  show ?thesis
  proof (cases r1)
    case (Inl e)
    then show ?thesis using assms(2) parsed n poolOk_new(1) [OF assms(1), of cfg d e d1] by (auto simp: NewPG_def)
  next
    case (Inr p)
    obtain r2 d2 where g: "poPing po p d1 = (r2, d2)" by fastforce
    show ?thesis using assms(2) parsed n Inr g poolOk_new(2) [OF assms(1), of cfg d p d1] poolOk_ping [OF assms(1) g]
      by (cases r2) (auto simp: NewPG_def poolOk_close [OF assms(1)])
  qed
qed

lemma execAll_pools:
  assumes "poolOk po pools ranStmts"
  shows "execAll po p stmts d = (r, d') \<Longrightarrow>
    pools d' = pools d \<and> (\<exists>k. ranStmts d' = ranStmts d @ take k stmts) \<and> (r = None \<longrightarrow> ranStmts d' = ranStmts d @ stmts)"
proof (induction stmts arbitrary: d)
  case (Cons stmt stmts)
  obtain r1 d1 where e: "poExec po p stmt d = (r1, d1)" by fastforce
  note x = poolOk_exec [OF assms e]
  show ?case
  proof (cases r1)
    case None
    then have "execAll po p stmts d1 = (r, d')" using Cons.prems e by simp
    then obtain k where "pools d' = pools d1" "ranStmts d' = ranStmts d1 @ take k stmts" "r = None \<longrightarrow> ranStmts d' = ranStmts d1 @ stmts" using Cons.IH by blast
    then show ?thesis using x None by (auto intro: exI [of _ "Suc k"])
  next
    case (Some err)
    then show ?thesis using Cons.prems e x by (auto intro: exI [of _ 0])
  qed
qed auto

lemma NewPGWithMigrations_pools:
  assumes "poolOk po pools ranStmts" "NewPGWithMigrations po fs url None d = (r, once, d')"
  shows "(case r of
      Inl e \<Rightarrow> pools d' = pools d \<and> (ranStmts d' = ranStmts d \<or> (\<exists>stmts k. parseMigrations fs = Inr stmts \<and> ranStmts d' = ranStmts d @ take k stmts))
    | Inr p \<Rightarrow> p \<notin> pools d \<and> pools d' = insert p (pools d) \<and> (\<exists>stmts. parseMigrations fs = Inr stmts \<and> ranStmts d' = ranStmts d @ stmts))"
proof -
  obtain r1 d1 where n: "NewPG po url d = (r1, d1)" by fastforce
  note N = NewPG_pools [OF assms(1) n]
  show ?thesis
  proof (cases r1)
    case (Inl e)
    then show ?thesis using assms(2) n N by (auto simp: NewPGWithMigrations_def)
  next
    case (Inr p)
    show ?thesis
    proof (cases "parseMigrations fs")
      case (Inl e)
      then show ?thesis using assms(2) n N \<open>r1 = Inr p\<close>
        by (auto simp: NewPGWithMigrations_def Migrate_def loadMigrationStatements_def PG_Close_def Let_def poolOk_close [OF assms(1)])
    next
      case (Inr stmts)
      obtain r2 d2 where x: "execAll po p stmts d1 = (r2, d2)" by fastforce
      show ?thesis using execAll_pools [OF assms(1) x] assms(2) n N x \<open>r1 = Inr p\<close> Inr
        by (auto simp: NewPGWithMigrations_def Migrate_def loadMigrationStatements_def PG_Close_def Let_def poolOk_close [OF assms(1)] split: option.splits)
    qed
  qed
qed

lemma buildStore_pools:
  assumes "poolOk po pools ranStmts" "buildStore po fs cfg None d = (r, once, d')"
  shows "(case r of
      Inl e \<Rightarrow> pools d' = pools d \<and> (ranStmts d' = ranStmts d \<or> (\<exists>stmts k. parseMigrations fs = Inr stmts \<and> ranStmts d' = ranStmts d @ take k stmts))
    | Inr MemoryStore \<Rightarrow> d' = d
    | Inr (PGStore p) \<Rightarrow> p \<notin> pools d \<and> pools d' = insert p (pools d) \<and> (\<exists>stmts. parseMigrations fs = Inr stmts \<and> ranStmts d' = ranStmts d @ stmts))"
proof (cases "cfUseMemoryStore cfg")
  case True
  then show ?thesis using assms(2) by (auto simp: buildStore_def)
next
  case False
  obtain r1 once1 d1 where n: "NewPGWithMigrations po fs (cfDatabaseURL cfg) None d = (r1, once1, d1)" by (metis prod.exhaust)
  show ?thesis using NewPGWithMigrations_pools [OF assms(1) n] assms(2) n False by (auto simp: buildStore_def split: sum.splits)
qed


text \<open>A pool that refuses the statement \<open>B\<close> when it has already run.\<close>

definition demoPool :: "(nat list \<times> string list) Pool" where
  "demoPool = \<lparr>poParse = (\<lambda>url. Inr url), poNew = (\<lambda>cfg d. let p = fold max (fst d) 0 + 1 in (Inr p, p # fst d, snd d)),
     poPing = (\<lambda>p d. (None, d)),
     poExec = (\<lambda>p stmt d. if stmt = ''B'' \<and> ''B'' \<in> set (snd d) then (Some ''exists'', d) else (None, fst d, snd d @ [stmt])),
     poClose = (\<lambda>p d. (filter (\<lambda>q. q \<noteq> p) (fst d), snd d))\<rparr>"

lemma fold_max_fresh: "fold max xs m + 1 \<notin> set xs \<and> m \<le> fold max xs m" for xs :: "nat list"
proof -
  have le: "m \<le> fold max xs m \<and> (\<forall>x \<in> set xs. x \<le> fold max xs m)" for m
    by (induction xs arbitrary: m) (auto, (meson max.bounded_iff)+)
  show ?thesis using le [of m] by (force dest: bspec)
qed

lemma demoPool_ok: "poolOk demoPool (\<lambda>d. set (fst d)) snd"
  using fold_max_fresh by (auto simp: poolOk_def demoPool_def Let_def)


end
