(* ===== verification/Sampler.thy ===== *)
theory Sampler
  imports History
begin

text \<open>
  The life cycle of the history collector (\<open>Start\<close>, \<open>Stop\<close>, \<open>run\<close> of \<open>internal/api/dashboard_history.go\<close>) with any number of goroutines that
  call \<open>Start\<close> and \<open>Stop\<close> in any order, as a step relation.

  A step is one action that other goroutines can see: an operation on \<open>startOnce\<close>, \<open>stopOnce\<close>, \<open>started\<close>, one of the two channels, the start of the
  goroutine or a call of \<open>Capture\<close>, which holds the mutex. \<open>sync.Once\<close> lets the later callers wait until the first is done; the body of \<open>stopOnce\<close>
  is the single action \<open>close(c.stop)\<close>. Closing a closed channel panics; so does an index outside of the buffer.
\<close>

section \<open>Definitions\<close>

definition collectorInterval :: "int \<Rightarrow> int" where
  "collectorInterval interval = (if interval \<le> 0 then 5 * 10 ^ 9 else interval)"

text \<open>The result of \<open>cpu.Percent\<close> is the argument.\<close>

definition defaultCPUSampler :: "(string, float64 list) result \<Rightarrow> float64" where
  "defaultCPUSampler r = (case r of Inl e \<Rightarrow> Fin 0 | Inr vals \<Rightarrow> (case vals of [] \<Rightarrow> Fin 0 | v # vs \<Rightarrow> v))"

datatype once = Fresh | Busy | Spent

datatype runner = Seeding | Selecting | Returning | Gone

text \<open>Where a caller is: outside, in the body of \<open>startOnce\<close> before the store and before the \<open>go\<close> statement, in \<open>Stop\<close> before it loads \<open>started\<close>
  and at the receive, and behind that receive.\<close>

datatype caller = Idle | StartStore | StartGo | StopLoad | StopWait | Stopped

record sampler =
  saStartOnce :: once
  saStarted :: bool
  saStopOnce :: bool
  saStop :: bool
  saDone :: bool
  saRunners :: "runner list"
  saCol :: HistoryCollector
  saCallers :: "nat \<Rightarrow> caller"
  saPanic :: bool

definition newSampler :: "int \<Rightarrow> sampler" where
  "newSampler capacity = \<lparr>saStartOnce = Fresh, saStarted = False, saStopOnce = False, saStop = False, saDone = False, saRunners = [],
     saCol = NewHistoryCollector capacity, saCallers = (\<lambda>i. Idle), saPanic = False\<rparr>"

definition at_pc :: "nat \<Rightarrow> caller \<Rightarrow> sampler \<Rightarrow> sampler" where
  "at_pc i pc s = s \<lparr>saCallers := (saCallers s)(i := pc)\<rparr>"

definition closeStop :: "sampler \<Rightarrow> sampler" where
  "closeStop s = s \<lparr>saStop := True, saPanic := saPanic s \<or> saStop s\<rparr>"

definition closeDone :: "sampler \<Rightarrow> sampler" where
  "closeDone s = s \<lparr>saDone := True, saPanic := saPanic s \<or> saDone s\<rparr>"

definition captureStep :: "Sample \<Rightarrow> sampler \<Rightarrow> sampler" where
  "captureStep x s = (case Capture x (saCol s) of None \<Rightarrow> s \<lparr>saPanic := True\<rparr> | Some c \<Rightarrow> s \<lparr>saCol := c\<rparr>)"

definition at_runner :: "nat \<Rightarrow> runner \<Rightarrow> sampler \<Rightarrow> sampler" where
  "at_runner j pc s = s \<lparr>saRunners := (saRunners s)[j := pc]\<rparr>"

inductive start_step :: "nat \<Rightarrow> sampler \<Rightarrow> sampler \<Rightarrow> bool" where
  first: "saCallers s i = Idle \<Longrightarrow> saStartOnce s = Fresh \<Longrightarrow> start_step i s (at_pc i StartStore (s \<lparr>saStartOnce := Busy\<rparr>))"
| again: "saCallers s i = Idle \<Longrightarrow> saStartOnce s = Spent \<Longrightarrow> start_step i s s"
| mark: "saCallers s i = StartStore \<Longrightarrow> start_step i s (at_pc i StartGo (s \<lparr>saStarted := True\<rparr>))"
| spawn: "saCallers s i = StartGo \<Longrightarrow> start_step i s (at_pc i Idle (s \<lparr>saRunners := saRunners s @ [Seeding], saStartOnce := Spent\<rparr>))"

inductive stop_step :: "nat \<Rightarrow> sampler \<Rightarrow> sampler \<Rightarrow> bool" where
  close: "saCallers s i = Idle \<Longrightarrow> \<not> saStopOnce s \<Longrightarrow> stop_step i s (at_pc i StopLoad (closeStop (s \<lparr>saStopOnce := True\<rparr>)))"
| closed: "saCallers s i = Idle \<Longrightarrow> saStopOnce s \<Longrightarrow> stop_step i s (at_pc i StopLoad s)"
| load: "saCallers s i = StopLoad \<Longrightarrow> stop_step i s (at_pc i (if saStarted s then StopWait else Idle) s)"
| receive: "saCallers s i = StopWait \<Longrightarrow> saDone s \<Longrightarrow> stop_step i s (at_pc i Stopped s)"
| returned: "saCallers s i = Stopped \<Longrightarrow> stop_step i s (at_pc i Idle s)"

inductive run_step :: "nat \<Rightarrow> sampler \<Rightarrow> sampler \<Rightarrow> bool" where
  seed: "j < length (saRunners s) \<Longrightarrow> saRunners s ! j = Seeding \<Longrightarrow> run_step j s (at_runner j Selecting (captureStep x s))"
| tick: "j < length (saRunners s) \<Longrightarrow> saRunners s ! j = Selecting \<Longrightarrow> run_step j s (captureStep x s)"
| quit: "j < length (saRunners s) \<Longrightarrow> saRunners s ! j = Selecting \<Longrightarrow> saStop s \<Longrightarrow> run_step j s (at_runner j Returning s)"
| leave: "j < length (saRunners s) \<Longrightarrow> saRunners s ! j = Returning \<Longrightarrow> run_step j s (at_runner j Gone (closeDone s))"

definition sampler_step :: "sampler \<Rightarrow> sampler \<Rightarrow> bool" where
  "sampler_step s s' \<longleftrightarrow> (\<exists>i. start_step i s s' \<or> stop_step i s s' \<or> run_step i s s')"

text \<open>\<open>time.NewTicker\<close> panics on an interval that is not positive; the collector never has one.\<close>

lemma collectorInterval_pos: "0 < collectorInterval interval"
  by (simp add: collectorInterval_def)

section \<open>Invariant\<close>

definition inStart :: "sampler \<Rightarrow> nat \<Rightarrow> bool" where
  "inStart s i \<longleftrightarrow> saCallers s i = StartStore \<or> saCallers s i = StartGo"

definition startOk :: "sampler \<Rightarrow> bool" where
  "startOk s \<longleftrightarrow> (case saStartOnce s of
      Fresh \<Rightarrow> saRunners s = [] \<and> \<not> saStarted s \<and> (\<forall>i. \<not> inStart s i)
    | Busy \<Rightarrow> saRunners s = [] \<and> (\<exists>i. inStart s i \<and> (saStarted s \<longleftrightarrow> saCallers s i = StartGo) \<and> (\<forall>j. inStart s j \<longrightarrow> j = i))
    | Spent \<Rightarrow> saStarted s \<and> (\<exists>r. saRunners s = [r]) \<and> (\<forall>i. \<not> inStart s i))"

definition callerOk :: "sampler \<Rightarrow> caller \<Rightarrow> bool" where
  "callerOk s pc = (case pc of StopLoad \<Rightarrow> saStop s | StopWait \<Rightarrow> saStop s \<and> saStarted s | Stopped \<Rightarrow> saStop s \<and> saDone s | _ \<Rightarrow> True)"

definition stopOk :: "sampler \<Rightarrow> bool" where
  "stopOk s \<longleftrightarrow> (saStop s \<longleftrightarrow> saStopOnce s) \<and> (saDone s \<longleftrightarrow> saRunners s = [Gone]) \<and> (\<forall>i. callerOk s (saCallers s i))"

definition samplerOk :: "sampler \<Rightarrow> bool" where
  "samplerOk s \<longleftrightarrow> startOk s \<and> stopOk s \<and> (\<exists>ss. ringInv ss (saCol s)) \<and> \<not> saPanic s"

lemmas sampler_updates = at_pc_def at_runner_def closeStop_def closeDone_def

lemma samplerOk_new: "samplerOk (newSampler capacity)"
  using ringInv_new by (auto simp: samplerOk_def startOk_def stopOk_def callerOk_def inStart_def newSampler_def)

lemma single_iff: "(\<exists>r. xs = [r]) \<longleftrightarrow> length xs = 1"
  by (cases xs) auto

text \<open>What a step that does not touch the parts of an invariant keeps.\<close>

lemma startOk_cong:
  assumes "startOk s" "saStartOnce s' = saStartOnce s" "length (saRunners s') = length (saRunners s)"
    and "saStarted s' = saStarted s" "saCallers s' = saCallers s"
  shows "startOk s'"
proof -
  have "inStart s' i \<longleftrightarrow> inStart s i" for i using assms(5) by (simp add: inStart_def)
  moreover have "(\<exists>r. saRunners s' = [r]) \<longleftrightarrow> (\<exists>r. saRunners s = [r])" using assms(3) unfolding single_iff by simp
  moreover have "saRunners s' = [] \<longleftrightarrow> saRunners s = []" using assms(3) by (metis length_0_conv)
  ultimately show ?thesis using assms by (cases "saStartOnce s") (simp_all add: startOk_def)
qed

lemma callerOk_mono:
  "callerOk s pc \<Longrightarrow> (saStop s \<longrightarrow> saStop s') \<Longrightarrow> (saStarted s \<longrightarrow> saStarted s') \<Longrightarrow> (saDone s \<longrightarrow> saDone s') \<Longrightarrow> callerOk s' pc"
  by (cases pc) (auto simp: callerOk_def)

lemma stopOk_mono:
  assumes "stopOk s" "saStop s' \<longleftrightarrow> saStopOnce s'" "saDone s' \<longleftrightarrow> saRunners s' = [Gone]"
    and "saStop s \<longrightarrow> saStop s'" "saStarted s \<longrightarrow> saStarted s'" "saDone s \<longrightarrow> saDone s'" "saCallers s' = saCallers s"
  shows "stopOk s'"
  using assms(1-3) callerOk_mono [OF _ assms(4,5,6)] unfolding stopOk_def assms(7) by blast

lemma at_pc_startOk:
  assumes "startOk s" "\<not> inStart s i" "pc \<noteq> StartStore" "pc \<noteq> StartGo"
  shows "startOk (at_pc i pc s)"
proof -
  have "inStart (at_pc i pc s) j \<longleftrightarrow> inStart s j" for j using assms(2-4) by (simp add: inStart_def at_pc_def)
  moreover have "saCallers (at_pc i pc s) j = StartGo \<longleftrightarrow> saCallers s j = StartGo" for j using assms(2-4) by (auto simp: inStart_def at_pc_def)
  ultimately show ?thesis using assms(1) by (cases "saStartOnce s") (simp_all add: startOk_def, simp_all add: at_pc_def)
qed

lemma at_pc_stopOk:
  assumes "stopOk s" "callerOk s pc"
  shows "stopOk (at_pc i pc s)"
proof -
  have "callerOk (at_pc i pc s) p \<longleftrightarrow> callerOk s p" for p by (cases p) (simp_all add: callerOk_def at_pc_def)
  then show ?thesis using assms by (simp add: stopOk_def) (simp add: at_pc_def)
qed

lemma samplerOk_at_pc:
  "samplerOk s \<Longrightarrow> \<not> inStart s i \<Longrightarrow> pc \<noteq> StartStore \<Longrightarrow> pc \<noteq> StartGo \<Longrightarrow> callerOk s pc \<Longrightarrow> samplerOk (at_pc i pc s)"
  unfolding samplerOk_def by (simp add: at_pc_startOk at_pc_stopOk) (simp add: at_pc_def)

section \<open>Every step keeps the invariant\<close>

lemma start_keeps: "start_step i s s' \<Longrightarrow> samplerOk s \<Longrightarrow> samplerOk s'"
proof (induction rule: start_step.induct)
  case (first s i)
  have "startOk (at_pc i StartStore (s \<lparr>saStartOnce := Busy\<rparr>))"
    using first unfolding samplerOk_def startOk_def by (auto simp: inStart_def at_pc_def)
  moreover have "stopOk (s \<lparr>saStartOnce := Busy\<rparr>)" by (rule stopOk_mono [of s], use first(3) in \<open>simp_all add: samplerOk_def stopOk_def closeStop_def\<close>)
  then have "stopOk (at_pc i StartStore (s \<lparr>saStartOnce := Busy\<rparr>))" by (rule at_pc_stopOk) (simp add: callerOk_def)
  ultimately show ?case using first(3) by (simp add: samplerOk_def at_pc_def)
next
  case (mark s i)
  have "startOk (at_pc i StartGo (s \<lparr>saStarted := True\<rparr>))"
    using mark unfolding samplerOk_def startOk_def by (cases "saStartOnce s") (auto simp: inStart_def at_pc_def)
  moreover have "stopOk (s \<lparr>saStarted := True\<rparr>)" by (rule stopOk_mono [of s], use mark(2) in \<open>simp_all add: samplerOk_def stopOk_def closeStop_def\<close>)
  then have "stopOk (at_pc i StartGo (s \<lparr>saStarted := True\<rparr>))" by (rule at_pc_stopOk) (simp add: callerOk_def)
  ultimately show ?case using mark(2) by (simp add: samplerOk_def at_pc_def)
next
  case (spawn s i)
  let ?s = "s \<lparr>saRunners := saRunners s @ [Seeding], saStartOnce := Spent\<rparr>"
  have busy: "saRunners s = []" "saStarted s" "\<forall>j. inStart s j \<longrightarrow> j = i"
    using spawn unfolding samplerOk_def startOk_def by (cases "saStartOnce s"; auto simp: inStart_def)+
  have "startOk (at_pc i Idle ?s)" using busy by (auto simp: startOk_def inStart_def at_pc_def)
  moreover have "stopOk ?s" by (rule stopOk_mono [of s], use spawn(2) busy(1) in \<open>simp_all add: samplerOk_def stopOk_def closeStop_def\<close>)
  then have "stopOk (at_pc i Idle ?s)" by (rule at_pc_stopOk) (simp add: callerOk_def)
  ultimately show ?case using spawn(2) by (simp add: samplerOk_def at_pc_def)
qed

lemma stop_keeps: "stop_step i s s' \<Longrightarrow> samplerOk s \<Longrightarrow> samplerOk s'"
proof (induction rule: stop_step.induct)
  case (close s i)
  let ?s = "closeStop (s \<lparr>saStopOnce := True\<rparr>)"
  have "startOk ?s" by (rule startOk_cong [of s], use close(3) in \<open>simp_all add: samplerOk_def stopOk_def closeStop_def\<close>)
  moreover have "stopOk ?s" by (rule stopOk_mono [of s], use close(3) in \<open>simp_all add: samplerOk_def stopOk_def closeStop_def\<close>)
  ultimately have "samplerOk ?s" using close(2,3) by (simp add: samplerOk_def stopOk_def closeStop_def)
  then show ?case by (rule samplerOk_at_pc) (simp_all add: close(1) inStart_def callerOk_def closeStop_def)
next
  case (closed s i)
  then show ?case by (intro samplerOk_at_pc) (simp_all add: inStart_def callerOk_def samplerOk_def stopOk_def)
next
  case (load s i)
  then have "callerOk s StopLoad" unfolding samplerOk_def stopOk_def by metis
  with load show ?case by (intro samplerOk_at_pc) (simp_all add: inStart_def callerOk_def)
next
  case (receive s i)
  then have "callerOk s StopWait" unfolding samplerOk_def stopOk_def by metis
  with receive show ?case by (intro samplerOk_at_pc) (simp_all add: inStart_def callerOk_def)
next
  case (returned s i)
  then show ?case by (intro samplerOk_at_pc) (simp_all add: inStart_def callerOk_def)
qed

lemma captureStep_ok:
  assumes "samplerOk s"
  obtains c where "captureStep x s = s \<lparr>saCol := c\<rparr>" "\<exists>ss. ringInv ss c"
proof -
  obtain ss where "ringInv ss (saCol s)" using assms by (auto simp: samplerOk_def)
  then obtain c where "Capture x (saCol s) = Some c" "ringInv (ss @ [x]) c" using ringInv_capture by blast
  then show ?thesis using that by (auto simp: captureStep_def)
qed

lemma runner_one: "samplerOk s \<Longrightarrow> j < length (saRunners s) \<Longrightarrow> saRunners s ! j = r \<Longrightarrow> j = 0 \<and> saRunners s = [r] \<and> saStartOnce s = Spent"
  by (cases "saStartOnce s") (auto simp: samplerOk_def startOk_def)

lemma samplerOk_runner:
  assumes "samplerOk s" "saRunners s = [r]" "r \<noteq> Gone"
    and "saRunners s' = [r']" "saDone s' \<longleftrightarrow> r' = Gone" "\<exists>ss. ringInv ss (saCol s')" "\<not> saPanic s'"
    and same: "saStartOnce s' = saStartOnce s" "saStarted s' = saStarted s" "saStop s' = saStop s" "saStopOnce s' = saStopOnce s" "saCallers s' = saCallers s"
  shows "samplerOk s'"
proof -
  have ok: "startOk s" "stopOk s" "\<not> saDone s" using assms(1-3) by (simp_all add: samplerOk_def stopOk_def)
  have "startOk s'" using ok(1) by (rule startOk_cong) (simp_all add: same assms(2,4))
  moreover have "stopOk s'" using ok(2) by (rule stopOk_mono) (use ok assms in \<open>simp_all add: stopOk_def\<close>)
  ultimately show ?thesis using assms(6,7) by (simp add: samplerOk_def)
qed

lemma run_keeps: "run_step j s s' \<Longrightarrow> samplerOk s \<Longrightarrow> samplerOk s'"
proof (induction rule: run_step.induct)
  case (seed j s x)
  obtain c where c: "captureStep x s = s \<lparr>saCol := c\<rparr>" "\<exists>ss. ringInv ss c" using captureStep_ok [OF seed(3)] .
  have "saRunners s = [Seeding]" "j = 0" using runner_one [OF seed(3,1,2)] by simp_all
  then show ?case using seed(3) c
    by (intro samplerOk_runner [OF seed(3), where r = Seeding and r' = Selecting]) (simp_all add: samplerOk_def stopOk_def at_runner_def)
next
  case (tick j s x)
  obtain c where c: "captureStep x s = s \<lparr>saCol := c\<rparr>" "\<exists>ss. ringInv ss c" using captureStep_ok [OF tick(3)] .
  have "saRunners s = [Selecting]" using runner_one [OF tick(3,1,2)] by simp
  then show ?case using tick(3) c
    by (intro samplerOk_runner [OF tick(3), where r = Selecting and r' = Selecting]) (simp_all add: samplerOk_def stopOk_def)
next
  case (quit j s)
  have "saRunners s = [Selecting]" "j = 0" using runner_one [OF quit(4,1,2)] by simp_all
  then show ?case using quit(4)
    by (intro samplerOk_runner [OF quit(4), where r = Selecting and r' = Returning]) (simp_all add: samplerOk_def stopOk_def at_runner_def)
next
  case (leave j s)
  have "saRunners s = [Returning]" "j = 0" using runner_one [OF leave(3,1,2)] by simp_all
  then show ?case using leave(3)
    by (intro samplerOk_runner [OF leave(3), where r = Returning and r' = Gone]) (simp_all add: samplerOk_def stopOk_def at_runner_def closeDone_def)
qed

lemma sampler_keeps: "sampler_step s s' \<Longrightarrow> samplerOk s \<Longrightarrow> samplerOk s'"
  by (auto simp: sampler_step_def intro: start_keeps stop_keeps run_keeps)

lemma sampler_reachable_ok: "sampler_step\<^sup>*\<^sup>* (newSampler capacity) s \<Longrightarrow> samplerOk s"
  by (induction rule: rtranclp_induct) (auto intro: samplerOk_new sampler_keeps)

section \<open>Stopping\<close>

inductive_cases run_stepE: "run_step j s s'"
inductive_cases start_stepE: "start_step i s s'"
inductive_cases stop_stepE: "stop_step i s s'"

lemma gone_stays_step:
  assumes "sampler_step s s'" "samplerOk s" "saRunners s = [Gone]"
  shows "saRunners s' = [Gone] \<and> saCol s' = saCol s"
proof -
  have quiet: "saStartOnce s = Spent" "\<not> inStart s i" for i
    using assms(2,3) by (cases "saStartOnce s"; simp add: samplerOk_def startOk_def)+
  obtain i where "start_step i s s' \<or> stop_step i s s' \<or> run_step i s s'" using assms(1) by (auto simp: sampler_step_def)
  then show ?thesis
  proof (elim disjE)
    assume "start_step i s s'"
    then show ?thesis using quiet(1) quiet(2) [of i] assms(3) by (auto elim!: start_stepE simp: inStart_def)
  next
    assume "stop_step i s s'"
    then show ?thesis using assms(3) by (auto elim!: stop_stepE simp: sampler_updates)
  next
    assume "run_step i s s'"
    then show ?thesis using assms(3) by (auto elim!: run_stepE)
  qed
qed

lemma gone_stays: "sampler_step\<^sup>*\<^sup>* s s' \<Longrightarrow> samplerOk s \<Longrightarrow> saRunners s = [Gone] \<Longrightarrow> saRunners s' = [Gone] \<and> saCol s' = saCol s \<and> samplerOk s'"
proof (induction rule: rtranclp_induct)
  case (step y z)
  then show ?case using gone_stays_step [OF step(2)] sampler_keeps [OF step(2)] by simp
qed simp

definition canStop :: "nat \<Rightarrow> sampler \<Rightarrow> bool" where
  "canStop i s \<longleftrightarrow> (\<exists>s'. sampler_step\<^sup>*\<^sup>* s s' \<and> saCallers s' i = Stopped)"

lemma canStop_step: "sampler_step s s1 \<Longrightarrow> canStop i s1 \<Longrightarrow> canStop i s"
  unfolding canStop_def by (blast intro: converse_rtranclp_into_rtranclp)

lemma run_sampler: "run_step j s s' \<Longrightarrow> sampler_step s s'"
  by (auto simp: sampler_step_def)

lemma stop_gone:
  assumes "samplerOk s" "saCallers s i = StopWait" "saRunners s = [Gone]"
  shows "canStop i s"
proof -
  have "saDone s" using assms by (simp add: samplerOk_def stopOk_def)
  then have "sampler_step s (at_pc i Stopped s)" using assms(2) by (auto simp: sampler_step_def intro: stop_step.receive)
  then show ?thesis by (rule canStop_step) (auto simp: canStop_def at_pc_def)
qed

lemma stop_returning:
  assumes "samplerOk s" "saCallers s i = StopWait" "saRunners s = [Returning]"
  shows "canStop i s"
proof -
  have st: "sampler_step s (at_runner 0 Gone (closeDone s))" using assms(3) by (intro run_sampler [of 0] run_step.leave) simp_all
  show ?thesis by (rule canStop_step [OF st], rule stop_gone) (use assms sampler_keeps [OF st] in \<open>simp_all add: at_runner_def closeDone_def\<close>)
qed

lemma stop_selecting:
  assumes "samplerOk s" "saCallers s i = StopWait" "saRunners s = [Selecting]"
  shows "canStop i s"
proof -
  have "callerOk s StopWait" using assms(1,2) unfolding samplerOk_def stopOk_def by metis
  then have st: "sampler_step s (at_runner 0 Returning s)" using assms(3) by (intro run_sampler [of 0] run_step.quit) (simp_all add: callerOk_def)
  show ?thesis by (rule canStop_step [OF st], rule stop_returning) (use assms sampler_keeps [OF st] in \<open>simp_all add: at_runner_def\<close>)
qed

lemma stop_seeding:
  assumes "samplerOk s" "saCallers s i = StopWait" "saRunners s = [Seeding]"
  shows "canStop i s"
proof -
  obtain c where c: "captureStep zeroSample s = s \<lparr>saCol := c\<rparr>" using captureStep_ok [OF assms(1)] by metis
  have st: "sampler_step s (at_runner 0 Selecting (captureStep zeroSample s))" using assms(3) by (intro run_sampler [of 0] run_step.seed) simp_all
  show ?thesis by (rule canStop_step [OF st], rule stop_selecting) (use assms c sampler_keeps [OF st] in \<open>simp_all add: at_runner_def\<close>)
qed

lemma stop_waiting:
  assumes "samplerOk s" "saCallers s i = StopWait"
  shows "canStop i s"
proof -
  have "callerOk s StopWait" using assms unfolding samplerOk_def stopOk_def by metis
  then have started: "saStarted s" by (simp add: callerOk_def)
  show ?thesis
  proof (cases "saStartOnce s")
    case Fresh
    then show ?thesis using assms(1) started by (simp add: samplerOk_def startOk_def)
  next
    case Busy
    then obtain j where j: "saCallers s j = StartGo" "saRunners s = []" using assms(1) started by (auto simp: samplerOk_def startOk_def)
    then have st: "sampler_step s (at_pc j Idle (s \<lparr>saRunners := saRunners s @ [Seeding], saStartOnce := Spent\<rparr>))"
      unfolding sampler_step_def by (blast intro: start_step.spawn)
    have "j \<noteq> i" using j assms(2) by auto
    then show ?thesis by (intro canStop_step [OF st] stop_seeding) (use assms j sampler_keeps [OF st] in \<open>simp_all add: at_pc_def\<close>)
  next
    case Spent
    then obtain r where "saRunners s = [r]" using assms(1) by (auto simp: samplerOk_def startOk_def)
    then show ?thesis using stop_gone stop_returning stop_selecting stop_seeding assms by (cases r) auto
  qed
qed

section \<open>Properties\<close>


text \<open>\<open>Start\<close> by goroutine 0 up to the \<open>go\<close> statement, then \<open>Stop\<close> by goroutine 1 up to its receive.\<close>

definition demoStopping :: sampler where
  "demoStopping = at_pc 1 StopWait (at_pc 1 StopLoad (closeStop
     (at_pc 0 StartGo (at_pc 0 StartStore (newSampler 2 \<lparr>saStartOnce := Busy\<rparr>) \<lparr>saStarted := True\<rparr>) \<lparr>saStopOnce := True\<rparr>)))"

lemma start_sampler: "start_step i s s' \<Longrightarrow> sampler_step s s'"
  by (auto simp: sampler_step_def)

lemma stop_sampler: "stop_step i s s' \<Longrightarrow> sampler_step s s'"
  by (auto simp: sampler_step_def)

lemma demo_reached: "sampler_step\<^sup>*\<^sup>* (newSampler 2) demoStopping"
proof -
  let ?a = "at_pc 0 StartStore (newSampler 2 \<lparr>saStartOnce := Busy\<rparr>)"
  let ?b = "at_pc 0 StartGo (?a \<lparr>saStarted := True\<rparr>)"
  let ?c = "at_pc 1 StopLoad (closeStop (?b \<lparr>saStopOnce := True\<rparr>))"
  have "sampler_step (newSampler 2) ?a" by (rule start_sampler, rule start_step.first) (simp_all add: newSampler_def)
  moreover have "sampler_step ?a ?b" by (rule start_sampler, rule start_step.mark) (simp add: at_pc_def)
  moreover have "sampler_step ?b ?c" by (rule stop_sampler, rule stop_step.close) (simp_all add: at_pc_def newSampler_def)
  moreover have "stop_step 1 ?c (at_pc 1 (if saStarted ?c then StopWait else Idle) ?c)" by (rule stop_step.load) (simp add: at_pc_def)
  then have "sampler_step ?c demoStopping" unfolding demoStopping_def by (intro stop_sampler [of 1]) (simp add: sampler_updates)
  ultimately show ?thesis by (meson converse_rtranclp_into_rtranclp r_into_rtranclp)
qed


end
