(* ===== verification/Middleware.thy ===== *)
theory Middleware
  imports Api_Router
begin

text \<open>
  The middlewares that every request passes before it reaches a route (\<open>internal/api/router.go\<close>): \<open>responseRecorder\<close>, \<open>requestIDMiddleware\<close>,
  \<open>loggingMiddleware\<close>, \<open>metricsMiddleware\<close>, and the context functions for the request id (\<open>internal/auth/middleware.go\<close>).

  A handler is what it does to the \<open>http.ResponseWriter\<close> it is given: a list of calls, and whether it panicked after them. A recorder passes calls on
  to the writer it wraps, so it is a function from calls to calls. The writer of \<open>net/http\<close> for HTTP/1.1, which can be flushed and hijacked, is the record \<open>HttpWire\<close>. What chi's \<open>Recoverer\<close> writes
  after a panic is a parameter, as are the durations the middlewares measure.
\<close>

section \<open>Response writers\<close>

datatype wcall = SetHeader string string | WriteHeader int | Write string | Flush | Hijack

record responseRecorder =
  rrStatus :: int
  rrWroteHeader :: bool

definition newRecorder :: responseRecorder where
  "newRecorder = \<lparr>rrStatus = 200, rrWroteHeader = False\<rparr>"

definition rr_WriteHeader :: "int \<Rightarrow> responseRecorder \<Rightarrow> responseRecorder \<times> wcall list" where
  "rr_WriteHeader code r =
     (if rrWroteHeader r then (r, []) else (r \<lparr>rrStatus := code, rrWroteHeader := True\<rparr>, [WriteHeader code]))"

definition rr_Write :: "string \<Rightarrow> responseRecorder \<Rightarrow> responseRecorder \<times> wcall list" where
  "rr_Write b r = (case (if \<not> rrWroteHeader r then rr_WriteHeader 200 r else (r, [])) of (r', calls) \<Rightarrow> (r', calls @ [Write b]))"

definition rr_Hijack :: "responseRecorder \<Rightarrow> responseRecorder \<times> wcall list" where
  "rr_Hijack r = (r, [Hijack])"

definition rr_Flush :: "responseRecorder \<Rightarrow> responseRecorder \<times> wcall list" where
  "rr_Flush r = (r, [Flush])"

fun rr_call :: "wcall \<Rightarrow> responseRecorder \<Rightarrow> responseRecorder \<times> wcall list" where
  "rr_call (SetHeader k v) r = (r, [SetHeader k v])"
| "rr_call (WriteHeader code) r = rr_WriteHeader code r"
| "rr_call (Write b) r = rr_Write b r"
| "rr_call Flush r = rr_Flush r"
| "rr_call Hijack r = rr_Hijack r"

fun recordAll :: "wcall list \<Rightarrow> responseRecorder \<Rightarrow> responseRecorder \<times> wcall list" where
  "recordAll [] r = (r, [])"
| "recordAll (c # cs) r = (case rr_call c r of (r1, out1) \<Rightarrow> (case recordAll cs r1 of (r2, out2) \<Rightarrow> (r2, out1 @ out2)))"

text \<open>\<open>net/http\<close>: the first final status is sent; an informational one (1xx other than 101) is sent and does not count; writing or flushing without a status
  sends 200; after a hijack nothing is written.\<close>

record HttpWire =
  wiHeader :: "string \<Rightarrow> string option"
  wiStatus :: "int option"
  wiInfo :: "int list"
  wiBody :: string
  wiHijacked :: bool

definition newWire :: HttpWire where
  "newWire = \<lparr>wiHeader = (\<lambda>k. None), wiStatus = None, wiInfo = [], wiBody = '''', wiHijacked = False\<rparr>"

definition sendStatus :: "int \<Rightarrow> HttpWire \<Rightarrow> HttpWire" where
  "sendStatus code w = (if wiStatus w = None then w \<lparr>wiStatus := Some code\<rparr> else w)"

fun wire_call :: "wcall \<Rightarrow> HttpWire \<Rightarrow> HttpWire" where
  "wire_call (SetHeader k v) w = (if wiStatus w = None then w \<lparr>wiHeader := (wiHeader w)(k \<mapsto> v)\<rparr> else w)"
| "wire_call (WriteHeader code) w =
     (if wiHijacked w then w
      else if 100 \<le> code \<and> code \<le> 199 \<and> code \<noteq> 101 then (if wiStatus w = None then w \<lparr>wiInfo := wiInfo w @ [code]\<rparr> else w)
      else sendStatus code w)"
| "wire_call (Write b) w = (if wiHijacked w then w else let w' = sendStatus 200 w in w' \<lparr>wiBody := wiBody w' @ b\<rparr>)"
| "wire_call Flush w = (if wiHijacked w then w else sendStatus 200 w)"
| "wire_call Hijack w = w \<lparr>wiHijacked := True\<rparr>"

definition play :: "wcall list \<Rightarrow> HttpWire \<Rightarrow> HttpWire" where
  "play cs w = fold wire_call cs w"

section \<open>The chain\<close>

record HttpRequest =
  hqRequest :: Request
  hqRequestIDHeader :: string
  hqRequestID :: "string option"

definition WithRequestID :: "HttpRequest \<Rightarrow> string \<Rightarrow> HttpRequest" where
  "WithRequestID r i = r \<lparr>hqRequestID := Some i\<rparr>"

definition RequestIDFrom :: "HttpRequest \<Rightarrow> string" where
  "RequestIDFrom r = (case hqRequestID r of Some i \<Rightarrow> i | None \<Rightarrow> '''')"

record AccessEntry =
  leRequestID :: string
  leMethod :: string
  lePath :: string
  leStatus :: int
  leMicros :: int

text \<open>\<open>leMicros\<close> are the microseconds of which the log line shows the thousandth part. What the server has logged and counted: \<open>HTTPRequestsTotal\<close> by method, path and status label, and the observations of \<open>HTTPDuration\<close>.\<close>

record Telemetry =
  tmLog :: "AccessEntry list"
  tmRequests :: "string \<times> string \<times> string \<Rightarrow> nat"
  tmDurations :: "((string \<times> string) \<times> int) list"

definition metrics_New :: Telemetry where
  "metrics_New = \<lparr>tmLog = [], tmRequests = (\<lambda>k. 0), tmDurations = []\<rparr>"

type_synonym 's served = "(wcall list \<times> bool) \<times> 's \<times> Telemetry"
type_synonym 's mhandler = "HttpRequest \<Rightarrow> 's \<times> Telemetry \<Rightarrow> 's served"

definition requestIDMiddleware :: "string \<Rightarrow> 's mhandler \<Rightarrow> 's mhandler" where
  "requestIDMiddleware uuid next r st =
     (let i = (if hqRequestIDHeader r = '''' then uuid else hqRequestIDHeader r)
      in case next (WithRequestID r i) st of ((calls, panicked), st') \<Rightarrow> ((SetHeader ''X-Request-ID'' i # calls, panicked), st'))"

definition loggingMiddleware :: "int \<Rightarrow> 's mhandler \<Rightarrow> 's mhandler" where
  "loggingMiddleware dur next r st = (case next r st of ((calls, panicked), s, t) \<Rightarrow>
     (case recordAll calls newRecorder of (rec, out) \<Rightarrow>
       ((out, panicked), s,
        if panicked then t
        else t \<lparr>tmLog := tmLog t @ [\<lparr>leRequestID = RequestIDFrom r, leMethod = rqMethod (hqRequest r), lePath = rqPath (hqRequest r),
            leStatus = rrStatus rec, leMicros = dur div 1000\<rparr>]\<rparr>)))"

definition metricsMiddleware :: "int \<Rightarrow> 's mhandler \<Rightarrow> 's mhandler" where
  "metricsMiddleware dur next r st = (case next r st of ((calls, panicked), s, t) \<Rightarrow>
     (case recordAll calls newRecorder of (rec, out) \<Rightarrow>
       ((out, panicked), s,
        if panicked then t
        else (let m = rqMethod (hqRequest r); p = rqPath (hqRequest r); k = (m, p, httpStatusLabel (rrStatus rec))
              in t \<lparr>tmRequests := (tmRequests t)(k := tmRequests t k + 1), tmDurations := tmDurations t @ [((m, p), dur)]\<rparr>))))"

text \<open>\<open>Router\<close>'s \<open>Use\<close> calls, outermost first; \<open>recovered\<close> is what \<open>Recoverer\<close> writes after a panic.\<close>

definition Router_chain :: "wcall list \<Rightarrow> string \<Rightarrow> int \<Rightarrow> int \<Rightarrow> 's mhandler \<Rightarrow> HttpRequest \<Rightarrow> 's \<times> Telemetry \<Rightarrow> HttpWire \<times> 's \<times> Telemetry" where
  "Router_chain recovered uuid dur1 dur2 h r st =
     (case requestIDMiddleware uuid (loggingMiddleware dur1 (metricsMiddleware dur2 h)) r st of
        ((calls, panicked), st') \<Rightarrow> (play (if panicked then calls @ recovered else calls) newWire, st'))"

text \<open>The status the client receives: \<open>net/http\<close> sends 200 when the handler returns without one.\<close>

definition clientStatus :: "HttpWire \<Rightarrow> int" where
  "clientStatus w = (case wiStatus w of Some c \<Rightarrow> c | None \<Rightarrow> 200)"

text \<open>A handler of the API writes its answer with \<open>writeJSON\<close> or \<open>http.Error\<close>.\<close>

definition apiHandler :: "string \<Rightarrow> 's handler \<Rightarrow> 's mhandler" where
  "apiHandler contentType h r st = (case h (hqRequest r) (fst st) of (resp, s) \<Rightarrow>
     (([SetHeader ''Content-Type'' contentType, WriteHeader (rsStatus resp), Write (rsBody resp)], False), s, snd st))"

definition handleReadyz :: "'c ApiEnv \<Rightarrow> bool \<Rightarrow> Response" where
  "handleReadyz env storeIsNil =
     (if storeIsNil then writeJSON env 503 (BMap [(''status'', VString ''not ready'')])
      else writeJSON env 200 (BMap [(''status'', VString ''ready'')]))"

section \<open>Recorders\<close>

lemmas rr_defs = rr_WriteHeader_def rr_Write_def rr_Flush_def rr_Hijack_def

lemma rr_wrote: "rr_call c r = (r', out) \<Longrightarrow> rrWroteHeader r \<Longrightarrow> r' = r"
  by (cases c) (auto simp: rr_defs)

lemma recordAll_append: "recordAll (xs @ ys) r =
    (case recordAll xs r of (r1, o1) \<Rightarrow> (case recordAll ys r1 of (r2, o2) \<Rightarrow> (r2, o1 @ o2)))"
  by (induction xs arbitrary: r) (auto split: prod.splits)

text \<open>A recorder around a recorder sees and passes on the same calls.\<close>

lemma recordAll_idem: "recordAll cs r = (r', out) \<Longrightarrow> recordAll out r = (r', out)"
proof (induction cs arbitrary: r r' out)
  case (Cons c cs)
  obtain r1 o1 where 1: "rr_call c r = (r1, o1)" by fastforce
  obtain r2 o2 where 2: "recordAll cs r1 = (r2, o2)" by fastforce
  have "recordAll o1 r = (r1, o1)" using 1 by (cases c) (auto simp: rr_defs split: if_splits)
  then show ?case using Cons.prems Cons.IH [OF 2] 1 2 by (auto simp: recordAll_append)
qed simp

text \<open>The recorder knows the status that was sent.\<close>

definition tracks :: "responseRecorder \<Rightarrow> HttpWire \<Rightarrow> bool" where
  "tracks r w \<longleftrightarrow> \<not> wiHijacked w \<and> wiStatus w = (if rrWroteHeader r then Some (rrStatus r) else None)"

lemma rr_call_tracks:
  assumes "tracks r w" "rr_call c r = (r', out)" "c \<noteq> Hijack" "c \<noteq> Flush" "\<forall>code. c = WriteHeader code \<longrightarrow> 200 \<le> code"
  shows "tracks r' (play out w)"
  using assms by (cases c) (auto simp: tracks_def rr_defs play_def sendStatus_def Let_def split: if_splits)

lemma recordAll_tracks:
  "tracks r w \<Longrightarrow> recordAll cs r = (r', out) \<Longrightarrow> Hijack \<notin> set cs \<Longrightarrow> Flush \<notin> set cs \<Longrightarrow> (\<forall>code. WriteHeader code \<in> set cs \<longrightarrow> 200 \<le> code)
    \<Longrightarrow> tracks r' (play out w)"
proof (induction cs arbitrary: r w out)
  case (Cons c cs)
  obtain r1 o1 where 1: "rr_call c r = (r1, o1)" by fastforce
  obtain o2 where 2: "recordAll cs r1 = (r', o2)" "out = o1 @ o2" using Cons.prems(2) 1 by (auto split: prod.splits)
  have "tracks r1 (play o1 w)" using Cons.prems by (intro rr_call_tracks [OF _ 1]) auto
  then have "tracks r' (play o2 (play o1 w))" using Cons.prems by (intro Cons.IH [OF _ 2(1)]) auto
  then show ?case using 2(2) by (simp add: play_def)
qed (simp add: play_def)

lemma wire_header: "wire_call c w = w' \<Longrightarrow> (\<forall>v. c \<noteq> SetHeader k v) \<Longrightarrow> wiHeader w' k = wiHeader w k"
  by (cases c) (auto simp: sendStatus_def Let_def)

lemma play_header: "(\<forall>v. SetHeader k v \<notin> set cs) \<Longrightarrow> wiHeader (play cs w) k = wiHeader w k"
  unfolding play_def
proof (induction cs arbitrary: w)
  case (Cons c cs)
  then have "\<forall>v. c \<noteq> SetHeader k v" by auto
  then show ?case using Cons wire_header [OF refl, of c k w] by simp
qed simp

lemma recordAll_headers: "recordAll cs r = (r', out) \<Longrightarrow> SetHeader k v \<in> set out \<Longrightarrow> SetHeader k v \<in> set cs"
proof (induction cs arbitrary: r out)
  case (Cons c cs)
  obtain r1 o1 where 1: "rr_call c r = (r1, o1)" by fastforce
  obtain o2 where 2: "recordAll cs r1 = (r', o2)" "out = o1 @ o2" using Cons.prems(1) 1 by (auto split: prod.splits)
  have "SetHeader k v \<in> set o1 \<Longrightarrow> c = SetHeader k v" using 1 by (cases c) (auto simp: rr_defs split: if_splits)
  then show ?case using Cons.prems(2) Cons.IH [OF 2(1)] 2(2) by auto
qed simp

lemma recordAll_wrote: "recordAll cs r = (r', out) \<Longrightarrow> rrWroteHeader r \<Longrightarrow> r' = r"
  by (induction cs arbitrary: out) (auto split: prod.splits dest: rr_wrote)

lemma recordAll_unwritten: "recordAll cs r = (r', out) \<Longrightarrow> rrStatus r = 200 \<Longrightarrow> \<not> rrWroteHeader r' \<Longrightarrow> rrStatus r' = 200"
proof (induction cs arbitrary: r out)
  case (Cons c cs)
  obtain r1 o1 where 1: "rr_call c r = (r1, o1)" by fastforce
  obtain o2 where 2: "recordAll cs r1 = (r', o2)" using Cons.prems(1) 1 by (auto split: prod.splits)
  have "\<not> rrWroteHeader r1" using recordAll_wrote [OF 2] Cons.prems(3) by auto
  then have "rrStatus r1 = 200" using 1 Cons.prems(2) by (cases c) (auto simp: rr_defs split: if_splits)
  then show ?case using Cons.IH [OF 2] Cons.prems(3) by blast
qed simp

section \<open>Properties\<close>


text \<open>A request to \<open>/api/v1/agents\<close> that answers 404.\<close>

definition demoRequest :: HttpRequest where
  "demoRequest = \<lparr>hqRequest = \<lparr>rqMethod = ''GET'', rqPath = ''/api/v1/agents/a1'', rqAuthorization = '''', rqClaims = None\<rparr>, hqRequestIDHeader = ''r-7'', hqRequestID = None\<rparr>"

definition demoMissing :: "nat handler" where
  "demoMissing r s = (\<lparr>rsStatus = 404, rsBody = ''not found''\<rparr>, s + 1)"


end
