(* ===== verification/Spec2Isabelle.thy ===== *)
theory Spec2Isabelle
  imports Expr_Semantics Api_Chat Mcp_Engine Pg_Properties Startup Sampler Middleware
begin

text \<open>
  Verification of Agent Hub core, the server of a multi-tenant platform for agents (Go, under \<open>src/\<close>).

  \<^bold>\<open>The program.\<close> \<open>cmd/hub\<close> reads the configuration, opens a store (in memory or PostgreSQL, after running the migrations) and serves an HTTP API.
  A request passes the middlewares (recovery, request id, logging, metrics, then authentication and the role matrix) and reaches a handler. Handlers
  work on the store, run flows (\<open>internal/flow\<close>: a graph of nodes with conditions, agents, tools and outputs whose side effects are rolled back on
  failure), distribute tasks over agents (\<open>internal/orchestrator\<close>: a bounded worker pool), call the tools of MCP servers (\<open>internal/mcp\<close>), and send
  events to the WebSocket clients of the tenant (\<open>internal/ws\<close>). A background goroutine samples the system for the dashboard.

  \<^bold>\<open>Theories and sources.\<close>
  \<^item> \<open>Prelude\<close>, \<open>Values\<close>: the result type, Go maps with an explicit visiting order, string functions of the Go library on bytes; dynamic JSON values,
    float64 as rationals with IEEE rounding, \<open>reflect.DeepEqual\<close>.
  \<^item> \<open>Expr_Lexer\<close>, \<open>Expr_Parser\<close>, \<open>Expr_Semantics\<close> (\<open>flow/expr.go\<close>): the scanner, the one-pass parser and evaluator with its skipping of
    short-circuited operands, and a reference semantics on syntax trees. Evaluating the printed form of a condition gives the value or error of the tree;
    evaluation ends on every input; a cut-off skipped operand panics.
  \<^item> \<open>Flow_Graph\<close> (\<open>flow/graph.go\<close>): documents, validation, Kahn's algorithm. Accepted are exactly the well-formed acyclic documents; the order is topological.
  \<^item> \<open>Side_Effects\<close>, \<open>Flow_Engine\<close> (\<open>flow/rollback.go\<close>, \<open>nodes.go\<close>, \<open>engine.go\<close>): the side-effect store, the rollback log, node executors and
    \<open>Execute\<close>. A failed execution restores the store, outputs respect the permissions of the flow, a successful one runs exactly the reachable nodes once.
  \<^item> \<open>Store_Models\<close>, \<open>Memory_Store\<close> (\<open>store/models.go\<close>, \<open>memory.go\<close>): resources and the in-memory store, with a locale for its tables interpreted for all
    seven. It refines partial maps from tenant and id, listings are exact, tenants are isolated.
  \<^item> \<open>Pg_Store\<close>, \<open>Pg_Refinement\<close>, \<open>Pg_Properties\<close> (\<open>store/pgx.go\<close>, \<open>json_helpers.go\<close>, the schema): every SQL statement of the PostgreSQL store over a
    database with the laws of the statements used. Locales for a table and for a resource, interpreted for all seven tables, show that it meets the same
    specification as the in-memory store, with the differences spelt out.
  \<^item> \<open>Auth\<close> (\<open>auth/\<close>): roles, tokens, the two middlewares. Handlers run only for verified tokens with a sufficient role.
  \<^item> \<open>Ws_Hub\<close> (\<open>ws/hub.go\<close>): no operation of a reachable hub panics; broadcasts reach exactly the clients of the tenant that have room.
  \<^item> \<open>History\<close>, \<open>Sampler\<close> (\<open>api/dashboard_history.go\<close>): the ring buffer shows the last samples; \<open>Start\<close>, \<open>Stop\<close> and the sampling goroutine as a
    step relation are safe under every interleaving.
  \<^item> \<open>Orchestrator\<close> (\<open>orchestrator/\<close>): decomposition, the worker pool as a step relation, aggregation. The pool is bounded, terminates, and the stored task
    agrees with the subtasks.
  \<^item> \<open>Mcp\<close>, \<open>Mcp_Client\<close>, \<open>Mcp_Engine\<close> (\<open>mcp/\<close>): types and the mock client; the pure Go client, which closes every connection it opens; the cgo client
    over an explicit C heap, which frees every block exactly once.
  \<^item> \<open>Api_Handlers\<close>, \<open>Api_Router\<close>, \<open>Api_Properties\<close>, \<open>Api_Chat\<close>, \<open>Middleware\<close> (\<open>api/\<close>): every handler on the state of the server, the routes,
    the WebSocket endpoint with its chat, and the outer middlewares. Requests of one tenant change nothing another can see; a server invariant holds along
    every sequence of requests; roles reach only their endpoints; what is logged and counted is what the client saw.
  \<^item> \<open>Configuration\<close>, \<open>Startup\<close> (\<open>config/config.go\<close>, \<open>store/migrations.go\<close>, the set-up in \<open>store/pgx.go\<close>, \<open>cmd/hub/main.go\<close>): the parsers of the
    standard library and \<open>Load\<close>; the migrations; \<open>main\<close> from its start to its exit status, with the pools it opens and closes.

  \<^bold>\<open>Conventions.\<close> A struct is a record, an error a value of a sum, a panic \<open>None\<close> or a constructor of its own; state is passed explicitly. Goroutines are step
  relations (worker pool, sampler, hub operations); HTTP requests run one at a time. Strings are lists of bytes. Integers are \<open>int\<close> where the code cannot
  overflow or the bound is a theorem (configuration), words where it wraps (JSON-RPC ids). The order in which Go visits a map is a parameter, so every result
  holds for all orders.

  \<^bold>\<open>Fuel.\<close> The parser of conditions takes \<open>6 * tokens + 5\<close> units; that this is enough is the termination theorem of \<open>Expr_Semantics\<close>. A run of the worker
  pool has at most the sum of \<open>5 + skills\<close> over the subtasks, plus 2, steps. All other recursions are structural or have a measure.

  \<^bold>\<open>Parameters.\<close> Code outside of the repository is an argument with its documented behaviour as named laws: chi's pattern matching and recovery, the JWT
  library, bcrypt, the JSON codec, pipes and sockets of the MCP clients (\<open>wireOk\<close>), the Rust library behind the cgo client, PostgreSQL and pgx (the laws of
  \<open>DB\<close>), pgxpool (\<open>poolOk\<close>), Unicode case mapping beyond ASCII, the clock, uuids and the system samplers. Each law has a witness on a concrete instance.

  \<^bold>\<open>Not modelled.\<close> The interleaving of HTTP requests with each other (each store method holds its lock; a handler makes several); paths with percent escapes;
  the upgrade and the frames of WebSockets; the exposition of the metrics at \<open>/metrics\<close> and the output of the logger, which are Prometheus and \<open>slog\<close>; the
  timeouts of the HTTP server, which are \<open>net/http\<close>. The OpenAPI document, the build files and the tests hold none of the program's logic.
\<close>

end
